theory Spec2Isabelle
  imports Complex_Main "HOL-Library.Stream"
begin

section \<open>Vehicle analytics demo: telemetry simulator and inference engine\<close>

text \<open>
  A shallow embedding of the two classes of \<^verbatim>\<open>script.js\<close> that hold the program's
  logic, \<^verbatim>\<open>MockOBDSimulator\<close> and \<^verbatim>\<open>MLInferenceEngine\<close>.

  The program is modelled twice. In the first model a JavaScript number is a
  \<^typ>\<open>real\<close> and arithmetic is exact; the statements made on it are about the control
  flow: the clamps of the targets, the lengths of the histories, the step counter and
  the array that reaches \<^verbatim>\<open>calculateVariance\<close>. In the second model, whose names end in
  \<open>_d\<close>, a number is an IEEE 754 double and every operation is rounded; every statement
  about the value of a computed number is made on the second model. The tick counter,
  which only ever holds small non-negative integers, is a \<^typ>\<open>nat\<close>.

  The program reads two sources from its environment: \<^verbatim>\<open>Math.random()\<close> and
  \<^verbatim>\<open>Date.now()\<close>. Each is a stream of the values the successive calls return; a call
  takes the head of its stream and leaves the tail.
\<close>

subsection \<open>Environment\<close>

record env =
  randoms :: "real stream"
  clock :: "real stream"

definition Math_random :: "env \<Rightarrow> real \<times> env" where
  "Math_random e = (shd (randoms e), e\<lparr>randoms := stl (randoms e)\<rparr>)"

definition Date_now :: "env \<Rightarrow> real \<times> env" where
  "Date_now e = (shd (clock e), e\<lparr>clock := stl (clock e)\<rparr>)"

text \<open>\<^verbatim>\<open>Math.random()\<close> returns a number in \<open>[0, 1)\<close>.\<close>

definition unit_draws :: "env \<Rightarrow> bool" where
  "unit_draws e \<longleftrightarrow> (\<forall>x \<in> sset (randoms e). 0 \<le> x \<and> x < 1)"

subsection \<open>Data model\<close>

text \<open>The object literal of \<^verbatim>\<open>this.state\<close> and \<^verbatim>\<open>this.target\<close>.\<close>

record vehicle =
  rpm :: real
  speed :: real
  throttle :: real
  load :: real
  coolant :: real
  battery :: real
  fuelEff :: real

text \<open>
  \<^verbatim>\<open>this.history\<close>: one array per channel. The fields carry the prefix \<open>h_\<close>
  because the channel names are already the fields of \<^typ>\<open>vehicle\<close>.
\<close>

record hist =
  h_rpm :: "real list"
  h_speed :: "real list"
  h_load :: "real list"
  h_coolant :: "real list"
  h_throttle :: "real list"
  h_fuelEff :: "real list"

record sim =
  state :: vehicle
  history :: hist
  target :: vehicle
  isAccelerating :: bool
  accelCounter :: nat

definition HISTORY_SIZE :: nat where
  "HISTORY_SIZE = 100"

subsection \<open>MockOBDSimulator\<close>

text \<open>The constructor (lines 12-25).\<close>

definition initial_state :: vehicle where
  "initial_state = \<lparr>rpm = 1000, speed = 0, throttle = 0, load = 20, coolant = 90,
     battery = 13.8, fuelEff = 8.5\<rparr>"

definition MockOBDSimulator :: sim where
  "MockOBDSimulator =
     \<lparr>state = initial_state,
      history = \<lparr>h_rpm = replicate HISTORY_SIZE 1000,
                 h_speed = replicate HISTORY_SIZE 0,
                 h_load = replicate HISTORY_SIZE 20,
                 h_coolant = replicate HISTORY_SIZE 90,
                 h_throttle = replicate HISTORY_SIZE 0,
                 h_fuelEff = replicate HISTORY_SIZE 8.5\<rparr>,
      target = initial_state,
      isAccelerating = False,
      accelCounter = 0\<rparr>"

definition lerp :: "real \<Rightarrow> real \<Rightarrow> real \<Rightarrow> real" where
  "lerp start stop amt = (1 - amt) * start + amt * stop"

text \<open>
  \<^verbatim>\<open>arr.push(v); arr.shift()\<close>: append at the end, then drop the first element.
  On an empty array the element just pushed is the one shifted out.
\<close>

definition push_shift :: "real list \<Rightarrow> real \<Rightarrow> real list" where
  "push_shift arr v = tl (arr @ [v])"

definition updateHistory :: "sim \<Rightarrow> sim" where
  "updateHistory s =
     (let st = state s; h = history s
      in s\<lparr>history :=
            \<lparr>h_rpm = push_shift (h_rpm h) (rpm st),
             h_speed = push_shift (h_speed h) (speed st),
             h_load = push_shift (h_load h) (load st),
             h_coolant = push_shift (h_coolant h) (coolant st),
             h_throttle = push_shift (h_throttle h) (throttle st),
             h_fuelEff = push_shift (h_fuelEff h) (fuelEff st)\<rparr>\<rparr>)"

text \<open>
  \<^verbatim>\<open>tick\<close>, lines 27-31: the counter is incremented; the random number is drawn
  only when the counter exceeds 50 (\<^verbatim>\<open>&&\<close> evaluates its right operand only then).
\<close>

definition tick_mode :: "sim \<Rightarrow> env \<Rightarrow> sim \<times> env" where
  "tick_mode s e =
     (let s1 = s\<lparr>accelCounter := accelCounter s + 1\<rparr>
      in if accelCounter s1 > 50
         then (let (r, e1) = Math_random e
               in if r > 0.95
                  then (s1\<lparr>isAccelerating := \<not> isAccelerating s1, accelCounter := 0\<rparr>, e1)
                  else (s1, e1))
         else (s1, e))"

text \<open>Lines 32-44: the targets are pushed up or down, each against its bound.\<close>

definition push_targets :: "bool \<Rightarrow> vehicle \<Rightarrow> vehicle" where
  "push_targets acc t =
     (if acc
      then t\<lparr>throttle := min (throttle t + 2) 85,
             rpm := min (rpm t + 60) 5500,
             speed := min (speed t + 0.8) 140,
             load := min (load t + 1.5) 95,
             fuelEff := min (fuelEff t + 0.5) 25\<rparr>
      else t\<lparr>throttle := max (throttle t - 3) 0,
             rpm := max (rpm t - 80) 800,
             speed := max (speed t - 0.4) 0,
             load := max (load t - 2) 15,
             fuelEff := max (fuelEff t - 0.2) 4.5\<rparr>)"

text \<open>
  Lines 45-47: the jitter on the rpm target and the coolant target. The load that is
  compared with 70 is the one of the state before this step.
\<close>

definition tick_targets :: "sim \<Rightarrow> env \<Rightarrow> sim \<times> env" where
  "tick_targets s e =
     (let t1 = push_targets (isAccelerating s) (target s);
          (r, e1) = Math_random e;
          t2 = t1\<lparr>rpm := rpm t1 + (r - 0.5) * 30\<rparr>;
          t3 = (if load (state s) > 70
                then t2\<lparr>coolant := coolant t2 + 0.02\<rparr>
                else t2\<lparr>coolant := max (coolant t2 - 0.01) 88\<rparr>)
      in (s\<lparr>target := t3\<rparr>, e1))"

text \<open>Lines 48-54: the state follows the target; the battery follows the clock.\<close>

definition tick_state :: "sim \<Rightarrow> env \<Rightarrow> sim \<times> env" where
  "tick_state s e =
     (let st = state s; t = target s;
          (now, e1) = Date_now e
      in (s\<lparr>state :=
             st\<lparr>rpm := lerp (rpm st) (rpm t) 0.08,
                speed := lerp (speed st) (speed t) 0.04,
                throttle := lerp (throttle st) (throttle t) 0.1,
                load := lerp (load st) (load t) 0.08,
                coolant := lerp (coolant st) (coolant t) 0.05,
                fuelEff := lerp (fuelEff st) (fuelEff t) 0.05,
                battery := 13.5 + sin (now / 1000) * 0.2\<rparr>\<rparr>, e1))"

definition tick :: "sim \<Rightarrow> env \<Rightarrow> sim \<times> env" where
  "tick s e =
     (let (s1, e1) = tick_mode s e;
          (s2, e2) = tick_targets s1 e1;
          (s3, e3) = tick_state s2 e2
      in (updateHistory s3, e3))"

text \<open>The simulator after \<open>n\<close> calls of \<^verbatim>\<open>tick\<close>, and what is left of the environment.\<close>

fun ticks :: "nat \<Rightarrow> sim \<Rightarrow> env \<Rightarrow> sim \<times> env" where
  "ticks 0 s e = (s, e)"
| "ticks (Suc n) s e = (let (s1, e1) = ticks n s e in tick s1 e1)"



subsection \<open>MLInferenceEngine\<close>

text \<open>
  The engine keeps a reference to the simulator, which it only reads; the model passes
  the simulator to \<^verbatim>\<open>runInference\<close> as an argument. Its own state is the counter.
\<close>

record ml_engine =
  rulKms :: real

definition MLInferenceEngine :: ml_engine where
  "MLInferenceEngine = \<lparr>rulKms = 15000\<rparr>"

datatype js_error = TypeError






text \<open>\<^verbatim>\<open>arr.slice(-k)\<close>: the last \<open>k\<close> elements, the whole array when it is shorter.\<close>

definition slice_last :: "nat \<Rightarrow> 'a list \<Rightarrow> 'a list" where
  "slice_last k arr = drop (length arr - k) arr"

text \<open>
  The object \<^verbatim>\<open>runInference\<close> returns. \<^verbatim>\<open>rpmVol.toFixed(1)\<close> is a string, the decimal
  notation of the number rounded to one decimal; the model keeps that number's tenths,
  \<open>feat_rpmVol\<close>, as an integer, and leaves the printing out.
\<close>

record scores_rec =
  hygiene :: int
  thermal :: real
  engine :: real
  electrical :: real

record rul_rec =
  rul_val :: int
  rul_prob :: string

record feat_rec =
  feat_throttle :: int
  feat_rpmVol :: int
  feat_eff :: int

record driver_rec =
  driver_type :: string
  conf :: int
  feat :: feat_rec
  insight :: string

record result =
  scores :: scores_rec
  rul :: rul_rec
  anomaly :: bool
  driver :: driver_rec




subsection \<open>Predicates of the specification\<close>

text \<open>
  The ranges the specification documents for the target fields: throttle in \<open>[0, 85]\<close>,
  rpm in \<open>[800, 5500]\<close>, speed in \<open>[0, 140]\<close>, load in \<open>[15, 95]\<close>, fuel consumption in
  \<open>[4.5, 25]\<close>.
\<close>

definition documented_target_range :: "vehicle \<Rightarrow> bool" where
  "documented_target_range t \<longleftrightarrow>
     0 \<le> throttle t \<and> throttle t \<le> 85 \<and> 800 \<le> rpm t \<and> rpm t \<le> 5500 \<and>
     0 \<le> speed t \<and> speed t \<le> 140 \<and> 15 \<le> load t \<and> load t \<le> 95 \<and>
     4.5 \<le> fuelEff t \<and> fuelEff t \<le> 25"

text \<open>
  The same ranges, with the rpm range widened by the jitter of at most 15 that line 45
  adds after the clamp of lines 34 and 40.
\<close>

definition jittered_target_range :: "vehicle \<Rightarrow> bool" where
  "jittered_target_range t \<longleftrightarrow>
     0 \<le> throttle t \<and> throttle t \<le> 85 \<and> 785 \<le> rpm t \<and> rpm t \<le> 5515 \<and>
     0 \<le> speed t \<and> speed t \<le> 140 \<and> 15 \<le> load t \<and> load t \<le> 95 \<and>
     4.5 \<le> fuelEff t \<and> fuelEff t \<le> 25"

text \<open>Every channel of the history holds \<^const>\<open>HISTORY_SIZE\<close> samples.\<close>

definition full_history :: "hist \<Rightarrow> bool" where
  "full_history h \<longleftrightarrow>
     length (h_rpm h) = HISTORY_SIZE \<and> length (h_speed h) = HISTORY_SIZE \<and>
     length (h_load h) = HISTORY_SIZE \<and> length (h_coolant h) = HISTORY_SIZE \<and>
     length (h_throttle h) = HISTORY_SIZE \<and> length (h_fuelEff h) = HISTORY_SIZE"

text \<open>
  In the run of the simulator from \<open>s\<close> in the environment \<open>e\<close>, step number \<open>n + 1\<close>
  changes the drive mode.
\<close>

definition flip_at :: "nat \<Rightarrow> sim \<Rightarrow> env \<Rightarrow> bool" where
  "flip_at n s e \<longleftrightarrow>
     isAccelerating (fst (ticks (Suc n) s e)) \<noteq> isAccelerating (fst (ticks n s e))"

text \<open>
  The population variance in the words of the specification: the mean of the squared
  deviations from the mean, dividing by the number of samples.
\<close>

definition mean :: "real list \<Rightarrow> real" where
  "mean xs = sum_list xs / real (length xs)"

definition population_variance :: "real list \<Rightarrow> real" where
  "population_variance xs = (\<Sum>x\<leftarrow>xs. (x - mean xs)\<^sup>2) / real (length xs)"

subsection \<open>Double-precision arithmetic\<close>

text \<open>
  The numbers of the program are IEEE 754 doubles. The inference engine and the
  simulator's step are modelled a second time below, with every operation rounded as
  the hardware rounds it; the statements about the values they compute are made on
  that model.

  A double is a finite real, an infinity or \<open>NaN\<close>. The sign of a zero is not kept: the
  two zeros compare equal and the code does not divide by a computed zero. \<open>fl\<close> rounds a
  real to the nearest double, a tie to the one with the even significand: the quantum
  of a binade \<open>[2^k, 2^(k+1))\<close> is \<open>2^(k-52)\<close>, below \<open>2^-1022\<close> it is \<open>2^-1074\<close>, and a
  rounded value of magnitude \<open>2^1024\<close> or more is an infinity.
\<close>

datatype double = Fin real | PInf | NInf | NaN

definition round_even :: "real \<Rightarrow> int" where
  "round_even y =
     (let f = \<lfloor>y\<rfloor>; r = y - of_int f
      in if r < 1/2 then f else if 1/2 < r then f + 1 else if even f then f else f + 1)"

definition quantum_exp :: "real \<Rightarrow> int" where
  "quantum_exp x = max \<lfloor>log 2 \<bar>x\<bar>\<rfloor> (- 1022) - 52"

definition clip :: "real \<Rightarrow> double" where
  "clip y = (if 2 powi 1024 \<le> y then PInf else if y \<le> - (2 powi 1024) then NInf else Fin y)"

definition quantise :: "real \<Rightarrow> real" where
  "quantise x = of_int (round_even (x / 2 powi quantum_exp x)) * 2 powi quantum_exp x"

definition fl :: "real \<Rightarrow> double" where
  "fl x = (if x = 0 then Fin 0 else clip (quantise x))"

fun js_le :: "double \<Rightarrow> double \<Rightarrow> bool" where
  "js_le NaN b = False"
| "js_le a NaN = False"
| "js_le NInf b = True"
| "js_le a PInf = True"
| "js_le (Fin a) (Fin b) = (a \<le> b)"
| "js_le PInf b = False"
| "js_le a NInf = False"

text \<open>
  The operators. Infinite operands follow IEEE 754; a result that is not a number is
  \<open>NaN\<close>, and every comparison with \<open>NaN\<close> is false.
\<close>

fun js_neg :: "double \<Rightarrow> double" where
  "js_neg (Fin a) = Fin (- a)"
| "js_neg PInf = NInf"
| "js_neg NInf = PInf"
| "js_neg NaN = NaN"

fun js_add :: "double \<Rightarrow> double \<Rightarrow> double" where
  "js_add NaN b = NaN"
| "js_add a NaN = NaN"
| "js_add (Fin a) (Fin b) = fl (a + b)"
| "js_add PInf NInf = NaN"
| "js_add NInf PInf = NaN"
| "js_add PInf b = PInf"
| "js_add NInf b = NInf"
| "js_add a PInf = PInf"
| "js_add a NInf = NInf"

definition js_sub :: "double \<Rightarrow> double \<Rightarrow> double" where
  "js_sub a b = js_add a (js_neg b)"

fun js_mul :: "double \<Rightarrow> double \<Rightarrow> double" where
  "js_mul NaN b = NaN"
| "js_mul a NaN = NaN"
| "js_mul (Fin a) (Fin b) = fl (a * b)"
| "js_mul (Fin a) PInf = (if a = 0 then NaN else if 0 < a then PInf else NInf)"
| "js_mul (Fin a) NInf = (if a = 0 then NaN else if 0 < a then NInf else PInf)"
| "js_mul PInf (Fin b) = (if b = 0 then NaN else if 0 < b then PInf else NInf)"
| "js_mul NInf (Fin b) = (if b = 0 then NaN else if 0 < b then NInf else PInf)"
| "js_mul PInf PInf = PInf"
| "js_mul NInf NInf = PInf"
| "js_mul PInf NInf = NInf"
| "js_mul NInf PInf = NInf"

text \<open>
  Division. The code divides by the literals 100 and 1000 and by the length of a
  non-empty array only; for a zero divisor, where the result depends on the sign of the
  zero, the model takes the zero to be positive.
\<close>

fun js_div :: "double \<Rightarrow> double \<Rightarrow> double" where
  "js_div NaN b = NaN"
| "js_div a NaN = NaN"
| "js_div (Fin a) (Fin b) =
     (if b = 0 then (if a = 0 then NaN else if 0 < a then PInf else NInf) else fl (a / b))"
| "js_div (Fin a) b = Fin 0"
| "js_div PInf (Fin b) = (if 0 \<le> b then PInf else NInf)"
| "js_div NInf (Fin b) = (if 0 \<le> b then NInf else PInf)"
| "js_div a b = NaN"

definition js_lt :: "double \<Rightarrow> double \<Rightarrow> bool" where
  "js_lt a b \<longleftrightarrow> js_le a b \<and> \<not> js_le b a"

definition js_gt :: "double \<Rightarrow> double \<Rightarrow> bool" where
  "js_gt a b \<longleftrightarrow> js_lt b a"

fun is_NaN :: "double \<Rightarrow> bool" where
  "is_NaN NaN = True"
| "is_NaN a = False"

definition Math_min :: "double \<Rightarrow> double \<Rightarrow> double" where
  "Math_min a b = (if is_NaN a \<or> is_NaN b then NaN else if js_le a b then a else b)"

definition Math_max :: "double \<Rightarrow> double \<Rightarrow> double" where
  "Math_max a b = (if is_NaN a \<or> is_NaN b then NaN else if js_le a b then b else a)"

text \<open>
  \<^verbatim>\<open>Math.round\<close> rounds to the nearest integer, halves upwards, and \<^verbatim>\<open>Math.floor\<close>
  downwards; both results are doubles again.
\<close>

fun Math_round :: "double \<Rightarrow> double" where
  "Math_round (Fin a) = Fin (of_int \<lfloor>a + 1/2\<rfloor>)"
| "Math_round a = a"

fun Math_floor :: "double \<Rightarrow> double" where
  "Math_floor (Fin a) = Fin (of_int \<lfloor>a\<rfloor>)"
| "Math_floor a = a"

text \<open>
  \<^verbatim>\<open>Math.pow\<close>, \<^verbatim>\<open>Math.sqrt\<close> and \<^verbatim>\<open>Math.sin\<close> are implementation-approximated in
  ECMAScript: the model takes them as parameters. \<open>m_square x\<close> is \<^verbatim>\<open>Math.pow(x, 2)\<close>.
  \<open>rounding_math\<close> is the implementation whose square and square root are the correctly
  rounded ones.
\<close>

record mathlib =
  m_square :: "double \<Rightarrow> double"
  m_sqrt :: "double \<Rightarrow> double"
  m_sin :: "double \<Rightarrow> double"

fun sqrt_rounded :: "double \<Rightarrow> double" where
  "sqrt_rounded (Fin a) = (if a < 0 then NaN else fl (sqrt a))"
| "sqrt_rounded PInf = PInf"
| "sqrt_rounded a = NaN"

fun sin_rounded :: "double \<Rightarrow> double" where
  "sin_rounded (Fin a) = fl (sin a)"
| "sin_rounded a = NaN"

definition rounding_math :: mathlib where
  "rounding_math = \<lparr>m_square = (\<lambda>x. js_mul x x), m_sqrt = sqrt_rounded, m_sin = sin_rounded\<rparr>"

text \<open>The simulator's records with double fields, and the engine's counter.\<close>

record dvehicle =
  d_rpm :: double
  d_speed :: double
  d_throttle :: double
  d_load :: double
  d_coolant :: double
  d_battery :: double
  d_fuelEff :: double

record dhist =
  dh_rpm :: "double list"
  dh_speed :: "double list"
  dh_load :: "double list"
  dh_coolant :: "double list"
  dh_throttle :: "double list"
  dh_fuelEff :: "double list"

record dsim =
  d_state :: dvehicle
  d_history :: dhist
  d_target :: dvehicle
  d_isAccelerating :: bool
  d_accelCounter :: nat

definition initial_dstate :: dvehicle where
  "initial_dstate = \<lparr>d_rpm = Fin 1000, d_speed = Fin 0, d_throttle = Fin 0, d_load = Fin 20,
     d_coolant = Fin 90, d_battery = fl 13.8, d_fuelEff = Fin 8.5\<rparr>"

definition MockOBDSimulator_d :: dsim where
  "MockOBDSimulator_d =
     \<lparr>d_state = initial_dstate,
      d_history = \<lparr>dh_rpm = replicate HISTORY_SIZE (Fin 1000),
                   dh_speed = replicate HISTORY_SIZE (Fin 0),
                   dh_load = replicate HISTORY_SIZE (Fin 20),
                   dh_coolant = replicate HISTORY_SIZE (Fin 90),
                   dh_throttle = replicate HISTORY_SIZE (Fin 0),
                   dh_fuelEff = replicate HISTORY_SIZE (Fin 8.5)\<rparr>,
      d_target = initial_dstate,
      d_isAccelerating = False,
      d_accelCounter = 0\<rparr>"

record dengine =
  d_rulKms :: double

definition MLInferenceEngine_d :: dengine where
  "MLInferenceEngine_d = \<lparr>d_rulKms = Fin 15000\<rparr>"

text \<open>\<^verbatim>\<open>calculateVariance\<close> (lines 136-139) in doubles.\<close>

definition reduce_add_d :: "double list \<Rightarrow> js_error + double" where
  "reduce_add_d arr = (case arr of [] \<Rightarrow> Inl TypeError | x # xs \<Rightarrow> Inr (foldl js_add x xs))"

definition calculateVariance_d :: "mathlib \<Rightarrow> double list \<Rightarrow> js_error + double" where
  "calculateVariance_d m arr =
     (case reduce_add_d arr of
        Inl err \<Rightarrow> Inl err
      | Inr sumAll \<Rightarrow>
          (let mean = js_div sumAll (Fin (real (length arr)))
           in Inr (js_div (foldl (\<lambda>a b. js_add a (m_square m (js_sub b mean))) (Fin 0) arr)
                    (Fin (real (length arr))))))"

text \<open>\<^verbatim>\<open>calculateAggression\<close> (lines 140-148) in doubles.\<close>

function aggression_loop_d :: "double list \<Rightarrow> nat \<Rightarrow> double \<Rightarrow> double" where
  "aggression_loop_d arr i sumDelta =
     (if i < length arr
      then aggression_loop_d arr (i + 1)
             (if js_gt (arr ! i) (arr ! (i - 1))
              then js_add sumDelta (js_sub (arr ! i) (arr ! (i - 1)))
              else sumDelta)
      else sumDelta)"
  by pat_completeness auto
termination
  by (relation "measure (\<lambda>(arr, i, sumDelta). length arr - i)") auto

declare aggression_loop_d.simps [simp del]

definition calculateAggression_d :: "double list \<Rightarrow> double" where
  "calculateAggression_d arr = Math_min (Fin 100) (js_mul (aggression_loop_d arr 1 (Fin 0)) (Fin 2))"

text \<open>
  The object \<^verbatim>\<open>runInference\<close> returns, in doubles. \<open>r_rpmVol\<close> is the number that
  \<^verbatim>\<open>toFixed(1)\<close> is applied to; the printing is left out.
\<close>

record dscores =
  r_hygiene :: double
  r_thermal :: double
  r_engine :: double
  r_electrical :: double

record dresult =
  r_scores :: dscores
  r_rul_val :: double
  r_rul_prob :: string
  r_anomaly :: bool
  r_type :: string
  r_conf :: double
  r_throttle :: double
  r_rpmVol :: double
  r_eff :: double
  r_insight :: string

text \<open>Lines 79-87 in doubles; a decimal literal is the double nearest to it.\<close>

definition health_scores_d :: "dvehicle \<Rightarrow> dscores" where
  "health_scores_d data =
     (let thermalHealth =
            (if js_gt (d_coolant data) (Fin 100)
             then js_sub (Fin 100) (js_mul (js_sub (d_coolant data) (Fin 100)) (Fin 5))
             else Fin 100);
          engineHealth0 = (if js_gt (d_rpm data) (Fin 4500) then js_sub (Fin 100) (Fin 5) else Fin 100);
          engineHealth = (if js_gt (d_load data) (Fin 90) then js_sub engineHealth0 (Fin 2)
                          else engineHealth0);
          elecHealth = (if js_lt (d_battery data) (fl 12.8) then js_sub (Fin 100) (Fin 10)
                        else Fin 100);
          hygieneScore =
            Math_round (js_add (js_add (js_mul thermalHealth (fl 0.4)) (js_mul engineHealth (fl 0.4)))
                          (js_mul elecHealth (fl 0.2)))
      in \<lparr>r_hygiene = hygieneScore, r_thermal = thermalHealth, r_engine = engineHealth,
          r_electrical = elecHealth\<rparr>)"

text \<open>Lines 102-118 in doubles.\<close>

definition classify_d :: "double \<Rightarrow> double \<Rightarrow> double \<Rightarrow> double \<Rightarrow> string \<times> double \<times> string" where
  "classify_d throttleAggression spd rpmVol jitter =
     (if js_gt throttleAggression (Fin 60)
      then (''AGGRESSIVE'', Fin 92, ''High throttle aggression detected. Impact on fuel +12%.'')
      else if js_lt throttleAggression (Fin 20) \<and> js_gt spd (Fin 30)
      then (''ECO - OPTIMAL'', Fin 96, ''Smooth acceleration profile. Fuel efficiency maximized.'')
      else if js_gt rpmVol (Fin 8)
      then (''ERRATIC'', Fin 78, ''Unstable RPM detected. Check transmission linkage.'')
      else (''NORMAL'', js_add (Fin 85) (js_mul jitter (Fin 10)), ''Behavior within normal baseline.''))"

text \<open>
  \<^verbatim>\<open>runInference\<close> (lines 75-135) in doubles. \<open>draw\<close> is the number \<^verbatim>\<open>Math.random()\<close>
  returns at line 103. The function returns the result and the engine with its new
  counter; when \<^verbatim>\<open>calculateVariance\<close> throws, the counter is not yet changed.
\<close>

definition runInference_d ::
    "mathlib \<Rightarrow> dengine \<Rightarrow> dsim \<Rightarrow> double \<Rightarrow> js_error + (dresult \<times> dengine)" where
  "runInference_d m eng s draw =
     (let data = d_state s;
          h = d_history s;
          sc = health_scores_d data;
          recentRpm = slice_last 20 (dh_rpm h)
      in case calculateVariance_d m recentRpm of
           Inl err \<Rightarrow> Inl err
         | Inr rpmVariance \<Rightarrow>
             (let isAnomaly = js_gt rpmVariance (Fin 5000);
                  degradationFactor = js_mul (js_div (d_load data) (Fin 100)) (Fin 2);
                  eng1 = eng\<lparr>d_rulKms := js_sub (d_rulKms eng) (js_mul degradationFactor (fl 0.1))\<rparr>;
                  throttleAggression = calculateAggression_d (dh_throttle h);
                  rpmVol = js_div (m_sqrt m rpmVariance) (Fin 100);
                  (driverClass, confidence, ins) =
                     classify_d throttleAggression (d_speed data) rpmVol draw
              in Inr (\<lparr>r_scores = sc,
                       r_rul_val = Math_floor (d_rulKms eng1),
                       r_rul_prob = (if js_gt (d_coolant data) (Fin 102) then ''High'' else ''Low''),
                       r_anomaly = isAnomaly,
                       r_type = driverClass,
                       r_conf = Math_round confidence,
                       r_throttle = Math_round throttleAggression,
                       r_rpmVol = rpmVol,
                       r_eff = Math_round (js_sub (Fin 100) (js_mul throttleAggression (fl 0.6))),
                       r_insight = ins\<rparr>,
                      eng1)))"

text \<open>
  A sequence of inference calls, one for each simulator snapshot and random draw of the
  list. A call that throws leaves the engine as it is.
\<close>

fun inference_calls_d :: "mathlib \<Rightarrow> dengine \<Rightarrow> (dsim \<times> double) list \<Rightarrow> dengine" where
  "inference_calls_d m eng [] = eng"
| "inference_calls_d m eng ((s, draw) # ss) =
     (case runInference_d m eng s draw of
        Inl err \<Rightarrow> inference_calls_d m eng ss
      | Inr (res, eng1) \<Rightarrow> inference_calls_d m eng1 ss)"

text \<open>
  Values the counter can hold: a double or minus infinity. \<open>is_double\<close> says that a real
  is one of the doubles.
\<close>

definition is_double :: "real \<Rightarrow> bool" where
  "is_double x \<longleftrightarrow> fl x = Fin x"

fun counter_value :: "double \<Rightarrow> bool" where
  "counter_value (Fin x) = is_double x"
| "counter_value NInf = True"
| "counter_value a = False"

text \<open>
  The simulator's step (lines 26-56) in doubles. The numbers \<^verbatim>\<open>Math.random()\<close> and
  \<^verbatim>\<open>Date.now()\<close> return are doubles.
\<close>

record denv =
  d_randoms :: "double stream"
  d_clock :: "double stream"

definition Math_random_d :: "denv \<Rightarrow> double \<times> denv" where
  "Math_random_d e = (shd (d_randoms e), e\<lparr>d_randoms := stl (d_randoms e)\<rparr>)"

definition Date_now_d :: "denv \<Rightarrow> double \<times> denv" where
  "Date_now_d e = (shd (d_clock e), e\<lparr>d_clock := stl (d_clock e)\<rparr>)"

definition lerp_d :: "double \<Rightarrow> double \<Rightarrow> double \<Rightarrow> double" where
  "lerp_d start stop amt = js_add (js_mul (js_sub (Fin 1) amt) start) (js_mul amt stop)"

definition push_shift_d :: "double list \<Rightarrow> double \<Rightarrow> double list" where
  "push_shift_d arr v = tl (arr @ [v])"

definition updateHistory_d :: "dsim \<Rightarrow> dsim" where
  "updateHistory_d s =
     (let st = d_state s; h = d_history s
      in s\<lparr>d_history :=
            \<lparr>dh_rpm = push_shift_d (dh_rpm h) (d_rpm st),
             dh_speed = push_shift_d (dh_speed h) (d_speed st),
             dh_load = push_shift_d (dh_load h) (d_load st),
             dh_coolant = push_shift_d (dh_coolant h) (d_coolant st),
             dh_throttle = push_shift_d (dh_throttle h) (d_throttle st),
             dh_fuelEff = push_shift_d (dh_fuelEff h) (d_fuelEff st)\<rparr>\<rparr>)"

definition tick_mode_d :: "dsim \<Rightarrow> denv \<Rightarrow> dsim \<times> denv" where
  "tick_mode_d s e =
     (let s1 = s\<lparr>d_accelCounter := d_accelCounter s + 1\<rparr>
      in if d_accelCounter s1 > 50
         then (let (r, e1) = Math_random_d e
               in if js_gt r (fl 0.95)
                  then (s1\<lparr>d_isAccelerating := \<not> d_isAccelerating s1, d_accelCounter := 0\<rparr>, e1)
                  else (s1, e1))
         else (s1, e))"

definition push_targets_d :: "bool \<Rightarrow> dvehicle \<Rightarrow> dvehicle" where
  "push_targets_d acc t =
     (if acc
      then t\<lparr>d_throttle := Math_min (js_add (d_throttle t) (Fin 2)) (Fin 85),
             d_rpm := Math_min (js_add (d_rpm t) (Fin 60)) (Fin 5500),
             d_speed := Math_min (js_add (d_speed t) (fl 0.8)) (Fin 140),
             d_load := Math_min (js_add (d_load t) (Fin 1.5)) (Fin 95),
             d_fuelEff := Math_min (js_add (d_fuelEff t) (Fin 0.5)) (Fin 25)\<rparr>
      else t\<lparr>d_throttle := Math_max (js_sub (d_throttle t) (Fin 3)) (Fin 0),
             d_rpm := Math_max (js_sub (d_rpm t) (Fin 80)) (Fin 800),
             d_speed := Math_max (js_sub (d_speed t) (fl 0.4)) (Fin 0),
             d_load := Math_max (js_sub (d_load t) (Fin 2)) (Fin 15),
             d_fuelEff := Math_max (js_sub (d_fuelEff t) (fl 0.2)) (Fin 4.5)\<rparr>)"

definition tick_targets_d :: "dsim \<Rightarrow> denv \<Rightarrow> dsim \<times> denv" where
  "tick_targets_d s e =
     (let t1 = push_targets_d (d_isAccelerating s) (d_target s);
          (r, e1) = Math_random_d e;
          t2 = t1\<lparr>d_rpm := js_add (d_rpm t1) (js_mul (js_sub r (Fin 0.5)) (Fin 30))\<rparr>;
          t3 = (if js_gt (d_load (d_state s)) (Fin 70)
                then t2\<lparr>d_coolant := js_add (d_coolant t2) (fl 0.02)\<rparr>
                else t2\<lparr>d_coolant := Math_max (js_sub (d_coolant t2) (fl 0.01)) (Fin 88)\<rparr>)
      in (s\<lparr>d_target := t3\<rparr>, e1))"

definition tick_state_d :: "mathlib \<Rightarrow> dsim \<Rightarrow> denv \<Rightarrow> dsim \<times> denv" where
  "tick_state_d m s e =
     (let st = d_state s; t = d_target s;
          (now, e1) = Date_now_d e
      in (s\<lparr>d_state :=
             st\<lparr>d_rpm := lerp_d (d_rpm st) (d_rpm t) (fl 0.08),
                d_speed := lerp_d (d_speed st) (d_speed t) (fl 0.04),
                d_throttle := lerp_d (d_throttle st) (d_throttle t) (fl 0.1),
                d_load := lerp_d (d_load st) (d_load t) (fl 0.08),
                d_coolant := lerp_d (d_coolant st) (d_coolant t) (fl 0.05),
                d_fuelEff := lerp_d (d_fuelEff st) (d_fuelEff t) (fl 0.05),
                d_battery := js_add (Fin 13.5) (js_mul (m_sin m (js_div now (Fin 1000))) (fl 0.2))\<rparr>\<rparr>,
          e1))"

definition tick_d :: "mathlib \<Rightarrow> dsim \<Rightarrow> denv \<Rightarrow> dsim \<times> denv" where
  "tick_d m s e =
     (let (s1, e1) = tick_mode_d s e;
          (s2, e2) = tick_targets_d s1 e1;
          (s3, e3) = tick_state_d m s2 e2
      in (updateHistory_d s3, e3))"

section \<open>One step of the simulator, field by field\<close>

lemma tick_mode_keeps:
  "state (fst (tick_mode s e)) = state s"
  "target (fst (tick_mode s e)) = target s"
  "history (fst (tick_mode s e)) = history s"
  by (simp_all add: tick_mode_def Math_random_def Let_def split_def)

lemma tick_mode_flag:
  "isAccelerating (fst (tick_mode s e)) =
     (if 50 < accelCounter s + 1 \<and> 0.95 < shd (randoms e) then \<not> isAccelerating s
      else isAccelerating s)"
  by (simp add: tick_mode_def Math_random_def Let_def split_def)

lemma tick_mode_counter:
  "accelCounter (fst (tick_mode s e)) =
     (if 50 < accelCounter s + 1 \<and> 0.95 < shd (randoms e) then 0 else accelCounter s + 1)"
  by (simp add: tick_mode_def Math_random_def Let_def split_def)

lemma tick_mode_env:
  "snd (tick_mode s e) =
     (if 50 < accelCounter s + 1 then e\<lparr>randoms := stl (randoms e)\<rparr> else e)"
  by (simp add: tick_mode_def Math_random_def Let_def split_def)

lemma tick_flag: "isAccelerating (fst (tick s e)) = isAccelerating (fst (tick_mode s e))"
  by (simp add: tick_def tick_targets_def tick_state_def updateHistory_def Let_def split_def)

lemma tick_counter: "accelCounter (fst (tick s e)) = accelCounter (fst (tick_mode s e))"
  by (simp add: tick_def tick_targets_def tick_state_def updateHistory_def Let_def split_def)

lemma tick_target:
  "target (fst (tick s e)) =
     target (fst (tick_targets (fst (tick_mode s e)) (snd (tick_mode s e))))"
  by (simp add: tick_def tick_state_def updateHistory_def Let_def split_def)

lemma tick_env_randoms:
  "randoms (snd (tick s e)) = stl (randoms (snd (tick_mode s e)))"
  by (simp add: tick_def tick_targets_def tick_state_def updateHistory_def Math_random_def
      Date_now_def Let_def split_def)

lemma tick_env_clock: "clock (snd (tick s e)) = stl (clock e)"
  by (simp add: tick_def tick_targets_def tick_state_def updateHistory_def Math_random_def
      Date_now_def tick_mode_env Let_def split_def)

lemma tick_state_lerp:
  "state (fst (tick s e)) =
     (let st = state s; t = target (fst (tick s e))
      in st\<lparr>rpm := lerp (rpm st) (rpm t) 0.08,
            speed := lerp (speed st) (speed t) 0.04,
            throttle := lerp (throttle st) (throttle t) 0.1,
            load := lerp (load st) (load t) 0.08,
            coolant := lerp (coolant st) (coolant t) 0.05,
            fuelEff := lerp (fuelEff st) (fuelEff t) 0.05,
            battery := 13.5 + sin (shd (clock e) / 1000) * 0.2\<rparr>)"
  by (simp add: tick_def tick_targets_def tick_state_def updateHistory_def Math_random_def
      Date_now_def tick_mode_env tick_mode_keeps Let_def split_def)

lemma tick_history:
  "history (fst (tick s e)) =
     (let st = state (fst (tick s e)); h = history s
      in \<lparr>h_rpm = push_shift (h_rpm h) (rpm st),
          h_speed = push_shift (h_speed h) (speed st),
          h_load = push_shift (h_load h) (load st),
          h_coolant = push_shift (h_coolant h) (coolant st),
          h_throttle = push_shift (h_throttle h) (throttle st),
          h_fuelEff = push_shift (h_fuelEff h) (fuelEff st)\<rparr>)"
  by (simp add: tick_def tick_targets_def tick_state_def updateHistory_def Math_random_def
      Date_now_def tick_mode_keeps Let_def split_def)

lemma tick_targets_target:
  "target (fst (tick_targets s e)) =
     (let t1 = push_targets (isAccelerating s) (target s)
      in t1\<lparr>rpm := rpm t1 + (shd (randoms e) - 0.5) * 30,
            coolant := (if 70 < load (state s) then coolant t1 + 0.02
                        else max (coolant t1 - 0.01) 88)\<rparr>)"
  by (simp add: tick_targets_def Math_random_def Let_def split_def)

section \<open>Ranges of the target fields\<close>

lemma unit_draws_head: "unit_draws e \<Longrightarrow> 0 \<le> shd (randoms e) \<and> shd (randoms e) < 1"
  by (simp add: unit_draws_def shd_sset)

lemma unit_draws_tail: "unit_draws e \<Longrightarrow> unit_draws (e\<lparr>randoms := stl (randoms e)\<rparr>)"
  by (auto simp: unit_draws_def dest: stl_sset)

lemma unit_draws_tick_mode: "unit_draws e \<Longrightarrow> unit_draws (snd (tick_mode s e))"
  by (simp add: tick_mode_env unit_draws_tail)

lemma unit_draws_tick: "unit_draws e \<Longrightarrow> unit_draws (snd (tick s e))"
proof -
  assume "unit_draws e"
  then have "unit_draws (snd (tick_mode s e))"
    by (rule unit_draws_tick_mode)
  then have "\<forall>x \<in> sset (stl (randoms (snd (tick_mode s e)))). 0 \<le> x \<and> x < 1"
    by (auto simp: unit_draws_def dest: stl_sset)
  then show ?thesis
    by (simp add: unit_draws_def tick_env_randoms)
qed

lemma ticks_Suc: "ticks (Suc n) s e = tick (fst (ticks n s e)) (snd (ticks n s e))"
  by (simp add: split_def Let_def)

declare ticks.simps(2) [simp del]

lemma unit_draws_ticks: "unit_draws e \<Longrightarrow> unit_draws (snd (ticks n s e))"
  by (induction n) (simp_all add: ticks_Suc unit_draws_tick)

lemma push_targets_range:
  assumes "jittered_target_range t"
  shows "documented_target_range (push_targets acc t)"
  using assms
  by (auto simp: jittered_target_range_def documented_target_range_def push_targets_def
      min_def max_def)

lemma tick_targets_range:
  assumes "jittered_target_range (target s)" and "0 \<le> shd (randoms e)" and "shd (randoms e) < 1"
  shows "jittered_target_range (target (fst (tick_targets s e)))"
proof -
  have "documented_target_range (push_targets (isAccelerating s) (target s))"
    using assms(1) by (rule push_targets_range)
  then show ?thesis
    using assms(2,3)
    by (simp add: tick_targets_target Let_def documented_target_range_def jittered_target_range_def)
qed

lemma tick_target_range:
  assumes "jittered_target_range (target s)" and "unit_draws e"
  shows "jittered_target_range (target (fst (tick s e)))"
proof -
  have "unit_draws (snd (tick_mode s e))"
    using assms(2) by (rule unit_draws_tick_mode)
  then have "0 \<le> shd (randoms (snd (tick_mode s e))) \<and> shd (randoms (snd (tick_mode s e))) < 1"
    by (rule unit_draws_head)
  moreover have "jittered_target_range (target (fst (tick_mode s e)))"
    using assms(1) by (simp add: tick_mode_keeps)
  ultimately show ?thesis
    by (simp add: tick_target tick_targets_range)
qed

lemma initial_target_range: "jittered_target_range (target MockOBDSimulator)"
  by (simp add: jittered_target_range_def MockOBDSimulator_def initial_state_def)

text \<open>
  Claim C1, as amended. From the state the constructor builds, after any number of
  steps and for any random draws in \<open>[0, 1)\<close>, the throttle target is in \<open>[0, 85]\<close>, the
  speed target in \<open>[0, 140]\<close>, the load target in \<open>[15, 95]\<close>, the fuel-consumption target
  in \<open>[4.5, 25]\<close>, and the rpm target in \<open>[785, 5515]\<close>: the rpm clamp to \<open>[800, 5500]\<close>
  comes before the jitter, which moves the target by at most 15 either way.
\<close>

theorem target_ranges_with_jitter:
  assumes "unit_draws e"
  shows "jittered_target_range (target (fst (ticks n MockOBDSimulator e)))"
proof (induction n)
  case 0
  show ?case by (simp add: initial_target_range)
next
  case (Suc n)
  have "unit_draws (snd (ticks n MockOBDSimulator e))"
    using assms by (rule unit_draws_ticks)
  with Suc show ?case
    by (simp add: ticks_Suc tick_target_range)
qed

theorem target_ranges_with_jitter_witness:
  "unit_draws \<lparr>randoms = sconst (1/4), clock = sconst 0\<rparr> \<and>
   jittered_target_range
     (target (fst (ticks 1 MockOBDSimulator \<lparr>randoms = sconst (1/4), clock = sconst 0\<rparr>)))"
proof -
  have h: "unit_draws \<lparr>randoms = sconst (1/4), clock = sconst 0\<rparr>"
    by (simp add: unit_draws_def)
  show ?thesis
    using h target_ranges_with_jitter [OF h, of 1] by simp
qed

lemma tick_rpm_target:
  "rpm (target (fst (tick s e))) =
     (if isAccelerating (fst (tick_mode s e)) then min (rpm (target s) + 60) 5500
      else max (rpm (target s) - 80) 800)
     + (shd (randoms (snd (tick_mode s e))) - 0.5) * 30"
  by (simp add: tick_target tick_targets_target tick_mode_keeps push_targets_def Let_def)

text \<open>
  Claim C1 as stated fails: with every random draw equal to 0.25 the jitter is -7.5,
  and after three steps the rpm target is 792.5, below the documented floor of 800.
\<close>

theorem rpm_target_leaves_documented_range:
  "unit_draws \<lparr>randoms = sconst (1/4), clock = sconst 0\<rparr> \<and>
   \<not> documented_target_range
       (target (fst (ticks 3 MockOBDSimulator \<lparr>randoms = sconst (1/4), clock = sconst 0\<rparr>)))"
proof -
  let ?e = "\<lparr>randoms = sconst (1/4), clock = sconst 0\<rparr> :: env"
  let ?s = "\<lambda>n. fst (ticks n MockOBDSimulator ?e)"
  let ?r = "\<lambda>n. randoms (snd (ticks n MockOBDSimulator ?e))"
  have s0: "rpm (target (?s 0)) = 1000 \<and> \<not> isAccelerating (?s 0) \<and> accelCounter (?s 0) = 0
      \<and> ?r 0 = sconst (1/4)"
    by (simp add: MockOBDSimulator_def initial_state_def)
  have step: "rpm (target (?s (Suc n))) = max (rpm (target (?s n)) - 80) 800 - 15 / 2
      \<and> \<not> isAccelerating (?s (Suc n)) \<and> accelCounter (?s (Suc n)) = Suc k
      \<and> ?r (Suc n) = sconst (1/4)"
    if "\<not> isAccelerating (?s n)" and "accelCounter (?s n) = k" and "k < 50"
      and "?r n = sconst (1/4)" for n k
    using that
    by (simp add: ticks_Suc tick_rpm_target tick_flag tick_counter tick_mode_flag
        tick_mode_counter tick_mode_env tick_env_randoms)
  have s1: "rpm (target (?s 1)) = 1825 / 2 \<and> \<not> isAccelerating (?s 1) \<and> accelCounter (?s 1) = 1
      \<and> ?r 1 = sconst (1/4)"
    using step [of 0 0] s0 by simp
  have s2: "rpm (target (?s 2)) = 825 \<and> \<not> isAccelerating (?s 2) \<and> accelCounter (?s 2) = 2
      \<and> ?r 2 = sconst (1/4)"
    using step [of 1 1] s1 by (simp add: numeral_2_eq_2)
  have s3: "rpm (target (?s 3)) = 1585 / 2"
    using step [of 2 2] s2 by (simp add: numeral_3_eq_3 numeral_2_eq_2)
  have "unit_draws ?e"
    by (simp add: unit_draws_def)
  then show ?thesis
    using s3 by (simp add: documented_target_range_def)
qed

section \<open>History length\<close>

lemma push_shift_length: "length (push_shift arr v) = length arr"
  by (simp add: push_shift_def)

lemma push_shift_append: "arr \<noteq> [] \<Longrightarrow> push_shift arr v = tl arr @ [v]"
  by (simp add: push_shift_def)

lemma full_history_tick: "full_history (history s) \<Longrightarrow> full_history (history (fst (tick s e)))"
  by (simp add: full_history_def tick_history Let_def push_shift_length)

lemma full_history_initial: "full_history (history MockOBDSimulator)"
  by (simp add: full_history_def MockOBDSimulator_def)

lemma full_history_ticks: "full_history (history (fst (ticks n MockOBDSimulator e)))"
  by (induction n) (simp_all add: ticks_Suc full_history_initial full_history_tick)

lemma full_history_nonempty:
  assumes "full_history h"
  shows "h_rpm h \<noteq> [] \<and> h_speed h \<noteq> [] \<and> h_load h \<noteq> [] \<and> h_coolant h \<noteq> [] \<and>
    h_throttle h \<noteq> [] \<and> h_fuelEff h \<noteq> []"
proof -
  have "xs \<noteq> []" if "length xs = HISTORY_SIZE" for xs :: "real list"
    using that by (auto simp: HISTORY_SIZE_def)
  with assms show ?thesis
    by (simp add: full_history_def)
qed

text \<open>
  Claim C2. After the constructor and after any number of steps, each of the six
  channels of the history holds exactly 100 samples; a step drops the oldest sample of
  each channel and appends the channel's new state value.
\<close>

theorem history_length_invariant:
  "length (h_rpm (history (fst (ticks n MockOBDSimulator e)))) = 100 \<and>
   length (h_speed (history (fst (ticks n MockOBDSimulator e)))) = 100 \<and>
   length (h_load (history (fst (ticks n MockOBDSimulator e)))) = 100 \<and>
   length (h_coolant (history (fst (ticks n MockOBDSimulator e)))) = 100 \<and>
   length (h_throttle (history (fst (ticks n MockOBDSimulator e)))) = 100 \<and>
   length (h_fuelEff (history (fst (ticks n MockOBDSimulator e)))) = 100 \<and>
   h_rpm (history (fst (ticks (Suc n) MockOBDSimulator e))) =
     tl (h_rpm (history (fst (ticks n MockOBDSimulator e))))
     @ [rpm (state (fst (ticks (Suc n) MockOBDSimulator e)))] \<and>
   h_speed (history (fst (ticks (Suc n) MockOBDSimulator e))) =
     tl (h_speed (history (fst (ticks n MockOBDSimulator e))))
     @ [speed (state (fst (ticks (Suc n) MockOBDSimulator e)))] \<and>
   h_load (history (fst (ticks (Suc n) MockOBDSimulator e))) =
     tl (h_load (history (fst (ticks n MockOBDSimulator e))))
     @ [load (state (fst (ticks (Suc n) MockOBDSimulator e)))] \<and>
   h_coolant (history (fst (ticks (Suc n) MockOBDSimulator e))) =
     tl (h_coolant (history (fst (ticks n MockOBDSimulator e))))
     @ [coolant (state (fst (ticks (Suc n) MockOBDSimulator e)))] \<and>
   h_throttle (history (fst (ticks (Suc n) MockOBDSimulator e))) =
     tl (h_throttle (history (fst (ticks n MockOBDSimulator e))))
     @ [throttle (state (fst (ticks (Suc n) MockOBDSimulator e)))] \<and>
   h_fuelEff (history (fst (ticks (Suc n) MockOBDSimulator e))) =
     tl (h_fuelEff (history (fst (ticks n MockOBDSimulator e))))
     @ [fuelEff (state (fst (ticks (Suc n) MockOBDSimulator e)))]"
proof -
  let ?h = "history (fst (ticks n MockOBDSimulator e))"
  have full: "full_history ?h"
    by (rule full_history_ticks)
  then have len: "length (h_rpm ?h) = 100 \<and> length (h_speed ?h) = 100 \<and>
      length (h_load ?h) = 100 \<and> length (h_coolant ?h) = 100 \<and>
      length (h_throttle ?h) = 100 \<and> length (h_fuelEff ?h) = 100"
    by (simp add: full_history_def HISTORY_SIZE_def)
  have ne: "h_rpm ?h \<noteq> [] \<and> h_speed ?h \<noteq> [] \<and> h_load ?h \<noteq> [] \<and> h_coolant ?h \<noteq> [] \<and>
      h_throttle ?h \<noteq> [] \<and> h_fuelEff ?h \<noteq> []"
    using full by (rule full_history_nonempty)
  have step: "history (fst (ticks (Suc n) MockOBDSimulator e)) =
      \<lparr>h_rpm = tl (h_rpm ?h) @ [rpm (state (fst (ticks (Suc n) MockOBDSimulator e)))],
       h_speed = tl (h_speed ?h) @ [speed (state (fst (ticks (Suc n) MockOBDSimulator e)))],
       h_load = tl (h_load ?h) @ [load (state (fst (ticks (Suc n) MockOBDSimulator e)))],
       h_coolant = tl (h_coolant ?h) @ [coolant (state (fst (ticks (Suc n) MockOBDSimulator e)))],
       h_throttle = tl (h_throttle ?h) @ [throttle (state (fst (ticks (Suc n) MockOBDSimulator e)))],
       h_fuelEff = tl (h_fuelEff ?h) @ [fuelEff (state (fst (ticks (Suc n) MockOBDSimulator e)))]\<rparr>"
    using ne by (simp add: ticks_Suc tick_history Let_def push_shift_append)
  show ?thesis
    using len by (simp add: step)
qed

section \<open>The first step\<close>

text \<open>
  Claim C9. The constructor's state is the documented one and its mode is DECELERATING;
  the first step stays in that mode, sets the throttle target to \<open>max (0 - 3) 0 = 0\<close> and
  moves the throttle state towards it by \<open>lerp\<close> with factor 0.1, which leaves it at 0.
\<close>

theorem first_step_throttle:
  "state MockOBDSimulator =
     \<lparr>rpm = 1000, speed = 0, throttle = 0, load = 20, coolant = 90, battery = 13.8,
      fuelEff = 8.5\<rparr> \<and>
   \<not> isAccelerating MockOBDSimulator \<and>
   \<not> isAccelerating (fst (tick MockOBDSimulator e)) \<and>
   throttle (target (fst (tick MockOBDSimulator e))) = max (0 - 3) 0 \<and>
   throttle (target (fst (tick MockOBDSimulator e))) = 0 \<and>
   throttle (state (fst (tick MockOBDSimulator e))) =
     lerp (throttle (state MockOBDSimulator)) (throttle (target (fst (tick MockOBDSimulator e)))) 0.1 \<and>
   lerp a b c = (1 - c) * a + c * b \<and>
   throttle (state (fst (tick MockOBDSimulator e))) = 0"
  by (simp add: tick_flag tick_mode_flag tick_state_lerp tick_target tick_targets_target
      tick_mode_keeps push_targets_def Let_def lerp_def MockOBDSimulator_def initial_state_def)

section \<open>Mode changes\<close>

lemma ticks_add: "ticks (m + n) s e = ticks n (fst (ticks m s e)) (snd (ticks m s e))"
  by (induction n) (simp_all add: ticks_Suc)

lemma tick_flag_full:
  "isAccelerating (fst (tick s e)) =
     (if 50 < accelCounter s + 1 \<and> 0.95 < shd (randoms e) then \<not> isAccelerating s
      else isAccelerating s)"
  by (simp only: tick_flag tick_mode_flag)

lemma tick_counter_full:
  "accelCounter (fst (tick s e)) =
     (if 50 < accelCounter s + 1 \<and> 0.95 < shd (randoms e) then 0 else accelCounter s + 1)"
  by (simp only: tick_counter tick_mode_counter)

lemma tick_flips_iff:
  "isAccelerating (fst (tick s e)) \<noteq> isAccelerating s \<longleftrightarrow>
     50 < accelCounter s + 1 \<and> 0.95 < shd (randoms e)"
  by (auto simp: tick_flag_full)

lemma tick_flip_resets:
  "isAccelerating (fst (tick s e)) \<noteq> isAccelerating s \<Longrightarrow> accelCounter (fst (tick s e)) = 0"
  by (auto simp: tick_flag_full tick_counter_full split: if_splits)

lemma tick_counter_le: "accelCounter (fst (tick s e)) \<le> accelCounter s + 1"
  by (simp add: tick_counter_full)

lemma ticks_counter_le: "accelCounter (fst (ticks n s e)) \<le> accelCounter s + n"
proof (induction n)
  case 0
  show ?case by simp
next
  case (Suc n)
  have "accelCounter (fst (ticks (Suc n) s e)) \<le> accelCounter (fst (ticks n s e)) + 1"
    unfolding ticks_Suc by (rule tick_counter_le)
  with Suc show ?case by simp
qed

lemma flip_at_counter:
  assumes "flip_at n s e"
  shows "50 \<le> accelCounter (fst (ticks n s e)) \<and> accelCounter (fst (ticks (Suc n) s e)) = 0"
proof -
  let ?s = "fst (ticks n s e)" and ?e = "snd (ticks n s e)"
  have flip: "isAccelerating (fst (tick ?s ?e)) \<noteq> isAccelerating ?s"
    using assms unfolding flip_at_def ticks_Suc .
  then have "50 < accelCounter ?s + 1 \<and> 0.95 < shd (randoms ?e)"
    by (rule tick_flips_iff [THEN iffD1])
  moreover have "accelCounter (fst (tick ?s ?e)) = 0"
    using flip by (rule tick_flip_resets)
  ultimately show ?thesis
    unfolding ticks_Suc by simp
qed

lemma flips_apart:
  assumes "flip_at i s e" and "flip_at j s e" and "i < j"
  shows "i + 50 < j"
proof -
  obtain k where j: "j = Suc i + k"
    using \<open>i < j\<close> less_iff_Suc_add by auto
  let ?s = "fst (ticks (Suc i) s e)" and ?e = "snd (ticks (Suc i) s e)"
  have run: "ticks j s e = ticks k ?s ?e"
    unfolding j by (rule ticks_add)
  have "accelCounter ?s = 0"
    using flip_at_counter [OF assms(1)] by simp
  moreover have "accelCounter (fst (ticks k ?s ?e)) \<le> accelCounter ?s + k"
    by (rule ticks_counter_le)
  moreover have "50 \<le> accelCounter (fst (ticks k ?s ?e))"
    using flip_at_counter [OF assms(2)] unfolding run by simp
  ultimately show ?thesis
    using j by simp
qed

lemma first_flip_late:
  assumes "flip_at i MockOBDSimulator e"
  shows "50 \<le> i"
proof -
  have "50 \<le> accelCounter (fst (ticks i MockOBDSimulator e))"
    using flip_at_counter [OF assms] by simp
  moreover have "accelCounter (fst (ticks i MockOBDSimulator e)) \<le> accelCounter MockOBDSimulator + i"
    by (rule ticks_counter_le)
  ultimately show ?thesis
    by (simp add: MockOBDSimulator_def)
qed

text \<open>
  Claim C7. A step of a run changes the drive mode exactly when the incremented counter
  exceeds 50 and the random draw exceeds 0.95, and the counter is 0 after such a step.
  So between two mode changes of a run there are more than 50 steps, for any draws, and
  the first mode change after the constructor is not before step 51.
\<close>

theorem mode_flip_debounce:
  "(flip_at i s e \<longleftrightarrow>
      50 < accelCounter (fst (ticks i s e)) + 1 \<and> 0.95 < shd (randoms (snd (ticks i s e)))) \<and>
   (flip_at i s e \<longrightarrow> accelCounter (fst (ticks (Suc i) s e)) = 0) \<and>
   (flip_at i s e \<and> flip_at j s e \<and> i < j \<longrightarrow> i + 50 < j) \<and>
   (flip_at i MockOBDSimulator e \<longrightarrow> 50 \<le> i)"
proof -
  have "flip_at i s e \<longleftrightarrow>
      50 < accelCounter (fst (ticks i s e)) + 1 \<and> 0.95 < shd (randoms (snd (ticks i s e)))"
    unfolding flip_at_def ticks_Suc by (rule tick_flips_iff)
  then show ?thesis
    using flip_at_counter [of i s e] flips_apart [of i s e j] first_flip_late [of i e]
    by blast
qed

text \<open>Runs in which every draw is the same number above 0.95.\<close>

lemma tick_randoms_sconst:
  "randoms e = sconst c \<Longrightarrow> randoms (snd (tick s e)) = sconst c"
  by (simp add: tick_env_randoms tick_mode_env)

lemma ticks_randoms_sconst:
  "randoms e = sconst c \<Longrightarrow> randoms (snd (ticks n s e)) = sconst c"
  by (induction n) (simp_all add: ticks_Suc tick_randoms_sconst)

lemma ticks_count_up:
  "accelCounter s + n \<le> 50 \<Longrightarrow>
     accelCounter (fst (ticks n s e)) = accelCounter s + n \<and>
     isAccelerating (fst (ticks n s e)) = isAccelerating s"
  by (induction n)
    (simp_all add: ticks_Suc tick_flag_full tick_counter_full)

lemma flip_after_fifty:
  assumes "randoms e = sconst c" and "0.95 < c" and "accelCounter s = 0"
  shows "flip_at 50 s e"
proof -
  let ?s = "fst (ticks 50 s e)" and ?e = "snd (ticks 50 s e)"
  have "accelCounter ?s = 50"
    using ticks_count_up [of s 50 e] assms(3) by simp
  moreover have "shd (randoms ?e) = c"
    using ticks_randoms_sconst [OF assms(1), of 50 s] by simp
  ultimately have "50 < accelCounter ?s + 1 \<and> 0.95 < shd (randoms ?e)"
    using assms(2) by simp
  then have "isAccelerating (fst (tick ?s ?e)) \<noteq> isAccelerating ?s"
    by (rule tick_flips_iff [THEN iffD2])
  then show ?thesis
    unfolding flip_at_def ticks_Suc .
qed

lemma flip_at_shift:
  "flip_at (m + n) s e = flip_at n (fst (ticks m s e)) (snd (ticks m s e))"
proof -
  have "Suc (m + n) = m + Suc n" by simp
  then show ?thesis
    unfolding flip_at_def by (simp only: ticks_add)
qed

theorem mode_flip_debounce_witness:
  "flip_at 50 MockOBDSimulator \<lparr>randoms = sconst (99 / 100), clock = sconst 0\<rparr> \<and>
   flip_at 101 MockOBDSimulator \<lparr>randoms = sconst (99 / 100), clock = sconst 0\<rparr> \<and>
   (50 :: nat) < 101 \<and> (50 :: nat) + 50 < 101 \<and> (50 :: nat) \<le> 50 \<and>
   accelCounter
     (fst (ticks (Suc 50) MockOBDSimulator \<lparr>randoms = sconst (99 / 100), clock = sconst 0\<rparr>)) = 0"
proof -
  let ?e = "\<lparr>randoms = sconst (99 / 100), clock = sconst 0\<rparr> :: env"
  let ?s = "fst (ticks 51 MockOBDSimulator ?e)" and ?e1 = "snd (ticks 51 MockOBDSimulator ?e)"
  have f50: "flip_at 50 MockOBDSimulator ?e"
    by (rule flip_after_fifty [where c = "99 / 100"]) (simp_all add: MockOBDSimulator_def)
  have "accelCounter ?s = 0"
    using flip_at_counter [OF f50] by simp
  moreover have "randoms ?e1 = sconst (99 / 100)"
    by (rule ticks_randoms_sconst) simp
  ultimately have "flip_at 50 ?s ?e1"
    by (intro flip_after_fifty [where c = "99 / 100"]) simp_all
  then have f101: "flip_at 101 MockOBDSimulator ?e"
    using flip_at_shift [of 51 50 MockOBDSimulator ?e] by simp
  show ?thesis
    using f50 f101
      mode_flip_debounce [where s = MockOBDSimulator and e = ?e and i = 50 and j = 101]
    by simp
qed

section \<open>Variance and anomaly\<close>





lemma slice_last_nonempty: "arr \<noteq> [] \<Longrightarrow> slice_last 20 arr \<noteq> []"
proof -
  assume "arr \<noteq> []"
  then have "0 < length arr"
    by simp
  then have "length arr - 20 < length arr"
    by arith
  then show ?thesis
    by (simp add: slice_last_def)
qed



section \<open>The variance never sees an empty array\<close>


section \<open>Rounding to doubles\<close>

lemma round_even_int [simp]: "round_even (of_int n) = n"
  by (simp add: round_even_def)

lemma round_even_near:
  assumes "\<bar>y - of_int n\<bar> < 1/2"
  shows "round_even y = n"
proof -
  consider "\<lfloor>y\<rfloor> = n" | "\<lfloor>y\<rfloor> = n - 1"
    using assms by (cases "of_int n \<le> y") (auto simp: floor_eq_iff abs_if split: if_splits; linarith)+
  then show ?thesis
  proof cases
    case 1
    then show ?thesis
      using assms by (auto simp: round_even_def Let_def abs_if split: if_splits)
  next
    case 2
    then show ?thesis
      using assms by (auto simp: round_even_def Let_def abs_if split: if_splits)
  qed
qed

lemma round_even_bounds: "of_int (round_even y) - 1/2 \<le> y \<and> y \<le> of_int (round_even y) + 1/2"
  unfolding round_even_def Let_def by (auto; linarith)

lemma round_even_mono:
  assumes "x \<le> y"
  shows "round_even x \<le> round_even y"
proof (cases "\<lfloor>x\<rfloor> = \<lfloor>y\<rfloor>")
  case True
  then show ?thesis
    using assms unfolding round_even_def Let_def by auto
next
  case False
  then have "\<lfloor>x\<rfloor> + 1 \<le> \<lfloor>y\<rfloor>"
    using floor_mono [OF assms] by linarith
  moreover have "round_even x \<le> \<lfloor>x\<rfloor> + 1"
    unfolding round_even_def Let_def by auto
  moreover have "\<lfloor>y\<rfloor> \<le> round_even y"
    unfolding round_even_def Let_def by auto
  ultimately show ?thesis by linarith
qed

lemma round_even_minus: "round_even (- y) = - round_even y"
proof (cases "y \<in> \<int>")
  case True
  then obtain n where "y = of_int n"
    by (auto elim: Ints_cases)
  then have "round_even y = n" and "round_even (- y) = - n"
    using round_even_int [of "- n"] by simp_all
  then show ?thesis by simp
next
  case False
  then have "y \<noteq> of_int \<lfloor>y\<rfloor>"
    by (metis Ints_of_int)
  then have fl: "\<lfloor>- y\<rfloor> = - \<lfloor>y\<rfloor> - 1"
    by (simp add: floor_minus ceiling_altdef)
  show ?thesis
    unfolding round_even_def Let_def fl by (auto; linarith)
qed

lemma powr_powi: "2 powr (of_int k) = (2::real) powi k" "2 powr (of_int k + 1) = (2::real) powi (k + 1)"
  using powr_real_of_int' [of 2 k] powr_real_of_int' [of 2 "k + 1"] by simp_all

lemma floor_log2_eq:
  assumes "2 powi k \<le> a" and "a < 2 powi (k + 1)"
  shows "\<lfloor>log 2 a\<rfloor> = k"
proof -
  have pos: "0 < a"
    using assms(1) zero_less_power_int [of "2 :: real" k] by linarith
  have "2 powr (of_int k) \<le> a \<and> a < 2 powr (of_int k + 1)"
    using assms by (simp add: powr_powi)
  then show ?thesis
    using pos by (simp add: floor_log_eq_powr_iff)
qed

lemma log2_bounds:
  assumes "0 < a"
  shows "2 powi \<lfloor>log 2 a\<rfloor> \<le> a \<and> a < 2 powi (\<lfloor>log 2 a\<rfloor> + 1)"
proof -
  have "2 powr (of_int \<lfloor>log 2 a\<rfloor>) \<le> a \<and> a < 2 powr (of_int \<lfloor>log 2 a\<rfloor> + 1)"
    using floor_log_eq_powr_iff [of a 2 "\<lfloor>log 2 a\<rfloor>"] assms by simp
  then show ?thesis
    by (simp add: powr_powi)
qed

lemma quantum_exp_minus [simp]: "quantum_exp (- x) = quantum_exp x"
  by (simp add: quantum_exp_def)

lemma quantum_exp_ge: "- 1074 \<le> quantum_exp x"
  by (simp add: quantum_exp_def)

lemma quantum_exp_mono:
  assumes "0 < \<bar>x\<bar>" and "\<bar>x\<bar> \<le> \<bar>y\<bar>"
  shows "quantum_exp x \<le> quantum_exp y"
proof -
  have "log 2 \<bar>x\<bar> \<le> log 2 \<bar>y\<bar>"
    using assms by simp
  then have "\<lfloor>log 2 \<bar>x\<bar>\<rfloor> \<le> \<lfloor>log 2 \<bar>y\<bar>\<rfloor>"
    by (rule floor_mono)
  then show ?thesis
    by (simp add: quantum_exp_def)
qed

lemma quantum_exp_upper:
  assumes "x \<noteq> 0"
  shows "\<bar>x\<bar> < 2 powi (quantum_exp x + 53)"
proof -
  have "\<bar>x\<bar> < 2 powi (\<lfloor>log 2 \<bar>x\<bar>\<rfloor> + 1)"
    using log2_bounds [of "\<bar>x\<bar>"] assms by simp
  also have "\<dots> \<le> 2 powi (quantum_exp x + 53)"
    by (intro power_int_increasing) (simp_all add: quantum_exp_def)
  finally show ?thesis .
qed

lemma quantum_exp_lower:
  assumes "x \<noteq> 0" and "- 1074 < quantum_exp x"
  shows "2 powi (quantum_exp x + 52) \<le> \<bar>x\<bar>"
proof -
  have "quantum_exp x + 52 = \<lfloor>log 2 \<bar>x\<bar>\<rfloor>"
    using assms(2) by (simp add: quantum_exp_def max_def split: if_splits)
  then show ?thesis
    using log2_bounds [of "\<bar>x\<bar>"] assms(1) by simp
qed

lemma quantum_exp_eq:
  assumes "2 powi (e + 52) \<le> \<bar>x\<bar>" and "\<bar>x\<bar> < 2 powi (e + 53)" and "- 1074 \<le> e"
  shows "quantum_exp x = e"
proof -
  have "\<lfloor>log 2 \<bar>x\<bar>\<rfloor> = e + 52"
    using assms(1,2) by (intro floor_log2_eq) (simp_all add: add.commute add.left_commute)
  then show ?thesis
    using assms(3) by (simp add: quantum_exp_def)
qed

lemma quantum_exp_subnormal:
  assumes "x \<noteq> 0" and "\<bar>x\<bar> < 2 powi (- 1022)"
  shows "quantum_exp x = - 1074"
proof -
  have "\<lfloor>log 2 \<bar>x\<bar>\<rfloor> < - 1022"
  proof (rule ccontr)
    assume "\<not> \<lfloor>log 2 \<bar>x\<bar>\<rfloor> < - 1022"
    then have "(2::real) powi (- 1022) \<le> 2 powi \<lfloor>log 2 \<bar>x\<bar>\<rfloor>"
      by (intro power_int_increasing) simp_all
    then show False
      using log2_bounds [of "\<bar>x\<bar>"] assms by simp
  qed
  then show ?thesis
    by (simp add: quantum_exp_def)
qed

lemma quantise_minus: "quantise (- x) = - quantise x"
  by (simp add: quantise_def round_even_minus)

lemma quantise_nonneg:
  assumes "0 \<le> x"
  shows "0 \<le> quantise x"
proof -
  have "0 \<le> x / 2 powi quantum_exp x"
    using assms by simp
  then have "round_even 0 \<le> round_even (x / 2 powi quantum_exp x)"
    by (rule round_even_mono)
  then have "0 \<le> round_even (x / 2 powi quantum_exp x)"
    using round_even_int [of 0] by simp
  then show ?thesis
    by (simp add: quantise_def)
qed

lemma quantise_upper:
  assumes "0 < x"
  shows "quantise x \<le> 2 powi (quantum_exp x + 53)"
proof -
  let ?q = "2 powi quantum_exp x :: real"
  have "x < 2 powi (quantum_exp x + 53)"
    using quantum_exp_upper [of x] assms by simp
  then have "x / ?q \<le> 2 ^ 53"
    by (simp add: power_int_add field_simps)
  then have "round_even (x / ?q) \<le> round_even (of_int (2 ^ 53))"
    by (intro round_even_mono) simp
  then have "of_int (round_even (x / ?q)) \<le> (2 ^ 53 :: real)"
    unfolding round_even_int by (metis of_int_le_iff of_int_numeral of_int_power)
  then have "of_int (round_even (x / ?q)) * ?q \<le> 2 ^ 53 * ?q"
    by (intro mult_right_mono) simp_all
  then show ?thesis
    by (simp add: quantise_def power_int_add mult.commute)
qed

lemma quantise_lower:
  assumes "0 < x" and "- 1074 < quantum_exp x"
  shows "2 powi (quantum_exp x + 52) \<le> quantise x"
proof -
  let ?q = "2 powi quantum_exp x :: real"
  have "2 powi (quantum_exp x + 52) \<le> x"
    using quantum_exp_lower [of x] assms by simp
  then have "2 ^ 52 \<le> x / ?q"
    by (simp add: power_int_add field_simps)
  then have "round_even (of_int (2 ^ 52)) \<le> round_even (x / ?q)"
    by (intro round_even_mono) simp
  then have "(2 ^ 52 :: real) \<le> of_int (round_even (x / ?q))"
    unfolding round_even_int by (metis of_int_le_iff of_int_numeral of_int_power)
  then have "2 ^ 52 * ?q \<le> of_int (round_even (x / ?q)) * ?q"
    by (intro mult_right_mono) simp_all
  then show ?thesis
    by (simp add: quantise_def power_int_add mult.commute)
qed

lemma quantise_mono_pos:
  assumes "0 < x" and "x \<le> y"
  shows "quantise x \<le> quantise y"
proof -
  have le: "quantum_exp x \<le> quantum_exp y"
    using assms by (intro quantum_exp_mono) simp_all
  show ?thesis
  proof (cases "quantum_exp x = quantum_exp y")
    case True
    have "x / 2 powi quantum_exp y \<le> y / 2 powi quantum_exp y"
      using assms(2) by (simp add: divide_right_mono)
    then have "round_even (x / 2 powi quantum_exp y) \<le> round_even (y / 2 powi quantum_exp y)"
      by (rule round_even_mono)
    then show ?thesis
      by (simp add: quantise_def True mult_right_mono)
  next
    case False
    then have lt: "quantum_exp x + 1 \<le> quantum_exp y"
      using le by simp
    have "quantise x \<le> 2 powi (quantum_exp x + 53)"
      using assms(1) by (rule quantise_upper)
    also have "\<dots> \<le> 2 powi (quantum_exp y + 52)"
      using lt by (intro power_int_increasing) simp_all
    also have "\<dots> \<le> quantise y"
      using assms lt quantum_exp_ge [of x] by (intro quantise_lower) simp_all
    finally show ?thesis .
  qed
qed

lemma quantise_mono:
  assumes "x \<le> y"
  shows "quantise x \<le> quantise y"
proof -
  consider "0 < x" | "x \<le> 0" "0 \<le> y" | "y < 0"
    using assms by linarith
  then show ?thesis
  proof cases
    case 1
    then show ?thesis
      using assms by (rule quantise_mono_pos)
  next
    case 2
    have "0 \<le> quantise (- x)"
      using 2(1) by (intro quantise_nonneg) simp
    then have "quantise x \<le> 0"
      by (simp add: quantise_minus)
    also have "0 \<le> quantise y"
      using 2(2) by (rule quantise_nonneg)
    finally show ?thesis .
  next
    case 3
    have "quantise (- y) \<le> quantise (- x)"
      using 3 assms by (intro quantise_mono_pos) simp_all
    then show ?thesis
      by (simp add: quantise_minus)
  qed
qed

lemma round_even_zero [simp]: "round_even 0 = 0"
  using round_even_int [of 0] by simp

lemma quantise_zero [simp]: "quantise 0 = 0"
  by (simp add: quantise_def)

lemma clip_mono: "a \<le> b \<Longrightarrow> js_le (clip a) (clip b)"
proof -
  assume ab: "a \<le> b"
  have "0 < (2::real) powi 1024"
    by simp
  then show ?thesis
    using ab unfolding clip_def by (auto; linarith)
qed

lemma fl_clip: "fl x = clip (quantise x)"
proof (cases "x = 0")
  case True
  have "0 < (2::real) powi 1024"
    by simp
  then show ?thesis
    using True unfolding fl_def clip_def by simp
next
  case False
  then show ?thesis by (simp add: fl_def)
qed

lemma fl_mono: "x \<le> y \<Longrightarrow> js_le (fl x) (fl y)"
  unfolding fl_clip by (intro clip_mono quantise_mono)

text \<open>Certificates: a real within half a quantum of a value of its binade rounds to it.\<close>

lemma round_even_scaled:
  assumes "0 < q" and "\<bar>x - of_int m * q\<bar> < q / 2"
  shows "round_even (x / q) = m"
proof -
  have "x / q - of_int m = (x - of_int m * q) / q"
    using assms(1) by (simp add: diff_divide_distrib)
  then have "\<bar>x / q - of_int m\<bar> = \<bar>x - of_int m * q\<bar> / q"
    using assms(1) by (simp add: abs_divide)
  also have "\<dots> < 1 / 2"
    using assms by (simp add: field_simps)
  finally show ?thesis
    by (rule round_even_near)
qed

lemma quantise_near:
  assumes "2 powi (e + 52) \<le> \<bar>x\<bar>" and "\<bar>x\<bar> < 2 powi (e + 53)" and "- 1074 \<le> e"
    and "\<bar>x - of_int m * 2 powi e\<bar> < 2 powi e / 2"
  shows "quantise x = of_int m * 2 powi e"
proof -
  have q: "quantum_exp x = e"
    using assms(1-3) by (rule quantum_exp_eq)
  have "round_even (x / 2 powi e) = m"
    using assms(4) by (intro round_even_scaled) simp_all
  then show ?thesis
    by (simp add: quantise_def q)
qed

lemma quantise_near_subnormal:
  assumes "x \<noteq> 0" and "\<bar>x\<bar> < 2 powi (- 1022)"
    and "\<bar>x - of_int m * 2 powi (- 1074)\<bar> < 2 powi (- 1074) / 2"
  shows "quantise x = of_int m * 2 powi (- 1074)"
proof -
  define q :: real where "q = 2 powi (- 1074)"
  have q0: "0 < q"
    unfolding q_def by (rule zero_less_power_int) simp
  have qe: "quantum_exp x = - 1074"
    using assms(1,2) by (rule quantum_exp_subnormal)
  have "round_even (x / q) = m"
    using q0 assms(3) unfolding q_def [symmetric] by (rule round_even_scaled)
  then show ?thesis
    unfolding quantise_def qe q_def [symmetric] by simp
qed

lemma quantise_grid:
  assumes "x = of_int m * 2 powi e" and "quantum_exp x \<le> e"
  shows "quantise x = x"
proof -
  define d where "d = nat (e - quantum_exp x)"
  define q :: real where "q = 2 powi quantum_exp x"
  have q0: "q \<noteq> 0"
    by (simp add: q_def)
  have "e = quantum_exp x + int d"
    using assms(2) by (simp add: d_def)
  then have "(2::real) powi e = 2 powi (quantum_exp x + int d)"
    by simp
  also have "\<dots> = q * 2 ^ d"
    by (simp add: power_int_add q_def)
  finally have x: "x = of_int (m * 2 ^ d) * q"
    using assms(1) by simp
  then have "x / q = of_int (m * 2 ^ d)"
    using q0 by simp
  then have "round_even (x / q) = m * 2 ^ d"
    by (simp only: round_even_int)
  then have "quantise x = of_int (m * 2 ^ d) * q"
    unfolding quantise_def q_def by simp
  then show ?thesis
    using x by simp
qed

lemma quantise_exact:
  assumes "\<bar>m\<bar> < 2 ^ 53" and "- 1074 \<le> e"
  shows "quantise (of_int m * 2 powi e) = of_int m * 2 powi e"
proof (cases "m = 0")
  case True
  then show ?thesis by simp
next
  case False
  let ?x = "of_int m * 2 powi e :: real"
  have x0: "?x \<noteq> 0"
    using False by simp
  have "quantum_exp ?x \<le> e"
  proof (rule ccontr)
    assume "\<not> quantum_exp ?x \<le> e"
    then have gt: "e + 1 \<le> quantum_exp ?x"
      by simp
    then have "- 1074 < quantum_exp ?x"
      using assms(2) by simp
    then have "2 powi (quantum_exp ?x + 52) \<le> \<bar>?x\<bar>"
      using x0 by (intro quantum_exp_lower)
    moreover have "(2::real) powi (e + 53) \<le> 2 powi (quantum_exp ?x + 52)"
      using gt by (intro power_int_increasing) simp_all
    moreover have "\<bar>?x\<bar> < 2 powi (e + 53)"
    proof -
      have "\<bar>of_int m :: real\<bar> < 2 ^ 53"
        using assms(1) by (metis of_int_abs of_int_less_iff of_int_numeral of_int_power)
      then have "\<bar>of_int m :: real\<bar> * 2 powi e < 2 ^ 53 * 2 powi e"
        by (intro mult_strict_right_mono) simp_all
      then show ?thesis
        by (simp add: abs_mult power_int_add mult.commute)
    qed
    ultimately show False by linarith
  qed
  then show ?thesis
    by (intro quantise_grid [where m = m and e = e]) simp_all
qed

lemma clip_Fin: "\<bar>y\<bar> < 2 powi 1024 \<Longrightarrow> clip y = Fin y"
  by (auto simp: clip_def abs_if split: if_splits)

lemma fl_near:
  assumes "2 powi (e + 52) \<le> \<bar>x\<bar>" and "\<bar>x\<bar> < 2 powi (e + 53)" and "- 1074 \<le> e"
    and "\<bar>x - of_int m * 2 powi e\<bar> < 2 powi e / 2"
    and "\<bar>of_int m * 2 powi e :: real\<bar> < 2 powi 1024"
  shows "fl x = Fin (of_int m * 2 powi e)"
  unfolding fl_clip quantise_near [OF assms(1-4)] using assms(5) by (rule clip_Fin)

lemma fl_exact:
  assumes "\<bar>m\<bar> < 2 ^ 53" and "- 1074 \<le> e" and "e \<le> 971"
  shows "fl (of_int m * 2 powi e) = Fin (of_int m * 2 powi e)"
proof -
  have "\<bar>of_int m :: real\<bar> < 2 ^ 53"
    using assms(1) by (metis of_int_abs of_int_less_iff of_int_numeral of_int_power)
  then have "\<bar>of_int m :: real\<bar> * 2 powi e < 2 ^ 53 * 2 powi e"
    by (intro mult_strict_right_mono) simp_all
  also have "\<dots> = 2 powi (e + 53)"
    by (simp add: power_int_add mult.commute)
  also have "\<dots> \<le> 2 powi 1024"
    using assms(3) by (intro power_int_increasing) simp_all
  finally have "\<bar>of_int m * 2 powi e :: real\<bar> < 2 powi 1024"
    by (simp add: abs_mult)
  then show ?thesis
    unfolding fl_clip quantise_exact [OF assms(1,2)] by (rule clip_Fin)
qed

lemma fl_int:
  assumes "\<bar>n\<bar> < 2 ^ 53"
  shows "fl (of_int n) = Fin (of_int n)"
  using fl_exact [OF assms, of 0] by simp

text \<open>A real half-way between two values of its binade rounds to the even one.\<close>

lemma round_even_tie:
  assumes "even n" and "\<bar>y - of_int n\<bar> = 1/2"
  shows "round_even y = n"
proof (cases "of_int n \<le> y")
  case True
  then have y: "y = of_int n + 1/2"
    using assms(2) by simp
  then have "\<lfloor>y\<rfloor> = n"
    by (simp add: floor_eq_iff)
  then show ?thesis
    using assms(1) y by (simp add: round_even_def Let_def)
next
  case False
  then have y: "y = of_int n - 1/2"
    using assms(2) by simp
  then have "\<lfloor>y\<rfloor> = n - 1"
    by (simp add: floor_eq_iff)
  then show ?thesis
    using assms(1) y by (simp add: round_even_def Let_def)
qed

lemma fl_tie:
  assumes "2 powi (e + 52) \<le> \<bar>x\<bar>" and "\<bar>x\<bar> < 2 powi (e + 53)" and "- 1074 \<le> e"
    and "\<bar>x - of_int m * 2 powi e\<bar> = 2 powi e / 2" and "even m"
    and "\<bar>of_int m * 2 powi e :: real\<bar> < 2 powi 1024"
  shows "fl x = Fin (of_int m * 2 powi e)"
proof -
  have q: "quantum_exp x = e"
    using assms(1-3) by (rule quantum_exp_eq)
  have "x / 2 powi e - of_int m = (x - of_int m * 2 powi e) / 2 powi e"
    by (simp add: diff_divide_distrib)
  then have "\<bar>x / 2 powi e - of_int m\<bar> = \<bar>x - of_int m * 2 powi e\<bar> / 2 powi e"
    by (simp add: abs_divide)
  also have "\<dots> = 1 / 2"
    using assms(4) by simp
  finally have "round_even (x / 2 powi e) = m"
    using assms(5) by (intro round_even_tie)
  then have "quantise x = of_int m * 2 powi e"
    by (simp add: quantise_def q)
  then show ?thesis
    unfolding fl_clip using assms(6) by (simp add: clip_Fin)
qed

lemma fl_zero [simp]: "fl 0 = Fin 0"
  by (simp add: fl_def)

lemma round_even_range:
  assumes "\<bar>y\<bar> \<le> of_int n"
  shows "\<bar>round_even y\<bar> \<le> n"
proof -
  have "round_even y \<le> round_even (of_int n)"
    using assms by (intro round_even_mono) linarith
  moreover have "round_even (of_int (- n)) \<le> round_even y"
  proof (rule round_even_mono)
    have "(of_int (- n) :: real) = - of_int n"
      by simp
    then show "of_int (- n) \<le> y"
      using assms by linarith
  qed
  ultimately show ?thesis
    unfolding round_even_int by linarith
qed

lemma quantise_idem: "quantise (quantise x) = quantise x"
proof (cases "x = 0")
  case True
  then show ?thesis by simp
next
  case False
  define e where "e = quantum_exp x"
  define n where "n = round_even (x / 2 powi e)"
  have y: "quantise x = of_int n * 2 powi e"
    by (simp add: quantise_def n_def e_def)
  have e: "- 1074 \<le> e"
    unfolding e_def by (rule quantum_exp_ge)
  have "\<bar>x\<bar> < 2 powi (e + 53)"
    unfolding e_def using False by (rule quantum_exp_upper)
  then have "\<bar>x\<bar> / 2 powi e < 2 ^ 53"
    by (simp add: power_int_add field_simps)
  then have "\<bar>x / 2 powi e\<bar> \<le> of_int (2 ^ 53)"
    by simp
  then have n: "\<bar>n\<bar> \<le> 2 ^ 53"
    unfolding n_def by (rule round_even_range)
  show ?thesis
  proof (cases "\<bar>n\<bar> < 2 ^ 53")
    case True
    then show ?thesis
      unfolding y using e by (rule quantise_exact)
  next
    case False
    then have "n = 2 ^ 53 \<or> n = - (2 ^ 53)"
      using n by linarith
    then have "of_int n * 2 powi e = (of_int (n div 2) :: real) * 2 powi (e + 1)" and "\<bar>n div 2\<bar> < 2 ^ 53"
      by (auto simp: power_int_add)
    then show ?thesis
      unfolding y using e quantise_exact [of "n div 2" "e + 1"] by simp
  qed
qed

lemma fl_is_double:
  assumes "fl x = Fin y"
  shows "is_double y"
proof -
  have c: "clip (quantise x) = Fin y"
    using assms by (simp add: fl_clip)
  then have y: "y = quantise x"
    by (auto simp: clip_def split: if_splits)
  then have "quantise y = y"
    by (simp add: quantise_idem)
  then show ?thesis
    using c y by (simp add: is_double_def fl_clip)
qed

lemma js_le_refl: "\<not> is_NaN a \<Longrightarrow> js_le a a"
  by (cases a) simp_all

lemma js_le_trans: "js_le a b \<Longrightarrow> js_le b c \<Longrightarrow> js_le a c"
  by (cases a; cases b; cases c) simp_all

lemma fl_nonneg: "0 \<le> x \<Longrightarrow> js_le (Fin 0) (fl x)"
  using fl_mono [of 0 x] by simp

lemma div_nonneg:
  assumes "js_le (Fin 0) a" and "0 < c"
  shows "js_le (Fin 0) (js_div a (Fin c))"
  using assms by (cases a) (simp_all add: fl_nonneg)

lemma mul_nonneg:
  assumes "js_le (Fin 0) a" and "0 < c"
  shows "js_le (Fin 0) (js_mul a (Fin c))"
  using assms by (cases a) (simp_all add: fl_nonneg)

lemma sub_nonneg_le:
  assumes "counter_value r" and "js_le (Fin 0) d"
  shows "js_le (js_sub r d) r \<and> counter_value (js_sub r d)"
proof (cases r)
  case (Fin x)
  then have x: "fl x = Fin x"
    using assms(1) by (simp add: is_double_def)
  show ?thesis
  proof (cases d)
    case (Fin y)
    then have "0 \<le> y"
      using assms(2) by simp
    then have le: "js_le (fl (x - y)) (Fin x)"
      using fl_mono [of "x - y" x] x by simp
    then have "counter_value (fl (x - y))"
      by (cases "fl (x - y)") (simp_all add: fl_is_double)
    with le show ?thesis
      using \<open>r = Fin x\<close> \<open>d = Fin y\<close> by (simp add: js_sub_def)
  qed (use assms(2) \<open>r = Fin x\<close> in \<open>simp_all add: js_sub_def\<close>)
next
  case NInf
  then show ?thesis
    using assms(2) by (cases d) (simp_all add: js_sub_def)
qed (use assms(1) in simp_all)

lemma Math_floor_mono: "js_le a b \<Longrightarrow> js_le (Math_floor a) (Math_floor b)"
  by (cases a; cases b) (simp_all add: floor_mono)

lemma fl_tenth: "fl (1/10) = Fin (7205759403792794 / 2 ^ 56)"
proof -
  have "fl (1/10) = Fin (of_int 7205759403792794 * 2 powi (- 56))"
    by (rule fl_near) simp_all
  then show ?thesis by simp
qed

section \<open>Remaining useful life, in doubles\<close>

lemma calculateVariance_d_nonempty:
  assumes "arr \<noteq> []"
  shows "\<exists>v. calculateVariance_d m arr = Inr v"
proof -
  obtain x xs where "arr = x # xs"
    using assms by (cases arr) auto
  then show ?thesis
    by (simp add: calculateVariance_d_def reduce_add_d_def Let_def)
qed

lemma calculateVariance_d_empty: "calculateVariance_d m [] = Inl TypeError"
  by (simp add: calculateVariance_d_def reduce_add_d_def)

text \<open>What \<^verbatim>\<open>runInference\<close> returns, in doubles, when the variance is computed.\<close>

lemma runInference_d_result:
  assumes "calculateVariance_d m (slice_last 20 (dh_rpm (d_history s))) = Inr v"
  shows "\<exists>res. runInference_d m eng s draw =
      Inr (res, eng\<lparr>d_rulKms := js_sub (d_rulKms eng)
                 (js_mul (js_mul (js_div (d_load (d_state s)) (Fin 100)) (Fin 2)) (fl 0.1))\<rparr>) \<and>
    r_scores res = health_scores_d (d_state s) \<and>
    r_anomaly res = js_gt v (Fin 5000) \<and>
    r_rul_val res = Math_floor (js_sub (d_rulKms eng)
                 (js_mul (js_mul (js_div (d_load (d_state s)) (Fin 100)) (Fin 2)) (fl 0.1))) \<and>
    r_type res =
      fst (classify_d (calculateAggression_d (dh_throttle (d_history s))) (d_speed (d_state s))
             (js_div (m_sqrt m v) (Fin 100)) draw) \<and>
    r_conf res =
      Math_round (fst (snd (classify_d (calculateAggression_d (dh_throttle (d_history s)))
             (d_speed (d_state s)) (js_div (m_sqrt m v) (Fin 100)) draw)))"
  using assms by (simp add: runInference_d_def Let_def split_def)

lemma runInference_d_returns:
  assumes "dh_rpm (d_history s) \<noteq> []"
  shows "\<exists>v. calculateVariance_d m (slice_last 20 (dh_rpm (d_history s))) = Inr v"
  using assms by (intro calculateVariance_d_nonempty slice_last_nonempty)

lemma runInference_d_counter:
  assumes "runInference_d m eng s draw = Inr (res, eng1)"
  shows "d_rulKms eng1 = js_sub (d_rulKms eng)
      (js_mul (js_mul (js_div (d_load (d_state s)) (Fin 100)) (Fin 2)) (fl 0.1))"
  using assms
  by (auto simp: runInference_d_def Let_def split_def split: sum.splits)

lemma decrement_nonneg:
  assumes "js_le (Fin 0) l"
  shows "js_le (Fin 0) (js_mul (js_mul (js_div l (Fin 100)) (Fin 2)) (fl 0.1))"
proof -
  have "js_le (Fin 0) (js_mul (js_div l (Fin 100)) (Fin 2))"
    using assms by (intro mul_nonneg div_nonneg) simp_all
  then show ?thesis
    unfolding fl_tenth [simplified] by (rule mul_nonneg) simp
qed

lemma inference_calls_d_counter:
  assumes "counter_value (d_rulKms eng)"
    and "\<forall>p \<in> set ss. js_le (Fin 0) (d_load (d_state (fst p)))"
  shows "js_le (d_rulKms (inference_calls_d m eng ss)) (d_rulKms eng) \<and>
    counter_value (d_rulKms (inference_calls_d m eng ss))"
  using assms
proof (induction ss arbitrary: eng)
  case Nil
  then show ?case
    by (cases "d_rulKms eng") (simp_all add: js_le_refl)
next
  case (Cons p ss)
  obtain s draw where p: "p = (s, draw)"
    by (cases p) auto
  show ?case
  proof (cases "runInference_d m eng s draw")
    case (Inl err)
    then show ?thesis
      using Cons.IH [of eng] Cons.prems by (simp add: p)
  next
    case (Inr r)
    obtain res eng1 where r: "r = (res, eng1)"
      by (cases r) auto
    let ?d = "js_mul (js_mul (js_div (d_load (d_state s)) (Fin 100)) (Fin 2)) (fl 0.1)"
    have k: "d_rulKms eng1 = js_sub (d_rulKms eng) ?d"
      using Inr r by (intro runInference_d_counter) simp
    have "js_le (Fin 0) ?d"
      using Cons.prems(2) by (intro decrement_nonneg) (simp add: p)
    then have step: "js_le (d_rulKms eng1) (d_rulKms eng) \<and> counter_value (d_rulKms eng1)"
      unfolding k using Cons.prems(1) by (intro sub_nonneg_le)
    then have "js_le (d_rulKms (inference_calls_d m eng1 ss)) (d_rulKms eng1) \<and>
        counter_value (d_rulKms (inference_calls_d m eng1 ss))"
      using Cons.IH [of eng1] Cons.prems(2) by simp
    then show ?thesis
      using step Inr r by (auto simp: p intro: js_le_trans)
  qed
qed

lemma inference_calls_d_append:
  "inference_calls_d m eng (ss @ ss') = inference_calls_d m (inference_calls_d m eng ss) ss'"
  by (induction ss arbitrary: eng) (auto split: sum.splits)

text \<open>
  Claim C6, as amended. The counter starts at 15000. A call of \<^verbatim>\<open>runInference\<close> that
  returns replaces it by the double difference of the counter and the double product
  \<open>((load / 100) * 2) * 0.1\<close>, each operation rounded, and reports its floor. When the
  load is non-negative, neither the counter nor the reported value goes up, and over
  any sequence of calls with non-negative load the counter after more calls is at most
  the counter before them.
\<close>

theorem rul_counter_in_doubles:
  "d_rulKms MLInferenceEngine_d = Fin 15000 \<and>
   (dh_rpm (d_history s) \<noteq> [] \<longrightarrow>
      (\<exists>res eng'. runInference_d m eng s draw = Inr (res, eng') \<and>
         d_rulKms eng' =
           js_sub (d_rulKms eng)
             (js_mul (js_mul (js_div (d_load (d_state s)) (Fin 100)) (Fin 2)) (fl 0.1)) \<and>
         r_rul_val res = Math_floor (d_rulKms eng') \<and>
         (counter_value (d_rulKms eng) \<and> js_le (Fin 0) (d_load (d_state s)) \<longrightarrow>
            js_le (d_rulKms eng') (d_rulKms eng) \<and>
            js_le (r_rul_val res) (Math_floor (d_rulKms eng)) \<and>
            counter_value (d_rulKms eng')))) \<and>
   (counter_value (d_rulKms eng) \<and>
    (\<forall>p \<in> set (earlier @ later). js_le (Fin 0) (d_load (d_state (fst p)))) \<longrightarrow>
      js_le (d_rulKms (inference_calls_d m eng (earlier @ later)))
        (d_rulKms (inference_calls_d m eng earlier)))"
proof -
  let ?d = "js_mul (js_mul (js_div (d_load (d_state s)) (Fin 100)) (Fin 2)) (fl 0.1)"
  let ?eng' = "eng\<lparr>d_rulKms := js_sub (d_rulKms eng) ?d\<rparr>"
  have one: "\<exists>res eng'. runInference_d m eng s draw = Inr (res, eng') \<and>
      d_rulKms eng' = js_sub (d_rulKms eng) ?d \<and>
      r_rul_val res = Math_floor (d_rulKms eng') \<and>
      (counter_value (d_rulKms eng) \<and> js_le (Fin 0) (d_load (d_state s)) \<longrightarrow>
         js_le (d_rulKms eng') (d_rulKms eng) \<and>
         js_le (r_rul_val res) (Math_floor (d_rulKms eng)) \<and>
         counter_value (d_rulKms eng'))"
    if ne: "dh_rpm (d_history s) \<noteq> []"
  proof -
    obtain v where v: "calculateVariance_d m (slice_last 20 (dh_rpm (d_history s))) = Inr v"
      using runInference_d_returns [OF ne] by blast
    obtain res where res: "runInference_d m eng s draw = Inr (res, ?eng')"
      and val: "r_rul_val res = Math_floor (js_sub (d_rulKms eng) ?d)"
      using runInference_d_result [OF v] by blast
    have k: "d_rulKms ?eng' = js_sub (d_rulKms eng) ?d"
      by simp
    have "js_le (js_sub (d_rulKms eng) ?d) (d_rulKms eng) \<and>
        js_le (Math_floor (js_sub (d_rulKms eng) ?d)) (Math_floor (d_rulKms eng)) \<and>
        counter_value (js_sub (d_rulKms eng) ?d)"
      if "counter_value (d_rulKms eng)" and "js_le (Fin 0) (d_load (d_state s))"
      using sub_nonneg_le [OF that(1) decrement_nonneg [OF that(2)]]
      by (simp add: Math_floor_mono)
    with res val k show ?thesis
      by (intro exI [of _ res] exI [of _ ?eng']) simp
  qed
  have "js_le (d_rulKms (inference_calls_d m eng (earlier @ later)))
      (d_rulKms (inference_calls_d m eng earlier))"
    if c: "counter_value (d_rulKms eng)"
      and l: "\<forall>p \<in> set (earlier @ later). js_le (Fin 0) (d_load (d_state (fst p)))"
  proof -
    have "counter_value (d_rulKms (inference_calls_d m eng earlier))"
      using inference_calls_d_counter [OF c, of earlier m] l by simp
    then show ?thesis
      unfolding inference_calls_d_append
      using inference_calls_d_counter [of "inference_calls_d m eng earlier" later m] l by simp
  qed
  with one show ?thesis
    by (simp add: MLInferenceEngine_d_def)
qed

text \<open>The run of 25 calls on the constructor's snapshot.\<close>

lemma fl_fifth: "fl (20 / 100) = Fin (7205759403792794 / 2 ^ 55)"
proof -
  have "fl (20 / 100) = Fin (of_int 7205759403792794 * 2 powi (- 55))"
    by (rule fl_near) simp_all
  then show ?thesis by simp
qed

lemma decrement_at_20:
  "js_mul (js_mul (js_div (Fin 20) (Fin 100)) (Fin 2)) (fl 0.1) = Fin (5764607523034236 / 2 ^ 57)"
proof -
  have a: "js_div (Fin 20) (Fin 100) = Fin (7205759403792794 / 2 ^ 55)"
    using fl_fifth by simp
  have "fl (7205759403792794 / 2 ^ 55 * 2) = Fin (of_int 7205759403792794 * 2 powi (- 54))"
    by (rule fl_near) simp_all
  then have b: "js_mul (Fin (7205759403792794 / 2 ^ 55)) (Fin 2) = Fin (7205759403792794 / 2 ^ 54)"
    by simp
  have "fl (7205759403792794 / 2 ^ 54 * (7205759403792794 / 2 ^ 56))
      = Fin (of_int 5764607523034236 * 2 powi (- 57))"
    by (rule fl_near) simp_all
  then have c: "js_mul (Fin (7205759403792794 / 2 ^ 54)) (Fin (7205759403792794 / 2 ^ 56))
      = Fin (5764607523034236 / 2 ^ 57)"
    by simp
  have t: "fl 0.1 = Fin (7205759403792794 / 2 ^ 56)"
    using fl_tenth by simp
  show ?thesis
    unfolding a b t c ..
qed

lemma counter_step:
  assumes "0 \<le> k" and "k < 25"
  shows "js_sub (Fin (of_int (8246337208320000 - 21990232556 * k) / 2 ^ 39))
           (Fin (5764607523034236 / 2 ^ 57))
         = Fin (of_int (8246337208320000 - 21990232556 * (k + 1)) / 2 ^ 39)"
proof -
  define K :: real where "K = of_int k"
  have K: "0 \<le> K" "K \<le> 24"
    using assms by (simp_all add: K_def)
  define x :: real where
    "x = (8246337208320000 - 21990232556 * K) / 2 ^ 39 - 5764607523034236 / 2 ^ 57"
  define y :: real where "y = (8246337208320000 - 21990232556 * (K + 1)) / 2 ^ 39"
  have xy: "x - y = 21990232556 / 2 ^ 39 - 5764607523034236 / 2 ^ 57"
    by (simp add: x_def y_def field_simps)
  have lo: "8192 \<le> x" and hi: "x < 16384"
    using K by (simp_all add: x_def field_simps)
  have m: "y = of_int (8246337208320000 - 21990232556 * (k + 1)) * 2 powi (- 39)"
    by (simp add: y_def K_def field_simps)
  have "fl x = Fin (of_int (8246337208320000 - 21990232556 * (k + 1)) * 2 powi (- 39))"
  proof (rule fl_near)
    show "2 powi (- 39 + 52) \<le> \<bar>x\<bar>" using lo by simp
    show "\<bar>x\<bar> < 2 powi (- 39 + 53)" using lo hi by simp
    show "(- 1074 :: int) \<le> - 39" by simp
    show "\<bar>x - of_int (8246337208320000 - 21990232556 * (k + 1)) * 2 powi (- 39)\<bar>
        < 2 powi (- 39) / 2"
      unfolding m [symmetric] xy by simp
    have "\<bar>y\<bar> < 16384"
      using K by (simp add: y_def field_simps)
    then show "\<bar>of_int (8246337208320000 - 21990232556 * (k + 1)) * 2 powi (- 39) :: real\<bar>
        < 2 powi 1024"
      unfolding m [symmetric] by simp
  qed
  then have "fl x = Fin y"
    by (simp only: m)
  then show ?thesis
    by (simp add: js_sub_def x_def y_def K_def)
qed

lemma constructor_call:
  assumes "d_rulKms eng = Fin (of_int (8246337208320000 - 21990232556 * k) / 2 ^ 39)"
    and "0 \<le> k" and "k < 25"
  shows "\<exists>res. runInference_d m eng MockOBDSimulator_d draw =
      Inr (res, eng\<lparr>d_rulKms := Fin (of_int (8246337208320000 - 21990232556 * (k + 1)) / 2 ^ 39)\<rparr>) \<and>
    r_rul_val res = Math_floor (Fin (of_int (8246337208320000 - 21990232556 * (k + 1)) / 2 ^ 39))"
proof -
  have ne: "dh_rpm (d_history MockOBDSimulator_d) \<noteq> []"
    by (simp add: MockOBDSimulator_d_def HISTORY_SIZE_def)
  obtain v where v:
      "calculateVariance_d m (slice_last 20 (dh_rpm (d_history MockOBDSimulator_d))) = Inr v"
    using runInference_d_returns [OF ne] by blast
  have l: "d_load (d_state MockOBDSimulator_d) = Fin 20"
    by (simp add: MockOBDSimulator_d_def initial_dstate_def)
  show ?thesis
    using runInference_d_result [OF v, of eng draw]
    unfolding l decrement_at_20 assms(1) counter_step [OF assms(2,3)] by blast
qed

lemma constructor_calls:
  assumes "d_rulKms eng = Fin (of_int (8246337208320000 - 21990232556 * int j) / 2 ^ 39)"
    and "j + n \<le> 25"
  shows "d_rulKms (inference_calls_d m eng (replicate n (MockOBDSimulator_d, draw)))
    = Fin (of_int (8246337208320000 - 21990232556 * int (j + n)) / 2 ^ 39)"
  using assms
proof (induction n arbitrary: eng j)
  case 0
  then show ?case by simp
next
  case (Suc n)
  let ?eng1 = "eng\<lparr>d_rulKms := Fin (of_int (8246337208320000 - 21990232556 * (int j + 1)) / 2 ^ 39)\<rparr>"
  obtain res where "runInference_d m eng MockOBDSimulator_d draw = Inr (res, ?eng1)"
    using constructor_call [OF Suc.prems(1), of m draw] Suc.prems(2) by auto
  moreover have "d_rulKms (inference_calls_d m ?eng1 (replicate n (MockOBDSimulator_d, draw)))
      = Fin (of_int (8246337208320000 - 21990232556 * int (Suc j + n)) / 2 ^ 39)"
    using Suc.prems(2) by (intro Suc.IH) (simp_all add: add.commute)
  ultimately show ?case
    by simp
qed

text \<open>
  Claim C6 as stated fails in doubles. After 25 calls on the constructor's snapshot
  (load 20) the exact counter would be \<open>15000 - 25 * 0.04 = 14999\<close>; the code's counter is
  \<open>8245787452506100 / 2 ^ 39\<close>, about 14998.999999999978, and the 25th call reports 14998.
\<close>

theorem rul_after_25_calls:
  "d_rulKms (inference_calls_d rounding_math MLInferenceEngine_d
      (replicate 25 (MockOBDSimulator_d, Fin (1/4)))) = Fin (8245787452506100 / 2 ^ 39) \<and>
   map_sum id (r_rul_val \<circ> fst)
     (runInference_d rounding_math
        (inference_calls_d rounding_math MLInferenceEngine_d
           (replicate 24 (MockOBDSimulator_d, Fin (1/4))))
        MockOBDSimulator_d (Fin (1/4))) = Inr (Fin 14998) \<and>
   15000 - 25 * (0.1 * (20 / 100) * 2) = (14999 :: real) \<and>
   \<lfloor>15000 - 25 * (0.1 * (20 / 100) * 2) :: real\<rfloor> = 14999"
proof -
  let ?p = "(MockOBDSimulator_d, Fin (1/4))"
  have start: "d_rulKms MLInferenceEngine_d
      = Fin (of_int (8246337208320000 - 21990232556 * int 0) / 2 ^ 39)"
    by (simp add: MLInferenceEngine_d_def)
  have a: "d_rulKms (inference_calls_d rounding_math MLInferenceEngine_d (replicate 25 ?p))
      = Fin (8245787452506100 / 2 ^ 39)"
    using constructor_calls [OF start, of 25 rounding_math "Fin (1/4)"] by simp
  have b: "d_rulKms (inference_calls_d rounding_math MLInferenceEngine_d (replicate 24 ?p))
      = Fin (of_int (8246337208320000 - 21990232556 * 24) / 2 ^ 39)"
    using constructor_calls [OF start, of 24 rounding_math "Fin (1/4)"] by simp
  obtain res eng' where run: "runInference_d rounding_math
      (inference_calls_d rounding_math MLInferenceEngine_d (replicate 24 ?p))
      MockOBDSimulator_d (Fin (1/4)) = Inr (res, eng')"
    and val: "r_rul_val res
      = Math_floor (Fin (of_int (8246337208320000 - 21990232556 * (24 + 1)) / 2 ^ 39))"
    using constructor_call [OF b, of rounding_math "Fin (1/4)"] by auto
  have "\<lfloor>8245787452506100 / 2 ^ 39 :: real\<rfloor> = 14998"
    by (simp add: floor_eq_iff)
  then have "r_rul_val res = Fin 14998"
    unfolding val by simp
  then have c: "map_sum id (r_rul_val \<circ> fst)
      (runInference_d rounding_math
        (inference_calls_d rounding_math MLInferenceEngine_d (replicate 24 ?p))
        MockOBDSimulator_d (Fin (1/4))) = Inr (Fin 14998)"
    unfolding run by simp
  show ?thesis
    using a c by simp
qed

theorem rul_counter_in_doubles_witness:
  "dh_rpm (d_history MockOBDSimulator_d) \<noteq> [] \<and>
   counter_value (d_rulKms MLInferenceEngine_d) \<and>
   js_le (Fin 0) (d_load (d_state MockOBDSimulator_d)) \<and>
   map_sum id (r_rul_val \<circ> fst)
     (runInference_d rounding_math MLInferenceEngine_d MockOBDSimulator_d (Fin (1/4)))
     = Inr (Fin 14999) \<and>
   js_le (d_rulKms (inference_calls_d rounding_math MLInferenceEngine_d
            ([(MockOBDSimulator_d, Fin (1/4))] @ [(MockOBDSimulator_d, Fin (1/4))])))
     (d_rulKms (inference_calls_d rounding_math MLInferenceEngine_d
            [(MockOBDSimulator_d, Fin (1/4))]))"
proof -
  let ?p = "(MockOBDSimulator_d, Fin (1/4))"
  note inst = rul_counter_in_doubles [of MockOBDSimulator_d rounding_math MLInferenceEngine_d
      "Fin (1/4)" "[?p]" "[?p]"]
  have ne: "dh_rpm (d_history MockOBDSimulator_d) \<noteq> []"
    by (simp add: MockOBDSimulator_d_def HISTORY_SIZE_def)
  have "fl (of_int 15000) = Fin (of_int 15000)"
    by (rule fl_int) simp
  then have cv: "counter_value (d_rulKms MLInferenceEngine_d)"
    by (simp add: MLInferenceEngine_d_def is_double_def)
  have l: "d_load (d_state MockOBDSimulator_d) = Fin 20"
    by (simp add: MockOBDSimulator_d_def initial_dstate_def)
  obtain res eng' where run:
      "runInference_d rounding_math MLInferenceEngine_d MockOBDSimulator_d (Fin (1/4)) = Inr (res, eng')"
    and k: "d_rulKms eng' = js_sub (d_rulKms MLInferenceEngine_d)
        (js_mul (js_mul (js_div (d_load (d_state MockOBDSimulator_d)) (Fin 100)) (Fin 2)) (fl 0.1))"
    and val: "r_rul_val res = Math_floor (d_rulKms eng')"
    using inst ne by blast
  have "d_rulKms eng' = Fin (of_int (8246337208320000 - 21990232556 * (0 + 1)) / 2 ^ 39)"
    unfolding k l decrement_at_20 using counter_step [of 0] by (simp add: MLInferenceEngine_d_def)
  moreover have "\<lfloor>8246315218087444 / 2 ^ 39 :: real\<rfloor> = 14999"
    by (simp add: floor_eq_iff)
  ultimately have "r_rul_val res = Fin 14999"
    unfolding val by simp
  then have a: "map_sum id (r_rul_val \<circ> fst)
      (runInference_d rounding_math MLInferenceEngine_d MockOBDSimulator_d (Fin (1/4)))
      = Inr (Fin 14999)"
    unfolding run by simp
  have "js_le (d_rulKms (inference_calls_d rounding_math MLInferenceEngine_d ([?p] @ [?p])))
      (d_rulKms (inference_calls_d rounding_math MLInferenceEngine_d [?p]))"
    using inst cv l by simp
  then show ?thesis
    using ne cv l a by simp
qed

section \<open>Health scores, in doubles\<close>

lemma fl_numeral_small:
  "fl 2 = Fin 2" "fl 5 = Fin 5" "fl 20 = Fin 20" "fl 21 = Fin 21" "fl 25 = Fin 25" "fl 50 = Fin 50"
  "fl 70 = Fin 70" "fl 75 = Fin 75" "fl 90 = Fin 90" "fl 93 = Fin 93" "fl 95 = Fin 95"
  "fl 98 = Fin 98" "fl 100 = Fin 100" "fl 105 = Fin 105" "fl (- 5) = Fin (- 5)"
  using fl_int [of 2] fl_int [of 5] fl_int [of 20] fl_int [of 21] fl_int [of 25] fl_int [of 50]
    fl_int [of 70] fl_int [of 75] fl_int [of 90] fl_int [of 93] fl_int [of 95] fl_int [of 98]
    fl_int [of 100] fl_int [of 105] fl_int [of "- 5"]
  by simp_all

lemma engine_score_d:
  "r_engine (health_scores_d data) =
     Fin (100 - (if js_gt (d_rpm data) (Fin 4500) then 5 else 0)
              - (if js_gt (d_load data) (Fin 90) then 2 else 0))"
  by (simp add: health_scores_d_def Let_def js_sub_def fl_numeral_small)

lemma electrical_score_d:
  "r_electrical (health_scores_d data) =
     Fin (100 - (if js_lt (d_battery data) (fl 12.8) then 10 else 0))"
  by (simp add: health_scores_d_def Let_def js_sub_def fl_numeral_small)

lemma thermal_score_d:
  "r_thermal (health_scores_d data) =
     (if js_gt (d_coolant data) (Fin 100)
      then js_sub (Fin 100) (js_mul (js_sub (d_coolant data) (Fin 100)) (Fin 5))
      else Fin 100)"
  by (simp add: health_scores_d_def Let_def)

lemma hygiene_score_d:
  "r_hygiene (health_scores_d data) =
     Math_round (js_add (js_add (js_mul (r_thermal (health_scores_d data)) (fl 0.4))
                                (js_mul (r_engine (health_scores_d data)) (fl 0.4)))
                        (js_mul (r_electrical (health_scores_d data)) (fl 0.2)))"
  by (simp add: health_scores_d_def Let_def)

text \<open>The formula of the specification, with \<^verbatim>\<open>Math.max\<close>, is the same when the coolant is a number.\<close>

lemma thermal_score_max:
  assumes "\<not> is_NaN c"
  shows "(if js_gt c (Fin 100) then js_sub (Fin 100) (js_mul (js_sub c (Fin 100)) (Fin 5))
          else Fin 100)
       = js_sub (Fin 100) (js_mul (Math_max (Fin 0) (js_sub c (Fin 100))) (Fin 5))"
proof (cases c)
  case (Fin x)
  show ?thesis
  proof (cases "100 < x")
    case True
    then have "js_le (Fin 0) (fl (x - 100))"
      by (intro fl_nonneg) simp
    then have "Math_max (Fin 0) (fl (x - 100)) = fl (x - 100)"
      by (cases "fl (x - 100)") (simp_all add: Math_max_def)
    then show ?thesis
      using True Fin by (simp add: js_gt_def js_lt_def js_sub_def)
  next
    case False
    then have "js_le (fl (x - 100)) (Fin 0)"
      using fl_mono [of "x - 100" 0] by simp
    then have "Math_max (Fin 0) (fl (x - 100)) = Fin 0"
      by (cases "fl (x - 100)") (auto simp: Math_max_def)
    then show ?thesis
      using False Fin by (simp add: js_gt_def js_lt_def js_sub_def fl_numeral_small)
  qed
next
  case PInf
  then show ?thesis
    by (simp add: js_gt_def js_lt_def js_sub_def Math_max_def)
next
  case NInf
  then show ?thesis
    by (simp add: js_gt_def js_lt_def js_sub_def Math_max_def fl_numeral_small)
next
  case NaN
  then show ?thesis
    using assms by simp
qed

lemma thermal_score_negative:
  assumes "js_le (Fin 121) c"
  shows "js_gt c (Fin 100) \<and>
    js_le (js_sub (Fin 100) (js_mul (js_sub c (Fin 100)) (Fin 5))) (Fin (- 5))"
proof (cases c)
  case (Fin x)
  then have x: "121 \<le> x"
    using assms by simp
  then have a: "js_le (Fin 21) (fl (x - 100))"
    using fl_mono [of 21 "x - 100"] by (simp add: fl_numeral_small)
  have "js_le (js_sub (Fin 100) (js_mul (fl (x - 100)) (Fin 5))) (Fin (- 5))"
  proof (cases "fl (x - 100)")
    case (Fin y)
    then have "21 \<le> y"
      using a by simp
    then have b: "js_le (Fin 105) (fl (y * 5))"
      using fl_mono [of 105 "y * 5"] by (simp add: fl_numeral_small)
    have "js_le (js_sub (Fin 100) (fl (y * 5))) (Fin (- 5))"
    proof (cases "fl (y * 5)")
      case (Fin z)
      then have "105 \<le> z"
        using b by simp
      then show ?thesis
        using fl_mono [of "100 - z" "- 5"] Fin by (simp add: js_sub_def fl_numeral_small)
    qed (use b in \<open>simp_all add: js_sub_def\<close>)
    then show ?thesis
      using Fin by simp
  qed (use a in \<open>simp_all add: js_sub_def\<close>)
  then show ?thesis
    using Fin x by (simp add: js_gt_def js_lt_def js_sub_def)
qed (use assms in \<open>simp_all add: js_gt_def js_lt_def js_sub_def\<close>)

lemma js_le_not_gt: "js_le a b \<Longrightarrow> \<not> js_gt a b"
  by (simp add: js_gt_def js_lt_def)

lemma js_le_not_lt: "js_le b a \<Longrightarrow> \<not> js_lt a b"
  by (simp add: js_lt_def)

text \<open>The literals 0.4 and 0.2, and the products and sums of the scenario with coolant 105.\<close>

lemma fl_weights:
  "fl 0.4 = Fin (7205759403792794 / 2 ^ 54)" "fl 0.2 = Fin (7205759403792794 / 2 ^ 55)"
proof -
  have "fl 0.4 = Fin (of_int 7205759403792794 * 2 powi (- 54))"
    by (rule fl_near) simp_all
  then show "fl 0.4 = Fin (7205759403792794 / 2 ^ 54)"
    by simp
  have "fl 0.2 = Fin (of_int 7205759403792794 * 2 powi (- 55))"
    by (rule fl_near) simp_all
  then show "fl 0.2 = Fin (7205759403792794 / 2 ^ 55)"
    by simp
qed

lemma hygiene_at_105_d:
  assumes "d_coolant data = Fin 105" and "js_le (d_rpm data) (Fin 4500)"
    and "js_le (d_load data) (Fin 90)" and "js_le (fl 12.8) (d_battery data)"
  shows "r_thermal (health_scores_d data) = Fin 75 \<and> r_engine (health_scores_d data) = Fin 100 \<and>
    r_electrical (health_scores_d data) = Fin 100 \<and> r_hygiene (health_scores_d data) = Fin 90"
proof -
  have th: "r_thermal (health_scores_d data) = Fin 75"
    unfolding thermal_score_d assms(1)
    by (simp add: js_gt_def js_lt_def js_sub_def fl_numeral_small)
  have en: "r_engine (health_scores_d data) = Fin 100"
    unfolding engine_score_d using assms(2,3) by (simp add: js_le_not_gt)
  have el: "r_electrical (health_scores_d data) = Fin 100"
    unfolding electrical_score_d using assms(4) by (simp add: js_le_not_lt)
  have "fl (75 * (7205759403792794 / 2 ^ 54)) = Fin (of_int 8444249301319680 * 2 powi (- 48))"
    by (rule fl_near) simp_all
  then have p1: "js_mul (Fin (75)) (Fin (7205759403792794 / 2 ^ 54)) = Fin (30)"
    by (simp add: js_sub_def)
  have "fl (100 * (7205759403792794 / 2 ^ 54)) = Fin (of_int 5629499534213120 * 2 powi (- 47))"
    by (rule fl_near) simp_all
  then have p2: "js_mul (Fin (100)) (Fin (7205759403792794 / 2 ^ 54)) = Fin (40)"
    by (simp add: js_sub_def)
  have "fl (100 * (7205759403792794 / 2 ^ 55)) = Fin (of_int 5629499534213120 * 2 powi (- 48))"
    by (rule fl_near) simp_all
  then have p3: "js_mul (Fin (100)) (Fin (7205759403792794 / 2 ^ 55)) = Fin (20)"
    by (simp add: js_sub_def)
  have "fl (30 + (40)) = Fin (of_int 4925812092436480 * 2 powi (- 46))"
    by (rule fl_near) simp_all
  then have s1: "js_add (Fin (30)) (Fin (40)) = Fin (70)"
    by (simp add: js_sub_def)
  have "fl (70 + (20)) = Fin (of_int 6333186975989760 * 2 powi (- 46))"
    by (rule fl_near) simp_all
  then have s2: "js_add (Fin (70)) (Fin (20)) = Fin (90)"
    by (simp add: js_sub_def)
  have "r_hygiene (health_scores_d data) = Math_round (Fin 90)"
    unfolding hygiene_score_d th en el fl_weights p1 p2 p3 s1 s2 ..
  then show ?thesis
    using th en el by simp
qed

text \<open>The state with coolant 184.35 and load 95, the other fields as the constructor sets them.\<close>

lemma hygiene_at_184:
  assumes "d_coolant data = fl 184.35" and "d_rpm data = Fin 1000"
    and "d_load data = Fin 95" and "d_battery data = fl 13.8"
  shows "r_thermal (health_scores_d data) = Fin (- (5660285859790848 / 2 ^ 44)) \<and> r_engine (health_scores_d data) = Fin 98 \<and>
    r_electrical (health_scores_d data) = Fin 100 \<and> r_hygiene (health_scores_d data) = Fin (- 70)"
proof -
  have "fl (184.35) = Fin (of_int 6486238994576179 * 2 powi (- 45))"
    by (rule fl_near) simp_all
  then have c: "fl (184.35) = Fin (6486238994576179 / 2 ^ 45)"
    by simp
  have "fl (6486238994576179 / 2 ^ 45 - (100)) = Fin (of_int 5935603571385958 * 2 powi (- 46))"
    by (rule fl_near) simp_all
  then have a: "js_sub (Fin (6486238994576179 / 2 ^ 45)) (Fin (100)) = Fin (5935603571385958 / 2 ^ 46)"
    by (simp add: js_sub_def)
  have "fl (5935603571385958 / 2 ^ 46 * (5)) = Fin (of_int 7419504464232448 * 2 powi (- 44))"
    by (rule fl_tie) simp_all
  then have b: "js_mul (Fin (5935603571385958 / 2 ^ 46)) (Fin (5)) = Fin (7419504464232448 / 2 ^ 44)"
    by (simp add: js_sub_def)
  have "fl (100 - (7419504464232448 / 2 ^ 44)) = Fin (of_int (- 5660285859790848) * 2 powi (- 44))"
    by (rule fl_near) simp_all
  then have t: "js_sub (Fin (100)) (Fin (7419504464232448 / 2 ^ 44)) = Fin (- (5660285859790848 / 2 ^ 44))"
    by (simp add: js_sub_def)
  have g: "js_gt (Fin (6486238994576179 / 2 ^ 45)) (Fin 100)"
    by (simp add: js_gt_def js_lt_def)
  have th: "r_thermal (health_scores_d data) = Fin (- (5660285859790848 / 2 ^ 44))"
    unfolding thermal_score_d assms(1) c using g by (simp only: if_True a b t)
  have en: "r_engine (health_scores_d data) = Fin 98"
    unfolding engine_score_d assms(2,3) by (simp add: js_gt_def js_lt_def)
  have "fl (12.8) = Fin (of_int 7205759403792794 * 2 powi (- 49))"
    by (rule fl_near) simp_all
  then have b1: "fl (12.8) = Fin (7205759403792794 / 2 ^ 49)"
    by simp
  have "fl (13.8) = Fin (of_int 7768709357214106 * 2 powi (- 49))"
    by (rule fl_near) simp_all
  then have b2: "fl (13.8) = Fin (7768709357214106 / 2 ^ 49)"
    by simp
  have el: "r_electrical (health_scores_d data) = Fin 100"
    unfolding electrical_score_d assms(4) b1 b2 by (simp add: js_lt_def)
  have "fl (- (5660285859790848 / 2 ^ 44) * (7205759403792794 / 2 ^ 54)) = Fin (of_int (- 4528228687832679) * 2 powi (- 45))"
    by (rule fl_near) simp_all
  then have p1: "js_mul (Fin (- (5660285859790848 / 2 ^ 44))) (Fin (7205759403792794 / 2 ^ 54)) = Fin (- (4528228687832679 / 2 ^ 45))"
    by (simp add: js_sub_def)
  have "fl (98 * (7205759403792794 / 2 ^ 54)) = Fin (of_int 5516909543528858 * 2 powi (- 47))"
    by (rule fl_near) simp_all
  then have p2: "js_mul (Fin (98)) (Fin (7205759403792794 / 2 ^ 54)) = Fin (5516909543528858 / 2 ^ 47)"
    by (simp add: js_sub_def)
  have "fl (100 * (7205759403792794 / 2 ^ 55)) = Fin (of_int 5629499534213120 * 2 powi (- 48))"
    by (rule fl_near) simp_all
  then have p3: "js_mul (Fin (100)) (Fin (7205759403792794 / 2 ^ 55)) = Fin (20)"
    by (simp add: js_sub_def)
  have "fl (- (4528228687832679 / 2 ^ 45) + (5516909543528858 / 2 ^ 47)) = Fin (of_int (- 6298002603900929) * 2 powi (- 46))"
    by (rule fl_near) simp_all
  then have s1: "js_add (Fin (- (4528228687832679 / 2 ^ 45))) (Fin (5516909543528858 / 2 ^ 47)) = Fin (- (6298002603900929 / 2 ^ 46))"
    by (simp add: js_sub_def)
  have "fl (- (6298002603900929 / 2 ^ 46) + (20)) = Fin (of_int (- 4890627720347649) * 2 powi (- 46))"
    by (rule fl_near) simp_all
  then have s2: "js_add (Fin (- (6298002603900929 / 2 ^ 46))) (Fin (20)) = Fin (- (4890627720347649 / 2 ^ 46))"
    by (simp add: js_sub_def)
  have "r_hygiene (health_scores_d data) = Math_round (Fin (- (4890627720347649 / 2 ^ 46)))"
    unfolding hygiene_score_d th en el fl_weights p1 p2 p3 s1 s2 ..
  moreover have "\<lfloor>- (4890627720347649 / 2 ^ 46) + 1 / 2 :: real\<rfloor> = - 70"
    by (simp add: floor_eq_iff)
  ultimately have "r_hygiene (health_scores_d data) = Fin (- 70)"
    by simp
  then show ?thesis
    using th en el by simp
qed

text \<open>
  Claim C4, as amended. The scores \<^verbatim>\<open>runInference\<close> returns are these, every operation
  being the double one: the thermal score is \<open>100 - (coolant - 100) * 5\<close> when the coolant
  exceeds 100 and 100 otherwise, which for a coolant that is a number is
  \<open>100 - max 0 (coolant - 100) * 5\<close>, with no lower clamp (it is at most -5 from coolant
  121 on); the engine score is 100 less 5 for rpm above 4500 and less 2 for load above
  90; the electrical score is 100 less 10 for a battery below 12.8; the hygiene score
  is \<^verbatim>\<open>Math.round\<close> of the double sum of the double products with 0.4, 0.4 and 0.2. With
  coolant 105 and no other penalty the thermal score is 75 and the hygiene score is 90.
\<close>

theorem health_scores_in_doubles:
  assumes "dh_rpm (d_history s) \<noteq> []"
  shows "\<exists>res eng'. runInference_d m eng s draw = Inr (res, eng') \<and>
    r_thermal (r_scores res) =
      (if js_gt (d_coolant (d_state s)) (Fin 100)
       then js_sub (Fin 100) (js_mul (js_sub (d_coolant (d_state s)) (Fin 100)) (Fin 5))
       else Fin 100) \<and>
    (\<not> is_NaN (d_coolant (d_state s)) \<longrightarrow>
       r_thermal (r_scores res) =
         js_sub (Fin 100)
           (js_mul (Math_max (Fin 0) (js_sub (d_coolant (d_state s)) (Fin 100))) (Fin 5))) \<and>
    r_engine (r_scores res) =
      Fin (100 - (if js_gt (d_rpm (d_state s)) (Fin 4500) then 5 else 0)
               - (if js_gt (d_load (d_state s)) (Fin 90) then 2 else 0)) \<and>
    r_electrical (r_scores res) =
      Fin (100 - (if js_lt (d_battery (d_state s)) (fl 12.8) then 10 else 0)) \<and>
    r_hygiene (r_scores res) =
      Math_round (js_add (js_add (js_mul (r_thermal (r_scores res)) (fl 0.4))
                                 (js_mul (r_engine (r_scores res)) (fl 0.4)))
                         (js_mul (r_electrical (r_scores res)) (fl 0.2))) \<and>
    (js_le (Fin 121) (d_coolant (d_state s)) \<longrightarrow> js_le (r_thermal (r_scores res)) (Fin (- 5))) \<and>
    (d_coolant (d_state s) = Fin 105 \<and> js_le (d_rpm (d_state s)) (Fin 4500) \<and>
     js_le (d_load (d_state s)) (Fin 90) \<and> js_le (fl 12.8) (d_battery (d_state s)) \<longrightarrow>
       r_thermal (r_scores res) = Fin 75 \<and> r_hygiene (r_scores res) = Fin 90)"
proof -
  let ?d = "d_state s"
  obtain v where v: "calculateVariance_d m (slice_last 20 (dh_rpm (d_history s))) = Inr v"
    using runInference_d_returns [OF assms] by blast
  obtain res eng' where res: "runInference_d m eng s draw = Inr (res, eng')"
    and sc: "r_scores res = health_scores_d ?d"
    using runInference_d_result [OF v, of eng draw] by blast
  have f1: "r_thermal (r_scores res) =
      (if js_gt (d_coolant ?d) (Fin 100)
       then js_sub (Fin 100) (js_mul (js_sub (d_coolant ?d) (Fin 100)) (Fin 5))
       else Fin 100)"
    unfolding sc by (rule thermal_score_d)
  have f2: "r_thermal (r_scores res) =
      js_sub (Fin 100) (js_mul (Math_max (Fin 0) (js_sub (d_coolant ?d) (Fin 100))) (Fin 5))"
    if "\<not> is_NaN (d_coolant ?d)"
    unfolding f1 using that by (rule thermal_score_max)
  have f3: "r_engine (r_scores res) =
      Fin (100 - (if js_gt (d_rpm ?d) (Fin 4500) then 5 else 0)
               - (if js_gt (d_load ?d) (Fin 90) then 2 else 0))"
    unfolding sc by (rule engine_score_d)
  have f4: "r_electrical (r_scores res) =
      Fin (100 - (if js_lt (d_battery ?d) (fl 12.8) then 10 else 0))"
    unfolding sc by (rule electrical_score_d)
  have f5: "r_hygiene (r_scores res) =
      Math_round (js_add (js_add (js_mul (r_thermal (r_scores res)) (fl 0.4))
                                 (js_mul (r_engine (r_scores res)) (fl 0.4)))
                         (js_mul (r_electrical (r_scores res)) (fl 0.2)))"
    unfolding sc by (rule hygiene_score_d)
  have f6: "js_le (r_thermal (r_scores res)) (Fin (- 5))" if "js_le (Fin 121) (d_coolant ?d)"
    unfolding f1 using thermal_score_negative [OF that] by simp
  have f7: "r_thermal (r_scores res) = Fin 75 \<and> r_hygiene (r_scores res) = Fin 90"
    if "d_coolant ?d = Fin 105 \<and> js_le (d_rpm ?d) (Fin 4500) \<and>
      js_le (d_load ?d) (Fin 90) \<and> js_le (fl 12.8) (d_battery ?d)"
    unfolding sc using hygiene_at_105_d [of ?d] that by blast
  show ?thesis
    using res f1 f2 f3 f4 f5 f6 f7 by blast
qed

text \<open>
  Claim C4 as stated fails in doubles. With coolant 184.35 and load 95 the code's
  thermal score is -321.75, where the exact \<open>100 - (coolant - 100) * 5\<close> of the same
  coolant is not, and its hygiene score is -70, where the rounded exact weighted sum
  of the code's own three scores is -69.
\<close>

theorem hygiene_differs_from_exact_formula:
  "map_sum id (r_thermal \<circ> r_scores \<circ> fst)
     (runInference_d rounding_math MLInferenceEngine_d
        (MockOBDSimulator_d\<lparr>d_state := initial_dstate\<lparr>d_coolant := fl 184.35, d_load := Fin 95\<rparr>\<rparr>)
        (Fin (1/4))) = Inr (Fin (- 321.75)) \<and>
   map_sum id (r_engine \<circ> r_scores \<circ> fst)
     (runInference_d rounding_math MLInferenceEngine_d
        (MockOBDSimulator_d\<lparr>d_state := initial_dstate\<lparr>d_coolant := fl 184.35, d_load := Fin 95\<rparr>\<rparr>)
        (Fin (1/4))) = Inr (Fin 98) \<and>
   map_sum id (r_electrical \<circ> r_scores \<circ> fst)
     (runInference_d rounding_math MLInferenceEngine_d
        (MockOBDSimulator_d\<lparr>d_state := initial_dstate\<lparr>d_coolant := fl 184.35, d_load := Fin 95\<rparr>\<rparr>)
        (Fin (1/4))) = Inr (Fin 100) \<and>
   map_sum id (r_hygiene \<circ> r_scores \<circ> fst)
     (runInference_d rounding_math MLInferenceEngine_d
        (MockOBDSimulator_d\<lparr>d_state := initial_dstate\<lparr>d_coolant := fl 184.35, d_load := Fin 95\<rparr>\<rparr>)
        (Fin (1/4))) = Inr (Fin (- 70)) \<and>
   round (0.4 * (- 321.75) + 0.4 * 98 + 0.2 * 100 :: real) = - 69 \<and>
   fl 184.35 = Fin (6486238994576179 / 2 ^ 45) \<and>
   100 - max 0 (6486238994576179 / 2 ^ 45 - 100) * 5 \<noteq> (- 321.75 :: real)"
proof -
  let ?s = "MockOBDSimulator_d\<lparr>d_state := initial_dstate\<lparr>d_coolant := fl 184.35, d_load := Fin 95\<rparr>\<rparr>"
  have ne: "dh_rpm (d_history ?s) \<noteq> []"
    by (simp add: MockOBDSimulator_d_def HISTORY_SIZE_def)
  obtain v where v:
      "calculateVariance_d rounding_math (slice_last 20 (dh_rpm (d_history ?s))) = Inr v"
    using runInference_d_returns [OF ne] by blast
  obtain res eng' where res:
      "runInference_d rounding_math MLInferenceEngine_d ?s (Fin (1/4)) = Inr (res, eng')"
    and sc: "r_scores res = health_scores_d (d_state ?s)"
    using runInference_d_result [OF v, of MLInferenceEngine_d "Fin (1/4)"] by blast
  have "r_thermal (health_scores_d (d_state ?s)) = Fin (- (5660285859790848 / 2 ^ 44)) \<and>
      r_engine (health_scores_d (d_state ?s)) = Fin 98 \<and>
      r_electrical (health_scores_d (d_state ?s)) = Fin 100 \<and>
      r_hygiene (health_scores_d (d_state ?s)) = Fin (- 70)"
    by (rule hygiene_at_184) (simp_all add: initial_dstate_def)
  then have scores: "r_thermal (r_scores res) = Fin (- 321.75) \<and> r_engine (r_scores res) = Fin 98 \<and>
      r_electrical (r_scores res) = Fin 100 \<and> r_hygiene (r_scores res) = Fin (- 70)"
    unfolding sc by simp
  have "fl 184.35 = Fin (of_int 6486238994576179 * 2 powi (- 45))"
    by (rule fl_near) simp_all
  then have c: "fl 184.35 = Fin (6486238994576179 / 2 ^ 45)"
    by simp
  have r: "round (0.4 * (- 321.75) + 0.4 * 98 + 0.2 * 100 :: real) = - 69"
    by (simp add: round_def floor_eq_iff)
  have x: "100 - max 0 (6486238994576179 / 2 ^ 45 - 100) * 5 \<noteq> (- 321.75 :: real)"
    by simp
  show ?thesis
    unfolding res using scores c r x by simp
qed

theorem health_scores_in_doubles_witness:
  "dh_rpm (d_history (MockOBDSimulator_d\<lparr>d_state := initial_dstate\<lparr>d_coolant := Fin 105\<rparr>\<rparr>)) \<noteq> [] \<and>
   \<not> is_NaN (Fin 105) \<and> js_le (Fin 1000) (Fin 4500) \<and> js_le (Fin 20) (Fin 90) \<and>
   js_le (fl 12.8) (fl 13.8) \<and>
   map_sum id (r_thermal \<circ> r_scores \<circ> fst)
     (runInference_d rounding_math MLInferenceEngine_d
        (MockOBDSimulator_d\<lparr>d_state := initial_dstate\<lparr>d_coolant := Fin 105\<rparr>\<rparr>) (Fin (1/4)))
     = Inr (Fin 75) \<and>
   map_sum id (r_hygiene \<circ> r_scores \<circ> fst)
     (runInference_d rounding_math MLInferenceEngine_d
        (MockOBDSimulator_d\<lparr>d_state := initial_dstate\<lparr>d_coolant := Fin 105\<rparr>\<rparr>) (Fin (1/4)))
     = Inr (Fin 90) \<and>
   js_le (Fin 121) (Fin 130) \<and>
   map_sum id (r_thermal \<circ> r_scores \<circ> fst)
     (runInference_d rounding_math MLInferenceEngine_d
        (MockOBDSimulator_d\<lparr>d_state := initial_dstate\<lparr>d_coolant := Fin 130\<rparr>\<rparr>) (Fin (1/4)))
     = Inr (Fin (- 50)) \<and>
   js_le (Fin (- 50)) (Fin (- 5))"
proof -
  let ?s = "MockOBDSimulator_d\<lparr>d_state := initial_dstate\<lparr>d_coolant := Fin 105\<rparr>\<rparr>"
  let ?t = "MockOBDSimulator_d\<lparr>d_state := initial_dstate\<lparr>d_coolant := Fin 130\<rparr>\<rparr>"
  have ne: "dh_rpm (d_history ?s) \<noteq> []" and ne': "dh_rpm (d_history ?t) \<noteq> []"
    by (simp_all add: MockOBDSimulator_d_def HISTORY_SIZE_def)
  have "fl 12.8 = Fin (of_int 7205759403792794 * 2 powi (- 49))"
    by (rule fl_near) simp_all
  moreover have "fl 13.8 = Fin (of_int 7768709357214106 * 2 powi (- 49))"
    by (rule fl_near) simp_all
  ultimately have b: "js_le (fl 12.8) (fl 13.8)"
    by simp
  have st: "d_coolant (d_state ?s) = Fin 105 \<and> js_le (d_rpm (d_state ?s)) (Fin 4500) \<and>
      js_le (d_load (d_state ?s)) (Fin 90) \<and> js_le (fl 12.8) (d_battery (d_state ?s))"
    using b by (simp add: initial_dstate_def)
  obtain res eng' where res:
      "runInference_d rounding_math MLInferenceEngine_d ?s (Fin (1/4)) = Inr (res, eng')"
    and "r_thermal (r_scores res) = Fin 75" and "r_hygiene (r_scores res) = Fin 90"
    using health_scores_in_doubles [OF ne, of rounding_math MLInferenceEngine_d "Fin (1/4)"] st
    by blast
  then have a: "map_sum id (r_thermal \<circ> r_scores \<circ> fst)
        (runInference_d rounding_math MLInferenceEngine_d ?s (Fin (1/4))) = Inr (Fin 75)"
      "map_sum id (r_hygiene \<circ> r_scores \<circ> fst)
        (runInference_d rounding_math MLInferenceEngine_d ?s (Fin (1/4))) = Inr (Fin 90)"
    by simp_all
  have hot: "js_le (Fin 121) (d_coolant (d_state ?t))"
    by simp
  obtain res2 eng2 where res2:
      "runInference_d rounding_math MLInferenceEngine_d ?t (Fin (1/4)) = Inr (res2, eng2)"
    and th: "r_thermal (r_scores res2) =
      (if js_gt (d_coolant (d_state ?t)) (Fin 100)
       then js_sub (Fin 100) (js_mul (js_sub (d_coolant (d_state ?t)) (Fin 100)) (Fin 5))
       else Fin 100)"
    and neg: "js_le (r_thermal (r_scores res2)) (Fin (- 5))"
    using health_scores_in_doubles [OF ne', of rounding_math MLInferenceEngine_d "Fin (1/4)"] hot
    by blast
  have "fl 30 = Fin 30" "fl 150 = Fin 150" "fl (- 50) = Fin (- 50)"
    using fl_int [of 30] fl_int [of 150] fl_int [of "- 50"] by simp_all
  then have "r_thermal (r_scores res2) = Fin (- 50)"
    unfolding th by (simp add: js_gt_def js_lt_def js_sub_def)
  then have c: "map_sum id (r_thermal \<circ> r_scores \<circ> fst)
      (runInference_d rounding_math MLInferenceEngine_d ?t (Fin (1/4))) = Inr (Fin (- 50))"
    unfolding res2 by simp
  show ?thesis
    using ne b a c by simp
qed
section \<open>Driver classification, in doubles\<close>

text \<open>A double below 1 is at most \<open>1 - 2\<^sup>-\<^sup>5\<^sup>3\<close>, the largest double below 1.\<close>

lemma double_below_one:
  assumes "is_double x" and "x < 1"
  shows "x \<le> 1 - 1 / 2 ^ 53"
proof (cases "1/2 \<le> x")
  case False
  then show ?thesis by simp
next
  case True
  have q: "quantum_exp x = - 53"
    using True assms(2) by (intro quantum_exp_eq) simp_all
  have "clip (quantise x) = Fin x"
    using assms(1) by (simp add: is_double_def fl_clip)
  then have "quantise x = x"
    by (auto simp: clip_def split: if_splits)
  then have "x = of_int (round_even (x / 2 powi (- 53))) * 2 powi (- 53)"
    using q by (simp add: quantise_def)
  then obtain n :: int where x: "x = of_int n / 2 ^ 53"
    by (simp add: power_int_minus field_simps)
  have "of_int n < (2::real) ^ 53"
    using assms(2) unfolding x by simp
  then have "n < 2 ^ 53"
    by (metis of_int_less_iff of_int_numeral of_int_power)
  then have "n \<le> 2 ^ 53 - 1"
    by simp
  then have "(of_int n :: real) \<le> of_int (2 ^ 53 - 1)"
    by (rule of_int_le_iff [THEN iffD2])
  then show ?thesis
    unfolding x by (simp add: field_simps)
qed

text \<open>Ten times a double of \<open>[0, 1)\<close>, rounded, is in \<open>[0, 10)\<close>.\<close>

lemma jitter_range:
  assumes "is_double j" and "0 \<le> j" and "j < 1"
  shows "\<exists>t. js_mul (Fin j) (Fin 10) = Fin t \<and> 0 \<le> t \<and> t < 10"
proof -
  have "j \<le> 1 - 1 / 2 ^ 53"
    using assms(1,3) by (rule double_below_one)
  then have "j * 10 \<le> 10 - 10 / 2 ^ 53"
    by simp
  then have "js_le (fl (j * 10)) (fl (10 - 10 / 2 ^ 53))"
    by (rule fl_mono)
  moreover have "fl (10 - 10 / 2 ^ 53) = Fin (of_int 5629499534213119 * 2 powi (- 49))"
    by (rule fl_near) simp_all
  moreover have "js_le (Fin 0) (fl (j * 10))"
    using assms(2) by (intro fl_nonneg) simp
  ultimately show ?thesis
    by (cases "fl (j * 10)") simp_all
qed

text \<open>The sum of rises of a history that rises by 5 from each sample to the next.\<close>

lemma add_rise:
  assumes "js_le (Fin l) acc" and "l' \<le> l + 5" and "fl l' = Fin l'"
  shows "js_le (Fin l') (js_add acc (Fin 5))"
proof (cases acc)
  case (Fin x)
  have "l' \<le> x + 5"
    using assms(1,2) Fin by simp
  then have "js_le (fl l') (fl (x + 5))"
    by (rule fl_mono)
  then show ?thesis
    using assms(3) Fin by simp
qed (use assms(1) in simp_all)

lemma fl_nat_small:
  assumes "n \<le> 100"
  shows "fl (real n) = Fin (real n)"
proof -
  have "\<bar>int n\<bar> < 2 ^ 53"
    using assms by simp
  then show ?thesis
    using fl_int [of "int n"] by simp
qed

lemma aggression_loop_d_ramp:
  "\<forall>k. Suc k < length arr \<longrightarrow> (\<exists>a. arr ! k = Fin a \<and> arr ! Suc k = Fin (a + 5)) \<Longrightarrow>
   1 \<le> i \<Longrightarrow> i \<le> length arr \<Longrightarrow> js_le (Fin (real (min (5 * (i - 1)) 50))) sumDelta \<Longrightarrow>
   js_le (Fin (real (min (5 * (length arr - 1)) 50))) (aggression_loop_d arr i sumDelta)"
proof (induction arr i sumDelta rule: aggression_loop_d.induct)
  case (1 arr i sumDelta)
  show ?case
  proof (cases "i < length arr")
    case False
    then have "i = length arr"
      using "1.prems"(3) by simp
    then show ?thesis
      using "1.prems"(4) by (subst aggression_loop_d.simps) simp
  next
    case True
    have "Suc (i - 1) < length arr"
      using True "1.prems"(2) by simp
    then obtain a where "arr ! (i - 1) = Fin a" and "arr ! Suc (i - 1) = Fin (a + 5)"
      using "1.prems"(1) by blast
    then have a: "arr ! (i - 1) = Fin a" "arr ! i = Fin (a + 5)"
      using "1.prems"(2) by simp_all
    have gt: "js_gt (arr ! i) (arr ! (i - 1))"
      unfolding a by (simp add: js_gt_def js_lt_def)
    have "fl 5 = Fin 5"
      using fl_int [of 5] by simp
    then have rise: "js_sub (arr ! i) (arr ! (i - 1)) = Fin 5"
      unfolding a by (simp add: js_sub_def)
    have "min (5 * (i + 1 - 1)) 50 \<le> min (5 * (i - 1)) 50 + 5"
      using "1.prems"(2) by arith
    then have "real (min (5 * (i + 1 - 1)) 50) \<le> real (min (5 * (i - 1)) 50 + 5)"
      by (rule of_nat_mono)
    then have "real (min (5 * (i + 1 - 1)) 50) \<le> real (min (5 * (i - 1)) 50) + 5"
      by simp
    moreover have "fl (real (min (5 * (i + 1 - 1)) 50)) = Fin (real (min (5 * (i + 1 - 1)) 50))"
      by (rule fl_nat_small) simp
    ultimately have step: "js_le (Fin (real (min (5 * (i + 1 - 1)) 50))) (js_add sumDelta (Fin 5))"
      using "1.prems"(4) by (intro add_rise)
    have acc: "(if js_gt (arr ! i) (arr ! (i - 1))
        then js_add sumDelta (js_sub (arr ! i) (arr ! (i - 1))) else sumDelta) =
        js_add sumDelta (Fin 5)"
      using gt rise by simp
    note IH = "1.IH" [OF True "1.prems"(1), unfolded acc]
    have "js_le (Fin (real (min (5 * (length arr - 1)) 50)))
        (aggression_loop_d arr (i + 1) (js_add sumDelta (Fin 5)))"
      by (rule IH) (use True step in simp_all)
    then show ?thesis
      using True acc by (subst aggression_loop_d.simps) simp
  qed
qed

lemma calculateAggression_d_ramp:
  assumes "11 \<le> length arr"
    and "\<forall>k. Suc k < length arr \<longrightarrow> (\<exists>a. arr ! k = Fin a \<and> arr ! Suc k = Fin (a + 5))"
  shows "calculateAggression_d arr = Fin 100"
proof -
  have "js_le (Fin (real (min (5 * (length arr - 1)) 50))) (aggression_loop_d arr 1 (Fin 0))"
    using assms by (intro aggression_loop_d_ramp) simp_all
  moreover have "min (5 * (length arr - 1)) 50 = 50"
    using assms(1) by simp
  ultimately have s: "js_le (Fin 50) (aggression_loop_d arr 1 (Fin 0))"
    by simp
  have "fl 100 = Fin 100"
    using fl_int [of 100] by simp
  have "js_le (Fin 100) (js_mul (aggression_loop_d arr 1 (Fin 0)) (Fin 2))"
  proof (cases "aggression_loop_d arr 1 (Fin 0)")
    case (Fin x)
    have "100 \<le> x * 2"
      using s Fin by simp
    then have "js_le (fl 100) (fl (x * 2))"
      by (rule fl_mono)
    then show ?thesis
      using Fin \<open>fl 100 = Fin 100\<close> by simp
  qed (use s in simp_all)
  then show ?thesis
    unfolding calculateAggression_d_def Math_min_def
    by (cases "js_mul (aggression_loop_d arr 1 (Fin 0)) (Fin 2)") simp_all
qed

lemma classify_d_cascade:
  "(fst (classify_d a spd vol draw), fst (snd (classify_d a spd vol draw))) =
     (if js_gt a (Fin 60) then (''AGGRESSIVE'', Fin 92)
      else if js_lt a (Fin 20) \<and> js_gt spd (Fin 30) then (''ECO - OPTIMAL'', Fin 96)
      else if js_gt vol (Fin 8) then (''ERRATIC'', Fin 78)
      else (''NORMAL'', js_add (Fin 85) (js_mul draw (Fin 10))))"
  by (simp add: classify_d_def)

text \<open>
  Claim C5. In double precision, the class and the confidence follow the cascade, first
  match first: aggression above 60 gives AGGRESSIVE with 92; otherwise aggression below 20
  with speed above 30 gives the eco class (the string \<^verbatim>\<open>ECO - OPTIMAL\<close>) with 96;
  otherwise a volatility, the square root of the variance divided by 100, above 8 gives
  ERRATIC with 78; otherwise NORMAL with 85 plus the jitter, ten times the random draw,
  which is in \<open>[0, 10)\<close> for every draw that is a double of \<open>[0, 1)\<close>. The reported
  confidence is the rounded one. A throttle history of at least 11 samples that rises by
  5 from each sample to the next has aggression 100 and is classified AGGRESSIVE with 92.
\<close>

theorem driver_classification_in_doubles:
  assumes "calculateVariance_d m (slice_last 20 (dh_rpm (d_history s))) = Inr v"
  shows "\<exists>res eng' confidence. runInference_d m eng s draw = Inr (res, eng') \<and>
    (r_type res, confidence) =
      (if js_gt (calculateAggression_d (dh_throttle (d_history s))) (Fin 60)
       then (''AGGRESSIVE'', Fin 92)
       else if js_lt (calculateAggression_d (dh_throttle (d_history s))) (Fin 20) \<and>
               js_gt (d_speed (d_state s)) (Fin 30)
       then (''ECO - OPTIMAL'', Fin 96)
       else if js_gt (js_div (m_sqrt m v) (Fin 100)) (Fin 8) then (''ERRATIC'', Fin 78)
       else (''NORMAL'', js_add (Fin 85) (js_mul draw (Fin 10)))) \<and>
    r_conf res = Math_round confidence \<and>
    (\<forall>j. draw = Fin j \<and> is_double j \<and> 0 \<le> j \<and> j < 1 \<longrightarrow>
       (\<exists>t. js_mul draw (Fin 10) = Fin t \<and> 0 \<le> t \<and> t < 10)) \<and>
    (11 \<le> length (dh_throttle (d_history s)) \<and>
     (\<forall>k. Suc k < length (dh_throttle (d_history s)) \<longrightarrow>
        (\<exists>a. dh_throttle (d_history s) ! k = Fin a \<and>
             dh_throttle (d_history s) ! Suc k = Fin (a + 5))) \<longrightarrow>
     calculateAggression_d (dh_throttle (d_history s)) = Fin 100 \<and>
     r_type res = ''AGGRESSIVE'' \<and> r_conf res = Fin 92)"
proof -
  let ?a = "calculateAggression_d (dh_throttle (d_history s))"
  let ?c = "classify_d ?a (d_speed (d_state s)) (js_div (m_sqrt m v) (Fin 100)) draw"
  obtain res where res: "runInference_d m eng s draw =
      Inr (res, eng\<lparr>d_rulKms := js_sub (d_rulKms eng)
                 (js_mul (js_mul (js_div (d_load (d_state s)) (Fin 100)) (Fin 2)) (fl 0.1))\<rparr>)"
    and ty: "r_type res = fst ?c"
    and co: "r_conf res = Math_round (fst (snd ?c))"
    using runInference_d_result [OF assms] by blast
  have cascade: "(r_type res, fst (snd ?c)) =
      (if js_gt ?a (Fin 60) then (''AGGRESSIVE'', Fin 92)
       else if js_lt ?a (Fin 20) \<and> js_gt (d_speed (d_state s)) (Fin 30)
       then (''ECO - OPTIMAL'', Fin 96)
       else if js_gt (js_div (m_sqrt m v) (Fin 100)) (Fin 8) then (''ERRATIC'', Fin 78)
       else (''NORMAL'', js_add (Fin 85) (js_mul draw (Fin 10))))"
    unfolding ty by (rule classify_d_cascade)
  have jitter: "\<forall>j. draw = Fin j \<and> is_double j \<and> 0 \<le> j \<and> j < 1 \<longrightarrow>
       (\<exists>t. js_mul draw (Fin 10) = Fin t \<and> 0 \<le> t \<and> t < 10)"
    using jitter_range by blast
  have ramp: "?a = Fin 100 \<and> r_type res = ''AGGRESSIVE'' \<and> r_conf res = Fin 92"
    if "11 \<le> length (dh_throttle (d_history s))"
      and "\<forall>k. Suc k < length (dh_throttle (d_history s)) \<longrightarrow>
        (\<exists>a. dh_throttle (d_history s) ! k = Fin a \<and>
             dh_throttle (d_history s) ! Suc k = Fin (a + 5))"
  proof -
    have a: "?a = Fin 100"
      using that by (rule calculateAggression_d_ramp)
    then show ?thesis
      using ty co by (simp add: classify_d_def js_gt_def js_lt_def)
  qed
  show ?thesis
    using res cascade co jitter ramp by blast
qed
lemma ramp_steps_d:
  "\<forall>k. Suc k < length (map (\<lambda>i. Fin (5 * real i)) [0..<n]) \<longrightarrow>
     (\<exists>a. map (\<lambda>i. Fin (5 * real i)) [0..<n] ! k = Fin a \<and>
          map (\<lambda>i. Fin (5 * real i)) [0..<n] ! Suc k = Fin (a + 5))"
  by (simp add: algebra_simps)

theorem driver_classification_in_doubles_witness:
  "(\<exists>v. calculateVariance_d rounding_math (slice_last 20 (dh_rpm (d_history
      (MockOBDSimulator_d\<lparr>d_history :=
         (d_history MockOBDSimulator_d)\<lparr>dh_throttle := map (\<lambda>i. Fin (5 * real i)) [0..<20]\<rparr>\<rparr>))))
      = Inr v) \<and>
   is_double (1/4) \<and> (0 :: real) \<le> 1/4 \<and> (1/4 :: real) < 1 \<and>
   (\<exists>t. js_mul (Fin (1/4)) (Fin 10) = Fin t \<and> 0 \<le> t \<and> t < 10) \<and>
   11 \<le> length (map (\<lambda>i. Fin (5 * real i)) [0..<20]) \<and>
   map (\<lambda>k. (map (\<lambda>i. Fin (5 * real i)) [0..<20] ! k, map (\<lambda>i. Fin (5 * real i)) [0..<20] ! Suc k))
     [0..<19] = map (\<lambda>k. (Fin (5 * real k), Fin (5 * real k + 5))) [0..<19] \<and>
   calculateAggression_d (map (\<lambda>i. Fin (5 * real i)) [0..<20]) = Fin 100 \<and>
   map_sum id (r_type \<circ> fst)
     (runInference_d rounding_math MLInferenceEngine_d
        (MockOBDSimulator_d\<lparr>d_history :=
           (d_history MockOBDSimulator_d)\<lparr>dh_throttle := map (\<lambda>i. Fin (5 * real i)) [0..<20]\<rparr>\<rparr>)
        (Fin (1/4))) = Inr ''AGGRESSIVE'' \<and>
   map_sum id (r_conf \<circ> fst)
     (runInference_d rounding_math MLInferenceEngine_d
        (MockOBDSimulator_d\<lparr>d_history :=
           (d_history MockOBDSimulator_d)\<lparr>dh_throttle := map (\<lambda>i. Fin (5 * real i)) [0..<20]\<rparr>\<rparr>)
        (Fin (1/4))) = Inr (Fin 92)"
proof -
  let ?ramp = "map (\<lambda>i. Fin (5 * real i)) [0..<20]"
  let ?s = "MockOBDSimulator_d\<lparr>d_history := (d_history MockOBDSimulator_d)\<lparr>dh_throttle := ?ramp\<rparr>\<rparr>"
  have ne: "dh_rpm (d_history ?s) \<noteq> []"
    by (simp add: MockOBDSimulator_d_def HISTORY_SIZE_def)
  obtain v where v:
      "calculateVariance_d rounding_math (slice_last 20 (dh_rpm (d_history ?s))) = Inr v"
    using runInference_d_returns [OF ne] by blast
  have "fl (of_int 1 * 2 powi (- 2)) = Fin (of_int 1 * 2 powi (- 2))"
    by (rule fl_exact) simp_all
  then have dbl: "is_double (1/4)"
    by (simp add: is_double_def power_int_minus)
  have len: "11 \<le> length ?ramp"
    by simp
  have steps: "\<forall>k. Suc k < length ?ramp \<longrightarrow>
      (\<exists>a. ?ramp ! k = Fin a \<and> ?ramp ! Suc k = Fin (a + 5))"
    by (rule ramp_steps_d)
  have th: "dh_throttle (d_history ?s) = ?ramp"
    by simp
  have pairs: "map (\<lambda>k. (?ramp ! k, ?ramp ! Suc k)) [0..<19] =
      map (\<lambda>k. (Fin (5 * real k), Fin (5 * real k + 5))) [0..<19]"
    by (rule map_cong) (simp_all add: algebra_simps del: upt_Suc)
  obtain res eng' where res:
      "runInference_d rounding_math MLInferenceEngine_d ?s (Fin (1/4)) = Inr (res, eng')"
    and jit: "\<forall>j. Fin (1/4) = Fin j \<and> is_double j \<and> 0 \<le> j \<and> j < 1 \<longrightarrow>
       (\<exists>t. js_mul (Fin (1/4)) (Fin 10) = Fin t \<and> 0 \<le> t \<and> t < 10)"
    and a: "calculateAggression_d ?ramp = Fin 100"
    and ty: "r_type res = ''AGGRESSIVE''" and co: "r_conf res = Fin 92"
    using len steps driver_classification_in_doubles [OF v, of MLInferenceEngine_d "Fin (1/4)"]
    unfolding th by blast
  have j: "\<exists>t. js_mul (Fin (1/4)) (Fin 10) = Fin t \<and> 0 \<le> t \<and> t < 10"
  proof -
    have "Fin (1/4) = Fin (1/4) \<and> is_double (1/4) \<and> (0 :: real) \<le> 1/4 \<and> (1/4 :: real) < 1"
      using dbl by simp
    then show ?thesis
      using jit by blast
  qed
  have r: "map_sum id (r_type \<circ> fst)
      (runInference_d rounding_math MLInferenceEngine_d ?s (Fin (1/4))) = Inr ''AGGRESSIVE''"
    "map_sum id (r_conf \<circ> fst)
      (runInference_d rounding_math MLInferenceEngine_d ?s (Fin (1/4))) = Inr (Fin 92)"
    unfolding res using ty co by simp_all
  have "\<exists>v. calculateVariance_d rounding_math (slice_last 20 (dh_rpm (d_history ?s))) = Inr v"
    using v by blast
  then show ?thesis
    using dbl j len pairs a r by simp
qed
section \<open>The variance of the rpm samples, in doubles\<close>

text \<open>
  Twenty samples 0.1: the sum is rounded upwards, so the mean is above every sample.
\<close>

lemma variance_of_tenths:
  "calculateVariance_d rounding_math
      [Fin (7205759403792794 / 2 ^ 56),
       Fin (7205759403792794 / 2 ^ 56),
       Fin (7205759403792794 / 2 ^ 56),
       Fin (7205759403792794 / 2 ^ 56),
       Fin (7205759403792794 / 2 ^ 56),
       Fin (7205759403792794 / 2 ^ 56),
       Fin (7205759403792794 / 2 ^ 56),
       Fin (7205759403792794 / 2 ^ 56),
       Fin (7205759403792794 / 2 ^ 56),
       Fin (7205759403792794 / 2 ^ 56),
       Fin (7205759403792794 / 2 ^ 56),
       Fin (7205759403792794 / 2 ^ 56),
       Fin (7205759403792794 / 2 ^ 56),
       Fin (7205759403792794 / 2 ^ 56),
       Fin (7205759403792794 / 2 ^ 56),
       Fin (7205759403792794 / 2 ^ 56),
       Fin (7205759403792794 / 2 ^ 56),
       Fin (7205759403792794 / 2 ^ 56),
       Fin (7205759403792794 / 2 ^ 56),
       Fin (7205759403792794 / 2 ^ 56)] =
   Inr (Fin (4503599627370496 / 2 ^ 164))"
proof -
  have "fl (7205759403792794 / 2 ^ 56 + (7205759403792794 / 2 ^ 56)) = Fin (of_int 7205759403792794 * 2 powi (- 55))"
    by (rule fl_near) simp_all
  then have s1: "js_add (Fin (7205759403792794 / 2 ^ 56)) (Fin (7205759403792794 / 2 ^ 56)) = Fin (7205759403792794 / 2 ^ 55)"
    by (simp add: js_sub_def)
  have "fl (7205759403792794 / 2 ^ 55 + (7205759403792794 / 2 ^ 56)) = Fin (of_int 5404319552844596 * 2 powi (- 54))"
    by (rule fl_tie) simp_all
  then have s2: "js_add (Fin (7205759403792794 / 2 ^ 55)) (Fin (7205759403792794 / 2 ^ 56)) = Fin (5404319552844596 / 2 ^ 54)"
    by (simp add: js_sub_def)
  have "fl (5404319552844596 / 2 ^ 54 + (7205759403792794 / 2 ^ 56)) = Fin (of_int 7205759403792794 * 2 powi (- 54))"
    by (rule fl_tie) simp_all
  then have s3: "js_add (Fin (5404319552844596 / 2 ^ 54)) (Fin (7205759403792794 / 2 ^ 56)) = Fin (7205759403792794 / 2 ^ 54)"
    by (simp add: js_sub_def)
  have "fl (7205759403792794 / 2 ^ 54 + (7205759403792794 / 2 ^ 56)) = Fin (of_int 4503599627370496 * 2 powi (- 53))"
    by (rule fl_near) simp_all
  then have s4: "js_add (Fin (7205759403792794 / 2 ^ 54)) (Fin (7205759403792794 / 2 ^ 56)) = Fin (4503599627370496 / 2 ^ 53)"
    by (simp add: js_sub_def)
  have "fl (4503599627370496 / 2 ^ 53 + (7205759403792794 / 2 ^ 56)) = Fin (of_int 5404319552844595 * 2 powi (- 53))"
    by (rule fl_near) simp_all
  then have s5: "js_add (Fin (4503599627370496 / 2 ^ 53)) (Fin (7205759403792794 / 2 ^ 56)) = Fin (5404319552844595 / 2 ^ 53)"
    by (simp add: js_sub_def)
  have "fl (5404319552844595 / 2 ^ 53 + (7205759403792794 / 2 ^ 56)) = Fin (of_int 6305039478318694 * 2 powi (- 53))"
    by (rule fl_near) simp_all
  then have s6: "js_add (Fin (5404319552844595 / 2 ^ 53)) (Fin (7205759403792794 / 2 ^ 56)) = Fin (6305039478318694 / 2 ^ 53)"
    by (simp add: js_sub_def)
  have "fl (6305039478318694 / 2 ^ 53 + (7205759403792794 / 2 ^ 56)) = Fin (of_int 7205759403792793 * 2 powi (- 53))"
    by (rule fl_near) simp_all
  then have s7: "js_add (Fin (6305039478318694 / 2 ^ 53)) (Fin (7205759403792794 / 2 ^ 56)) = Fin (7205759403792793 / 2 ^ 53)"
    by (simp add: js_sub_def)
  have "fl (7205759403792793 / 2 ^ 53 + (7205759403792794 / 2 ^ 56)) = Fin (of_int 8106479329266892 * 2 powi (- 53))"
    by (rule fl_near) simp_all
  then have s8: "js_add (Fin (7205759403792793 / 2 ^ 53)) (Fin (7205759403792794 / 2 ^ 56)) = Fin (8106479329266892 / 2 ^ 53)"
    by (simp add: js_sub_def)
  have "fl (8106479329266892 / 2 ^ 53 + (7205759403792794 / 2 ^ 56)) = Fin (of_int 9007199254740991 * 2 powi (- 53))"
    by (rule fl_near) simp_all
  then have s9: "js_add (Fin (8106479329266892 / 2 ^ 53)) (Fin (7205759403792794 / 2 ^ 56)) = Fin (9007199254740991 / 2 ^ 53)"
    by (simp add: js_sub_def)
  have "fl (9007199254740991 / 2 ^ 53 + (7205759403792794 / 2 ^ 56)) = Fin (of_int 4953959590107545 * 2 powi (- 52))"
    by (rule fl_near) simp_all
  then have s10: "js_add (Fin (9007199254740991 / 2 ^ 53)) (Fin (7205759403792794 / 2 ^ 56)) = Fin (4953959590107545 / 2 ^ 52)"
    by (simp add: js_sub_def)
  have "fl (4953959590107545 / 2 ^ 52 + (7205759403792794 / 2 ^ 56)) = Fin (of_int 5404319552844595 * 2 powi (- 52))"
    by (rule fl_near) simp_all
  then have s11: "js_add (Fin (4953959590107545 / 2 ^ 52)) (Fin (7205759403792794 / 2 ^ 56)) = Fin (5404319552844595 / 2 ^ 52)"
    by (simp add: js_sub_def)
  have "fl (5404319552844595 / 2 ^ 52 + (7205759403792794 / 2 ^ 56)) = Fin (of_int 5854679515581645 * 2 powi (- 52))"
    by (rule fl_near) simp_all
  then have s12: "js_add (Fin (5404319552844595 / 2 ^ 52)) (Fin (7205759403792794 / 2 ^ 56)) = Fin (5854679515581645 / 2 ^ 52)"
    by (simp add: js_sub_def)
  have "fl (5854679515581645 / 2 ^ 52 + (7205759403792794 / 2 ^ 56)) = Fin (of_int 6305039478318695 * 2 powi (- 52))"
    by (rule fl_near) simp_all
  then have s13: "js_add (Fin (5854679515581645 / 2 ^ 52)) (Fin (7205759403792794 / 2 ^ 56)) = Fin (6305039478318695 / 2 ^ 52)"
    by (simp add: js_sub_def)
  have "fl (6305039478318695 / 2 ^ 52 + (7205759403792794 / 2 ^ 56)) = Fin (of_int 6755399441055745 * 2 powi (- 52))"
    by (rule fl_near) simp_all
  then have s14: "js_add (Fin (6305039478318695 / 2 ^ 52)) (Fin (7205759403792794 / 2 ^ 56)) = Fin (6755399441055745 / 2 ^ 52)"
    by (simp add: js_sub_def)
  have "fl (6755399441055745 / 2 ^ 52 + (7205759403792794 / 2 ^ 56)) = Fin (of_int 7205759403792795 * 2 powi (- 52))"
    by (rule fl_near) simp_all
  then have s15: "js_add (Fin (6755399441055745 / 2 ^ 52)) (Fin (7205759403792794 / 2 ^ 56)) = Fin (7205759403792795 / 2 ^ 52)"
    by (simp add: js_sub_def)
  have "fl (7205759403792795 / 2 ^ 52 + (7205759403792794 / 2 ^ 56)) = Fin (of_int 7656119366529845 * 2 powi (- 52))"
    by (rule fl_near) simp_all
  then have s16: "js_add (Fin (7205759403792795 / 2 ^ 52)) (Fin (7205759403792794 / 2 ^ 56)) = Fin (7656119366529845 / 2 ^ 52)"
    by (simp add: js_sub_def)
  have "fl (7656119366529845 / 2 ^ 52 + (7205759403792794 / 2 ^ 56)) = Fin (of_int 8106479329266895 * 2 powi (- 52))"
    by (rule fl_near) simp_all
  then have s17: "js_add (Fin (7656119366529845 / 2 ^ 52)) (Fin (7205759403792794 / 2 ^ 56)) = Fin (8106479329266895 / 2 ^ 52)"
    by (simp add: js_sub_def)
  have "fl (8106479329266895 / 2 ^ 52 + (7205759403792794 / 2 ^ 56)) = Fin (of_int 8556839292003945 * 2 powi (- 52))"
    by (rule fl_near) simp_all
  then have s18: "js_add (Fin (8106479329266895 / 2 ^ 52)) (Fin (7205759403792794 / 2 ^ 56)) = Fin (8556839292003945 / 2 ^ 52)"
    by (simp add: js_sub_def)
  have "fl (8556839292003945 / 2 ^ 52 + (7205759403792794 / 2 ^ 56)) = Fin (of_int 4503599627370497 * 2 powi (- 51))"
    by (rule fl_near) simp_all
  then have s19: "js_add (Fin (8556839292003945 / 2 ^ 52)) (Fin (7205759403792794 / 2 ^ 56)) = Fin (4503599627370497 / 2 ^ 51)"
    by (simp add: js_sub_def)
  have "fl (4503599627370497 / 2 ^ 51 / (20)) = Fin (of_int 7205759403792795 * 2 powi (- 56))"
    by (rule fl_near) simp_all
  then have mean: "js_div (Fin (4503599627370497 / 2 ^ 51)) (Fin (20)) = Fin (7205759403792795 / 2 ^ 56)"
    by (simp add: js_sub_def)
  have "fl (7205759403792794 / 2 ^ 56 - (7205759403792795 / 2 ^ 56)) = Fin (of_int (- 4503599627370496) * 2 powi (- 108))"
    by (rule fl_near) simp_all
  then have d0: "js_sub (Fin (7205759403792794 / 2 ^ 56)) (Fin (7205759403792795 / 2 ^ 56)) = Fin (- (4503599627370496 / 2 ^ 108))"
    by (simp add: js_sub_def)
  have "fl (- (4503599627370496 / 2 ^ 108) * (- (4503599627370496 / 2 ^ 108))) = Fin (of_int 4503599627370496 * 2 powi (- 164))"
    by (rule fl_near) simp_all
  then have q0: "js_mul (Fin (- (4503599627370496 / 2 ^ 108))) (Fin (- (4503599627370496 / 2 ^ 108))) = Fin (4503599627370496 / 2 ^ 164)"
    by (simp add: js_sub_def)
  have "fl (0 + (4503599627370496 / 2 ^ 164)) = Fin (of_int 4503599627370496 * 2 powi (- 164))"
    by (rule fl_near) simp_all
  then have a1: "js_add (Fin (0)) (Fin (4503599627370496 / 2 ^ 164)) = Fin (4503599627370496 / 2 ^ 164)"
    by (simp add: js_sub_def)
  have "fl (4503599627370496 / 2 ^ 164 + (4503599627370496 / 2 ^ 164)) = Fin (of_int 4503599627370496 * 2 powi (- 163))"
    by (rule fl_near) simp_all
  then have a2: "js_add (Fin (4503599627370496 / 2 ^ 164)) (Fin (4503599627370496 / 2 ^ 164)) = Fin (4503599627370496 / 2 ^ 163)"
    by (simp add: js_sub_def)
  have "fl (4503599627370496 / 2 ^ 163 + (4503599627370496 / 2 ^ 164)) = Fin (of_int 6755399441055744 * 2 powi (- 163))"
    by (rule fl_near) simp_all
  then have a3: "js_add (Fin (4503599627370496 / 2 ^ 163)) (Fin (4503599627370496 / 2 ^ 164)) = Fin (6755399441055744 / 2 ^ 163)"
    by (simp add: js_sub_def)
  have "fl (6755399441055744 / 2 ^ 163 + (4503599627370496 / 2 ^ 164)) = Fin (of_int 4503599627370496 * 2 powi (- 162))"
    by (rule fl_near) simp_all
  then have a4: "js_add (Fin (6755399441055744 / 2 ^ 163)) (Fin (4503599627370496 / 2 ^ 164)) = Fin (4503599627370496 / 2 ^ 162)"
    by (simp add: js_sub_def)
  have "fl (4503599627370496 / 2 ^ 162 + (4503599627370496 / 2 ^ 164)) = Fin (of_int 5629499534213120 * 2 powi (- 162))"
    by (rule fl_near) simp_all
  then have a5: "js_add (Fin (4503599627370496 / 2 ^ 162)) (Fin (4503599627370496 / 2 ^ 164)) = Fin (5629499534213120 / 2 ^ 162)"
    by (simp add: js_sub_def)
  have "fl (5629499534213120 / 2 ^ 162 + (4503599627370496 / 2 ^ 164)) = Fin (of_int 6755399441055744 * 2 powi (- 162))"
    by (rule fl_near) simp_all
  then have a6: "js_add (Fin (5629499534213120 / 2 ^ 162)) (Fin (4503599627370496 / 2 ^ 164)) = Fin (6755399441055744 / 2 ^ 162)"
    by (simp add: js_sub_def)
  have "fl (6755399441055744 / 2 ^ 162 + (4503599627370496 / 2 ^ 164)) = Fin (of_int 7881299347898368 * 2 powi (- 162))"
    by (rule fl_near) simp_all
  then have a7: "js_add (Fin (6755399441055744 / 2 ^ 162)) (Fin (4503599627370496 / 2 ^ 164)) = Fin (7881299347898368 / 2 ^ 162)"
    by (simp add: js_sub_def)
  have "fl (7881299347898368 / 2 ^ 162 + (4503599627370496 / 2 ^ 164)) = Fin (of_int 4503599627370496 * 2 powi (- 161))"
    by (rule fl_near) simp_all
  then have a8: "js_add (Fin (7881299347898368 / 2 ^ 162)) (Fin (4503599627370496 / 2 ^ 164)) = Fin (4503599627370496 / 2 ^ 161)"
    by (simp add: js_sub_def)
  have "fl (4503599627370496 / 2 ^ 161 + (4503599627370496 / 2 ^ 164)) = Fin (of_int 5066549580791808 * 2 powi (- 161))"
    by (rule fl_near) simp_all
  then have a9: "js_add (Fin (4503599627370496 / 2 ^ 161)) (Fin (4503599627370496 / 2 ^ 164)) = Fin (5066549580791808 / 2 ^ 161)"
    by (simp add: js_sub_def)
  have "fl (5066549580791808 / 2 ^ 161 + (4503599627370496 / 2 ^ 164)) = Fin (of_int 5629499534213120 * 2 powi (- 161))"
    by (rule fl_near) simp_all
  then have a10: "js_add (Fin (5066549580791808 / 2 ^ 161)) (Fin (4503599627370496 / 2 ^ 164)) = Fin (5629499534213120 / 2 ^ 161)"
    by (simp add: js_sub_def)
  have "fl (5629499534213120 / 2 ^ 161 + (4503599627370496 / 2 ^ 164)) = Fin (of_int 6192449487634432 * 2 powi (- 161))"
    by (rule fl_near) simp_all
  then have a11: "js_add (Fin (5629499534213120 / 2 ^ 161)) (Fin (4503599627370496 / 2 ^ 164)) = Fin (6192449487634432 / 2 ^ 161)"
    by (simp add: js_sub_def)
  have "fl (6192449487634432 / 2 ^ 161 + (4503599627370496 / 2 ^ 164)) = Fin (of_int 6755399441055744 * 2 powi (- 161))"
    by (rule fl_near) simp_all
  then have a12: "js_add (Fin (6192449487634432 / 2 ^ 161)) (Fin (4503599627370496 / 2 ^ 164)) = Fin (6755399441055744 / 2 ^ 161)"
    by (simp add: js_sub_def)
  have "fl (6755399441055744 / 2 ^ 161 + (4503599627370496 / 2 ^ 164)) = Fin (of_int 7318349394477056 * 2 powi (- 161))"
    by (rule fl_near) simp_all
  then have a13: "js_add (Fin (6755399441055744 / 2 ^ 161)) (Fin (4503599627370496 / 2 ^ 164)) = Fin (7318349394477056 / 2 ^ 161)"
    by (simp add: js_sub_def)
  have "fl (7318349394477056 / 2 ^ 161 + (4503599627370496 / 2 ^ 164)) = Fin (of_int 7881299347898368 * 2 powi (- 161))"
    by (rule fl_near) simp_all
  then have a14: "js_add (Fin (7318349394477056 / 2 ^ 161)) (Fin (4503599627370496 / 2 ^ 164)) = Fin (7881299347898368 / 2 ^ 161)"
    by (simp add: js_sub_def)
  have "fl (7881299347898368 / 2 ^ 161 + (4503599627370496 / 2 ^ 164)) = Fin (of_int 8444249301319680 * 2 powi (- 161))"
    by (rule fl_near) simp_all
  then have a15: "js_add (Fin (7881299347898368 / 2 ^ 161)) (Fin (4503599627370496 / 2 ^ 164)) = Fin (8444249301319680 / 2 ^ 161)"
    by (simp add: js_sub_def)
  have "fl (8444249301319680 / 2 ^ 161 + (4503599627370496 / 2 ^ 164)) = Fin (of_int 4503599627370496 * 2 powi (- 160))"
    by (rule fl_near) simp_all
  then have a16: "js_add (Fin (8444249301319680 / 2 ^ 161)) (Fin (4503599627370496 / 2 ^ 164)) = Fin (4503599627370496 / 2 ^ 160)"
    by (simp add: js_sub_def)
  have "fl (4503599627370496 / 2 ^ 160 + (4503599627370496 / 2 ^ 164)) = Fin (of_int 4785074604081152 * 2 powi (- 160))"
    by (rule fl_near) simp_all
  then have a17: "js_add (Fin (4503599627370496 / 2 ^ 160)) (Fin (4503599627370496 / 2 ^ 164)) = Fin (4785074604081152 / 2 ^ 160)"
    by (simp add: js_sub_def)
  have "fl (4785074604081152 / 2 ^ 160 + (4503599627370496 / 2 ^ 164)) = Fin (of_int 5066549580791808 * 2 powi (- 160))"
    by (rule fl_near) simp_all
  then have a18: "js_add (Fin (4785074604081152 / 2 ^ 160)) (Fin (4503599627370496 / 2 ^ 164)) = Fin (5066549580791808 / 2 ^ 160)"
    by (simp add: js_sub_def)
  have "fl (5066549580791808 / 2 ^ 160 + (4503599627370496 / 2 ^ 164)) = Fin (of_int 5348024557502464 * 2 powi (- 160))"
    by (rule fl_near) simp_all
  then have a19: "js_add (Fin (5066549580791808 / 2 ^ 160)) (Fin (4503599627370496 / 2 ^ 164)) = Fin (5348024557502464 / 2 ^ 160)"
    by (simp add: js_sub_def)
  have "fl (5348024557502464 / 2 ^ 160 + (4503599627370496 / 2 ^ 164)) = Fin (of_int 5629499534213120 * 2 powi (- 160))"
    by (rule fl_near) simp_all
  then have a20: "js_add (Fin (5348024557502464 / 2 ^ 160)) (Fin (4503599627370496 / 2 ^ 164)) = Fin (5629499534213120 / 2 ^ 160)"
    by (simp add: js_sub_def)
  have "fl (5629499534213120 / 2 ^ 160 / (20)) = Fin (of_int 4503599627370496 * 2 powi (- 164))"
    by (rule fl_near) simp_all
  then have v: "js_div (Fin (5629499534213120 / 2 ^ 160)) (Fin (20)) = Fin (4503599627370496 / 2 ^ 164)"
    by (simp add: js_sub_def)
  have len: "real (length
      [Fin (7205759403792794 / 2 ^ 56),
       Fin (7205759403792794 / 2 ^ 56),
       Fin (7205759403792794 / 2 ^ 56),
       Fin (7205759403792794 / 2 ^ 56),
       Fin (7205759403792794 / 2 ^ 56),
       Fin (7205759403792794 / 2 ^ 56),
       Fin (7205759403792794 / 2 ^ 56),
       Fin (7205759403792794 / 2 ^ 56),
       Fin (7205759403792794 / 2 ^ 56),
       Fin (7205759403792794 / 2 ^ 56),
       Fin (7205759403792794 / 2 ^ 56),
       Fin (7205759403792794 / 2 ^ 56),
       Fin (7205759403792794 / 2 ^ 56),
       Fin (7205759403792794 / 2 ^ 56),
       Fin (7205759403792794 / 2 ^ 56),
       Fin (7205759403792794 / 2 ^ 56),
       Fin (7205759403792794 / 2 ^ 56),
       Fin (7205759403792794 / 2 ^ 56),
       Fin (7205759403792794 / 2 ^ 56),
       Fin (7205759403792794 / 2 ^ 56)]) = 20"
    by simp
  have sq: "m_square rounding_math = (\<lambda>x. js_mul x x)"
    by (simp add: rounding_math_def)
  show ?thesis
    unfolding calculateVariance_d_def reduce_add_d_def Let_def list.case sum.case sq len
      foldl_Cons foldl_Nil s1 s2 s3 s4 s5 s6 s7 s8 s9 s10 s11 s12 s13 s14 s15 s16 s17 s18 s19 mean d0 q0 a1 a2 a3 a4 a5 a6 a7 a8 a9 a10 a11 a12 a13 a14 a15 a16 a17 a18 a19 a20 v ..
qed

text \<open>
  Ten samples 2357.2, five 2457.2 and five 2257.2; the doubles of these literals differ
  by 100 exactly.
\<close>

lemma variance_at_threshold:
  "calculateVariance_d rounding_math
      [Fin (5183537617987174 / 2 ^ 41),
       Fin (5183537617987174 / 2 ^ 41),
       Fin (5183537617987174 / 2 ^ 41),
       Fin (5183537617987174 / 2 ^ 41),
       Fin (5183537617987174 / 2 ^ 41),
       Fin (5183537617987174 / 2 ^ 41),
       Fin (5183537617987174 / 2 ^ 41),
       Fin (5183537617987174 / 2 ^ 41),
       Fin (5183537617987174 / 2 ^ 41),
       Fin (5183537617987174 / 2 ^ 41),
       Fin (5403439943542374 / 2 ^ 41),
       Fin (5403439943542374 / 2 ^ 41),
       Fin (5403439943542374 / 2 ^ 41),
       Fin (5403439943542374 / 2 ^ 41),
       Fin (5403439943542374 / 2 ^ 41),
       Fin (4963635292431974 / 2 ^ 41),
       Fin (4963635292431974 / 2 ^ 41),
       Fin (4963635292431974 / 2 ^ 41),
       Fin (4963635292431974 / 2 ^ 41),
       Fin (4963635292431974 / 2 ^ 41)] =
   Inr (Fin (5497558138880001 / 2 ^ 40))"
proof -
  have "fl (5183537617987174 / 2 ^ 41 + (5183537617987174 / 2 ^ 41)) = Fin (of_int 5183537617987174 * 2 powi (- 40))"
    by (rule fl_near) simp_all
  then have s1: "js_add (Fin (5183537617987174 / 2 ^ 41)) (Fin (5183537617987174 / 2 ^ 41)) = Fin (5183537617987174 / 2 ^ 40)"
    by (simp add: js_sub_def)
  have "fl (5183537617987174 / 2 ^ 40 + (5183537617987174 / 2 ^ 41)) = Fin (of_int 7775306426980761 * 2 powi (- 40))"
    by (rule fl_near) simp_all
  then have s2: "js_add (Fin (5183537617987174 / 2 ^ 40)) (Fin (5183537617987174 / 2 ^ 41)) = Fin (7775306426980761 / 2 ^ 40)"
    by (simp add: js_sub_def)
  have "fl (7775306426980761 / 2 ^ 40 + (5183537617987174 / 2 ^ 41)) = Fin (of_int 5183537617987174 * 2 powi (- 39))"
    by (rule fl_near) simp_all
  then have s3: "js_add (Fin (7775306426980761 / 2 ^ 40)) (Fin (5183537617987174 / 2 ^ 41)) = Fin (5183537617987174 / 2 ^ 39)"
    by (simp add: js_sub_def)
  have "fl (5183537617987174 / 2 ^ 39 + (5183537617987174 / 2 ^ 41)) = Fin (of_int 6479422022483968 * 2 powi (- 39))"
    by (rule fl_tie) simp_all
  then have s4: "js_add (Fin (5183537617987174 / 2 ^ 39)) (Fin (5183537617987174 / 2 ^ 41)) = Fin (11786)"
    by (simp add: js_sub_def)
  have "fl (11786 + (5183537617987174 / 2 ^ 41)) = Fin (of_int 7775306426980762 * 2 powi (- 39))"
    by (rule fl_tie) simp_all
  then have s5: "js_add (Fin (11786)) (Fin (5183537617987174 / 2 ^ 41)) = Fin (7775306426980762 / 2 ^ 39)"
    by (simp add: js_sub_def)
  have "fl (7775306426980762 / 2 ^ 39 + (5183537617987174 / 2 ^ 41)) = Fin (of_int 4535595415738778 * 2 powi (- 38))"
    by (rule fl_near) simp_all
  then have s6: "js_add (Fin (7775306426980762 / 2 ^ 39)) (Fin (5183537617987174 / 2 ^ 41)) = Fin (4535595415738778 / 2 ^ 38)"
    by (simp add: js_sub_def)
  have "fl (4535595415738778 / 2 ^ 38 + (5183537617987174 / 2 ^ 41)) = Fin (of_int 5183537617987175 * 2 powi (- 38))"
    by (rule fl_near) simp_all
  then have s7: "js_add (Fin (4535595415738778 / 2 ^ 38)) (Fin (5183537617987174 / 2 ^ 41)) = Fin (5183537617987175 / 2 ^ 38)"
    by (simp add: js_sub_def)
  have "fl (5183537617987175 / 2 ^ 38 + (5183537617987174 / 2 ^ 41)) = Fin (of_int 5831479820235572 * 2 powi (- 38))"
    by (rule fl_near) simp_all
  then have s8: "js_add (Fin (5183537617987175 / 2 ^ 38)) (Fin (5183537617987174 / 2 ^ 41)) = Fin (5831479820235572 / 2 ^ 38)"
    by (simp add: js_sub_def)
  have "fl (5831479820235572 / 2 ^ 38 + (5183537617987174 / 2 ^ 41)) = Fin (of_int 6479422022483969 * 2 powi (- 38))"
    by (rule fl_near) simp_all
  then have s9: "js_add (Fin (5831479820235572 / 2 ^ 38)) (Fin (5183537617987174 / 2 ^ 41)) = Fin (6479422022483969 / 2 ^ 38)"
    by (simp add: js_sub_def)
  have "fl (6479422022483969 / 2 ^ 38 + (5403439943542374 / 2 ^ 41)) = Fin (of_int 7154852015426766 * 2 powi (- 38))"
    by (rule fl_near) simp_all
  then have s10: "js_add (Fin (6479422022483969 / 2 ^ 38)) (Fin (5403439943542374 / 2 ^ 41)) = Fin (7154852015426766 / 2 ^ 38)"
    by (simp add: js_sub_def)
  have "fl (7154852015426766 / 2 ^ 38 + (5403439943542374 / 2 ^ 41)) = Fin (of_int 7830282008369563 * 2 powi (- 38))"
    by (rule fl_near) simp_all
  then have s11: "js_add (Fin (7154852015426766 / 2 ^ 38)) (Fin (5403439943542374 / 2 ^ 41)) = Fin (7830282008369563 / 2 ^ 38)"
    by (simp add: js_sub_def)
  have "fl (7830282008369563 / 2 ^ 38 + (5403439943542374 / 2 ^ 41)) = Fin (of_int 8505712001312360 * 2 powi (- 38))"
    by (rule fl_near) simp_all
  then have s12: "js_add (Fin (7830282008369563 / 2 ^ 38)) (Fin (5403439943542374 / 2 ^ 41)) = Fin (8505712001312360 / 2 ^ 38)"
    by (simp add: js_sub_def)
  have "fl (8505712001312360 / 2 ^ 38 + (5403439943542374 / 2 ^ 41)) = Fin (of_int 4590570997127578 * 2 powi (- 37))"
    by (rule fl_near) simp_all
  then have s13: "js_add (Fin (8505712001312360 / 2 ^ 38)) (Fin (5403439943542374 / 2 ^ 41)) = Fin (4590570997127578 / 2 ^ 37)"
    by (simp add: js_sub_def)
  have "fl (4590570997127578 / 2 ^ 37 + (5403439943542374 / 2 ^ 41)) = Fin (of_int 4928285993598976 * 2 powi (- 37))"
    by (rule fl_near) simp_all
  then have s14: "js_add (Fin (4590570997127578 / 2 ^ 37)) (Fin (5403439943542374 / 2 ^ 41)) = Fin (35858)"
    by (simp add: js_sub_def)
  have "fl (35858 + (4963635292431974 / 2 ^ 41)) = Fin (of_int 5238513199375974 * 2 powi (- 37))"
    by (rule fl_near) simp_all
  then have s15: "js_add (Fin (35858)) (Fin (4963635292431974 / 2 ^ 41)) = Fin (5238513199375974 / 2 ^ 37)"
    by (simp add: js_sub_def)
  have "fl (5238513199375974 / 2 ^ 37 + (4963635292431974 / 2 ^ 41)) = Fin (of_int 5548740405152972 * 2 powi (- 37))"
    by (rule fl_near) simp_all
  then have s16: "js_add (Fin (5238513199375974 / 2 ^ 37)) (Fin (4963635292431974 / 2 ^ 41)) = Fin (5548740405152972 / 2 ^ 37)"
    by (simp add: js_sub_def)
  have "fl (5548740405152972 / 2 ^ 37 + (4963635292431974 / 2 ^ 41)) = Fin (of_int 5858967610929970 * 2 powi (- 37))"
    by (rule fl_near) simp_all
  then have s17: "js_add (Fin (5548740405152972 / 2 ^ 37)) (Fin (4963635292431974 / 2 ^ 41)) = Fin (5858967610929970 / 2 ^ 37)"
    by (simp add: js_sub_def)
  have "fl (5858967610929970 / 2 ^ 37 + (4963635292431974 / 2 ^ 41)) = Fin (of_int 6169194816706968 * 2 powi (- 37))"
    by (rule fl_near) simp_all
  then have s18: "js_add (Fin (5858967610929970 / 2 ^ 37)) (Fin (4963635292431974 / 2 ^ 41)) = Fin (6169194816706968 / 2 ^ 37)"
    by (simp add: js_sub_def)
  have "fl (6169194816706968 / 2 ^ 37 + (4963635292431974 / 2 ^ 41)) = Fin (of_int 6479422022483966 * 2 powi (- 37))"
    by (rule fl_near) simp_all
  then have s19: "js_add (Fin (6169194816706968 / 2 ^ 37)) (Fin (4963635292431974 / 2 ^ 41)) = Fin (6479422022483966 / 2 ^ 37)"
    by (simp add: js_sub_def)
  have "fl (6479422022483966 / 2 ^ 37 / (20)) = Fin (of_int 5183537617987173 * 2 powi (- 41))"
    by (rule fl_near) simp_all
  then have mean: "js_div (Fin (6479422022483966 / 2 ^ 37)) (Fin (20)) = Fin (5183537617987173 / 2 ^ 41)"
    by (simp add: js_sub_def)
  have "fl (5183537617987174 / 2 ^ 41 - (5183537617987173 / 2 ^ 41)) = Fin (of_int 4503599627370496 * 2 powi (- 93))"
    by (rule fl_near) simp_all
  then have d0: "js_sub (Fin (5183537617987174 / 2 ^ 41)) (Fin (5183537617987173 / 2 ^ 41)) = Fin (4503599627370496 / 2 ^ 93)"
    by (simp add: js_sub_def)
  have "fl (4503599627370496 / 2 ^ 93 * (4503599627370496 / 2 ^ 93)) = Fin (of_int 4503599627370496 * 2 powi (- 134))"
    by (rule fl_near) simp_all
  then have q0: "js_mul (Fin (4503599627370496 / 2 ^ 93)) (Fin (4503599627370496 / 2 ^ 93)) = Fin (4503599627370496 / 2 ^ 134)"
    by (simp add: js_sub_def)
  have "fl (5403439943542374 / 2 ^ 41 - (5183537617987173 / 2 ^ 41)) = Fin (of_int 7036874417766432 * 2 powi (- 46))"
    by (rule fl_near) simp_all
  then have d1: "js_sub (Fin (5403439943542374 / 2 ^ 41)) (Fin (5183537617987173 / 2 ^ 41)) = Fin (7036874417766432 / 2 ^ 46)"
    by (simp add: js_sub_def)
  have "fl (7036874417766432 / 2 ^ 46 * (7036874417766432 / 2 ^ 46)) = Fin (of_int 5497558138880050 * 2 powi (- 39))"
    by (rule fl_near) simp_all
  then have q1: "js_mul (Fin (7036874417766432 / 2 ^ 46)) (Fin (7036874417766432 / 2 ^ 46)) = Fin (5497558138880050 / 2 ^ 39)"
    by (simp add: js_sub_def)
  have "fl (4963635292431974 / 2 ^ 41 - (5183537617987173 / 2 ^ 41)) = Fin (of_int (- 7036874417766368) * 2 powi (- 46))"
    by (rule fl_near) simp_all
  then have d2: "js_sub (Fin (4963635292431974 / 2 ^ 41)) (Fin (5183537617987173 / 2 ^ 41)) = Fin (- (7036874417766368 / 2 ^ 46))"
    by (simp add: js_sub_def)
  have "fl (- (7036874417766368 / 2 ^ 46) * (- (7036874417766368 / 2 ^ 46))) = Fin (of_int 5497558138879950 * 2 powi (- 39))"
    by (rule fl_near) simp_all
  then have q2: "js_mul (Fin (- (7036874417766368 / 2 ^ 46))) (Fin (- (7036874417766368 / 2 ^ 46))) = Fin (5497558138879950 / 2 ^ 39)"
    by (simp add: js_sub_def)
  have "fl (0 + (4503599627370496 / 2 ^ 134)) = Fin (of_int 4503599627370496 * 2 powi (- 134))"
    by (rule fl_near) simp_all
  then have a1: "js_add (Fin (0)) (Fin (4503599627370496 / 2 ^ 134)) = Fin (4503599627370496 / 2 ^ 134)"
    by (simp add: js_sub_def)
  have "fl (4503599627370496 / 2 ^ 134 + (4503599627370496 / 2 ^ 134)) = Fin (of_int 4503599627370496 * 2 powi (- 133))"
    by (rule fl_near) simp_all
  then have a2: "js_add (Fin (4503599627370496 / 2 ^ 134)) (Fin (4503599627370496 / 2 ^ 134)) = Fin (4503599627370496 / 2 ^ 133)"
    by (simp add: js_sub_def)
  have "fl (4503599627370496 / 2 ^ 133 + (4503599627370496 / 2 ^ 134)) = Fin (of_int 6755399441055744 * 2 powi (- 133))"
    by (rule fl_near) simp_all
  then have a3: "js_add (Fin (4503599627370496 / 2 ^ 133)) (Fin (4503599627370496 / 2 ^ 134)) = Fin (6755399441055744 / 2 ^ 133)"
    by (simp add: js_sub_def)
  have "fl (6755399441055744 / 2 ^ 133 + (4503599627370496 / 2 ^ 134)) = Fin (of_int 4503599627370496 * 2 powi (- 132))"
    by (rule fl_near) simp_all
  then have a4: "js_add (Fin (6755399441055744 / 2 ^ 133)) (Fin (4503599627370496 / 2 ^ 134)) = Fin (4503599627370496 / 2 ^ 132)"
    by (simp add: js_sub_def)
  have "fl (4503599627370496 / 2 ^ 132 + (4503599627370496 / 2 ^ 134)) = Fin (of_int 5629499534213120 * 2 powi (- 132))"
    by (rule fl_near) simp_all
  then have a5: "js_add (Fin (4503599627370496 / 2 ^ 132)) (Fin (4503599627370496 / 2 ^ 134)) = Fin (5629499534213120 / 2 ^ 132)"
    by (simp add: js_sub_def)
  have "fl (5629499534213120 / 2 ^ 132 + (4503599627370496 / 2 ^ 134)) = Fin (of_int 6755399441055744 * 2 powi (- 132))"
    by (rule fl_near) simp_all
  then have a6: "js_add (Fin (5629499534213120 / 2 ^ 132)) (Fin (4503599627370496 / 2 ^ 134)) = Fin (6755399441055744 / 2 ^ 132)"
    by (simp add: js_sub_def)
  have "fl (6755399441055744 / 2 ^ 132 + (4503599627370496 / 2 ^ 134)) = Fin (of_int 7881299347898368 * 2 powi (- 132))"
    by (rule fl_near) simp_all
  then have a7: "js_add (Fin (6755399441055744 / 2 ^ 132)) (Fin (4503599627370496 / 2 ^ 134)) = Fin (7881299347898368 / 2 ^ 132)"
    by (simp add: js_sub_def)
  have "fl (7881299347898368 / 2 ^ 132 + (4503599627370496 / 2 ^ 134)) = Fin (of_int 4503599627370496 * 2 powi (- 131))"
    by (rule fl_near) simp_all
  then have a8: "js_add (Fin (7881299347898368 / 2 ^ 132)) (Fin (4503599627370496 / 2 ^ 134)) = Fin (4503599627370496 / 2 ^ 131)"
    by (simp add: js_sub_def)
  have "fl (4503599627370496 / 2 ^ 131 + (4503599627370496 / 2 ^ 134)) = Fin (of_int 5066549580791808 * 2 powi (- 131))"
    by (rule fl_near) simp_all
  then have a9: "js_add (Fin (4503599627370496 / 2 ^ 131)) (Fin (4503599627370496 / 2 ^ 134)) = Fin (5066549580791808 / 2 ^ 131)"
    by (simp add: js_sub_def)
  have "fl (5066549580791808 / 2 ^ 131 + (4503599627370496 / 2 ^ 134)) = Fin (of_int 5629499534213120 * 2 powi (- 131))"
    by (rule fl_near) simp_all
  then have a10: "js_add (Fin (5066549580791808 / 2 ^ 131)) (Fin (4503599627370496 / 2 ^ 134)) = Fin (5629499534213120 / 2 ^ 131)"
    by (simp add: js_sub_def)
  have "fl (5629499534213120 / 2 ^ 131 + (5497558138880050 / 2 ^ 39)) = Fin (of_int 5497558138880050 * 2 powi (- 39))"
    by (rule fl_near) simp_all
  then have a11: "js_add (Fin (5629499534213120 / 2 ^ 131)) (Fin (5497558138880050 / 2 ^ 39)) = Fin (5497558138880050 / 2 ^ 39)"
    by (simp add: js_sub_def)
  have "fl (5497558138880050 / 2 ^ 39 + (5497558138880050 / 2 ^ 39)) = Fin (of_int 5497558138880050 * 2 powi (- 38))"
    by (rule fl_near) simp_all
  then have a12: "js_add (Fin (5497558138880050 / 2 ^ 39)) (Fin (5497558138880050 / 2 ^ 39)) = Fin (5497558138880050 / 2 ^ 38)"
    by (simp add: js_sub_def)
  have "fl (5497558138880050 / 2 ^ 38 + (5497558138880050 / 2 ^ 39)) = Fin (of_int 8246337208320075 * 2 powi (- 38))"
    by (rule fl_near) simp_all
  then have a13: "js_add (Fin (5497558138880050 / 2 ^ 38)) (Fin (5497558138880050 / 2 ^ 39)) = Fin (8246337208320075 / 2 ^ 38)"
    by (simp add: js_sub_def)
  have "fl (8246337208320075 / 2 ^ 38 + (5497558138880050 / 2 ^ 39)) = Fin (of_int 5497558138880050 * 2 powi (- 37))"
    by (rule fl_near) simp_all
  then have a14: "js_add (Fin (8246337208320075 / 2 ^ 38)) (Fin (5497558138880050 / 2 ^ 39)) = Fin (5497558138880050 / 2 ^ 37)"
    by (simp add: js_sub_def)
  have "fl (5497558138880050 / 2 ^ 37 + (5497558138880050 / 2 ^ 39)) = Fin (of_int 6871947673600062 * 2 powi (- 37))"
    by (rule fl_tie) simp_all
  then have a15: "js_add (Fin (5497558138880050 / 2 ^ 37)) (Fin (5497558138880050 / 2 ^ 39)) = Fin (6871947673600062 / 2 ^ 37)"
    by (simp add: js_sub_def)
  have "fl (6871947673600062 / 2 ^ 37 + (5497558138879950 / 2 ^ 39)) = Fin (of_int 8246337208320050 * 2 powi (- 37))"
    by (rule fl_tie) simp_all
  then have a16: "js_add (Fin (6871947673600062 / 2 ^ 37)) (Fin (5497558138879950 / 2 ^ 39)) = Fin (8246337208320050 / 2 ^ 37)"
    by (simp add: js_sub_def)
  have "fl (8246337208320050 / 2 ^ 37 + (5497558138879950 / 2 ^ 39)) = Fin (of_int 4810363371520019 * 2 powi (- 36))"
    by (rule fl_near) simp_all
  then have a17: "js_add (Fin (8246337208320050 / 2 ^ 37)) (Fin (5497558138879950 / 2 ^ 39)) = Fin (4810363371520019 / 2 ^ 36)"
    by (simp add: js_sub_def)
  have "fl (4810363371520019 / 2 ^ 36 + (5497558138879950 / 2 ^ 39)) = Fin (of_int 5497558138880013 * 2 powi (- 36))"
    by (rule fl_near) simp_all
  then have a18: "js_add (Fin (4810363371520019 / 2 ^ 36)) (Fin (5497558138879950 / 2 ^ 39)) = Fin (5497558138880013 / 2 ^ 36)"
    by (simp add: js_sub_def)
  have "fl (5497558138880013 / 2 ^ 36 + (5497558138879950 / 2 ^ 39)) = Fin (of_int 6184752906240007 * 2 powi (- 36))"
    by (rule fl_near) simp_all
  then have a19: "js_add (Fin (5497558138880013 / 2 ^ 36)) (Fin (5497558138879950 / 2 ^ 39)) = Fin (6184752906240007 / 2 ^ 36)"
    by (simp add: js_sub_def)
  have "fl (6184752906240007 / 2 ^ 36 + (5497558138879950 / 2 ^ 39)) = Fin (of_int 6871947673600001 * 2 powi (- 36))"
    by (rule fl_near) simp_all
  then have a20: "js_add (Fin (6184752906240007 / 2 ^ 36)) (Fin (5497558138879950 / 2 ^ 39)) = Fin (6871947673600001 / 2 ^ 36)"
    by (simp add: js_sub_def)
  have "fl (6871947673600001 / 2 ^ 36 / (20)) = Fin (of_int 5497558138880001 * 2 powi (- 40))"
    by (rule fl_near) simp_all
  then have v: "js_div (Fin (6871947673600001 / 2 ^ 36)) (Fin (20)) = Fin (5497558138880001 / 2 ^ 40)"
    by (simp add: js_sub_def)
  have len: "real (length
      [Fin (5183537617987174 / 2 ^ 41),
       Fin (5183537617987174 / 2 ^ 41),
       Fin (5183537617987174 / 2 ^ 41),
       Fin (5183537617987174 / 2 ^ 41),
       Fin (5183537617987174 / 2 ^ 41),
       Fin (5183537617987174 / 2 ^ 41),
       Fin (5183537617987174 / 2 ^ 41),
       Fin (5183537617987174 / 2 ^ 41),
       Fin (5183537617987174 / 2 ^ 41),
       Fin (5183537617987174 / 2 ^ 41),
       Fin (5403439943542374 / 2 ^ 41),
       Fin (5403439943542374 / 2 ^ 41),
       Fin (5403439943542374 / 2 ^ 41),
       Fin (5403439943542374 / 2 ^ 41),
       Fin (5403439943542374 / 2 ^ 41),
       Fin (4963635292431974 / 2 ^ 41),
       Fin (4963635292431974 / 2 ^ 41),
       Fin (4963635292431974 / 2 ^ 41),
       Fin (4963635292431974 / 2 ^ 41),
       Fin (4963635292431974 / 2 ^ 41)]) = 20"
    by simp
  have sq: "m_square rounding_math = (\<lambda>x. js_mul x x)"
    by (simp add: rounding_math_def)
  show ?thesis
    unfolding calculateVariance_d_def reduce_add_d_def Let_def list.case sum.case sq len
      foldl_Cons foldl_Nil s1 s2 s3 s4 s5 s6 s7 s8 s9 s10 s11 s12 s13 s14 s15 s16 s17 s18 s19 mean d0 q0 d1 q1 d2 q2 a1 a2 a3 a4 a5 a6 a7 a8 a9 a10 a11 a12 a13 a14 a15 a16 a17 a18 a19 a20 v ..
qed
text \<open>The last 20 samples, and the formula \<^verbatim>\<open>calculateVariance\<close> evaluates on them.\<close>

lemma slice_last_append:
  "length recent = k \<Longrightarrow> slice_last k (older @ recent) = recent"
  by (simp add: slice_last_def)

lemma calculateVariance_d_formula:
  assumes "arr \<noteq> []"
  shows "calculateVariance_d m arr =
    Inr (js_div (foldl (\<lambda>a b. js_add a (m_square m (js_sub b
                   (js_div (foldl js_add (hd arr) (tl arr)) (Fin (real (length arr)))))))
                 (Fin 0) arr)
          (Fin (real (length arr))))"
proof -
  obtain x xs where "arr = x # xs"
    using assms by (cases arr) auto
  then show ?thesis
    by (simp add: calculateVariance_d_def reduce_add_d_def Let_def)
qed

text \<open>
  Equal samples \<open>n * 2\<^sup>e\<close>: while the multiples of \<open>n\<close> stay below \<open>2\<^sup>5\<^sup>3\<close>, the sum and the
  mean are computed exactly, every deviation is 0 and so is the variance.
\<close>

lemma sum_equal_samples:
  assumes "- 1074 \<le> e" and "e \<le> 971"
  shows "\<bar>int (k + j) * n\<bar> < 2 ^ 53 \<Longrightarrow>
    foldl js_add (Fin (of_int (int k * n) * 2 powi e)) (replicate j (Fin (of_int n * 2 powi e))) =
    Fin (of_int (int (k + j) * n) * 2 powi e)"
proof (induction j arbitrary: k)
  case 0
  then show ?case by simp
next
  case (Suc j)
  have "\<bar>int (Suc k) * n\<bar> \<le> \<bar>int (k + Suc j) * n\<bar>"
    unfolding abs_mult by (intro mult_right_mono) simp_all
  then have "\<bar>int (Suc k) * n\<bar> < 2 ^ 53"
    using Suc.prems by simp
  then have "fl (of_int (int (Suc k) * n) * 2 powi e) = Fin (of_int (int (Suc k) * n) * 2 powi e)"
    using assms by (intro fl_exact)
  moreover have "of_int (int k * n) * 2 powi e + of_int n * 2 powi e =
      (of_int (int (Suc k) * n) * 2 powi e :: real)"
    by (simp add: algebra_simps)
  ultimately have "js_add (Fin (of_int (int k * n) * 2 powi e)) (Fin (of_int n * 2 powi e)) =
      Fin (of_int (int (Suc k) * n) * 2 powi e)"
    by simp
  moreover have "foldl js_add (Fin (of_int (int (Suc k) * n) * 2 powi e))
      (replicate j (Fin (of_int n * 2 powi e))) = Fin (of_int (int (Suc k + j) * n) * 2 powi e)"
    using Suc.prems by (intro Suc.IH) simp
  ultimately show ?case
    by simp
qed

lemma squares_of_zero:
  assumes "m_square m (Fin 0) = Fin 0"
  shows "foldl (\<lambda>a b. js_add a (m_square m (js_sub b (Fin c)))) (Fin 0) (replicate j (Fin c)) = Fin 0"
  using assms by (induction j) (simp_all add: js_sub_def)

lemma variance_equal_samples:
  assumes "\<bar>n\<bar> \<le> 2 ^ 48" and "- 1074 \<le> e" and "e \<le> 971" and "m_square m (Fin 0) = Fin 0"
  shows "calculateVariance_d m (replicate 20 (Fin (of_int n * 2 powi e))) = Inr (Fin 0)"
proof -
  let ?c = "of_int n * 2 powi e :: real"
  have "\<bar>int (1 + 19) * n\<bar> = 20 * \<bar>n\<bar>"
    by (simp add: abs_mult)
  then have b: "\<bar>int (1 + 19) * n\<bar> < 2 ^ 53"
    using assms(1) by simp
  have "foldl js_add (Fin (of_int (int 1 * n) * 2 powi e)) (replicate 19 (Fin ?c)) =
      Fin (of_int (int (1 + 19) * n) * 2 powi e)"
    using assms(2,3) b by (rule sum_equal_samples)
  then have s: "foldl js_add (Fin ?c) (replicate 19 (Fin ?c)) = Fin (20 * ?c)"
    by simp
  have "\<bar>n\<bar> < 2 ^ 53"
    using assms(1) by simp
  then have c: "fl ?c = Fin ?c"
    using assms(2,3) by (intro fl_exact)
  have r: "replicate 20 (Fin ?c) = Fin ?c # replicate 19 (Fin ?c)"
    by (simp add: eval_nat_numeral)
  have mean: "js_div (foldl js_add (hd (replicate 20 (Fin ?c))) (tl (replicate 20 (Fin ?c))))
      (Fin (real (length (replicate 20 (Fin ?c))))) = Fin ?c"
    unfolding r using s c by simp
  have "calculateVariance_d m (replicate 20 (Fin ?c)) =
      Inr (js_div (foldl (\<lambda>a b. js_add a (m_square m (js_sub b (Fin ?c)))) (Fin 0)
                    (replicate 20 (Fin ?c)))
             (Fin (real (length (replicate 20 (Fin ?c))))))"
    using calculateVariance_d_formula [of "replicate 20 (Fin ?c)" m] unfolding mean by simp
  then show ?thesis
    unfolding squares_of_zero [OF assms(4)] by simp
qed

lemma replicate_explicit:
  "replicate 5 x = [x, x, x, x, x]"
  "replicate 10 x = [x, x, x, x, x, x, x, x, x, x]"
  "replicate 20 x = [x, x, x, x, x, x, x, x, x, x, x, x, x, x, x, x, x, x, x, x]"
  by (simp_all add: eval_nat_numeral)

lemma variance_around_mean:
  "population_variance (replicate 10 a @ replicate 5 (a + 100) @ replicate 5 (a - 100)) = 5000"
  by (simp add: population_variance_def mean_def sum_list_replicate algebra_simps power2_eq_square)

lemma variance_constant:
  "population_variance (replicate 20 a) = 0"
  by (simp add: population_variance_def mean_def sum_list_replicate)

text \<open>
  Claim C3, in double precision. Whatever precedes the last 20 rpm samples, the
  inference returns; the variance it computes is the formula of \<^verbatim>\<open>calculateVariance\<close> on
  exactly these 20 samples, every sum, quotient and difference rounded to a double and
  the square taken by \<^verbatim>\<open>Math.pow\<close>; and the anomaly flag says whether this computed value
  is above 5000. For 20 equal samples \<open>n * 2\<^sup>e\<close> with \<open>\<bar>n\<bar> \<le> 2\<^sup>4\<^sup>8\<close>, such as the integer 2000,
  and \<^verbatim>\<open>Math.pow(0, 2)\<close> being 0, the computed variance is 0 and the flag is false.
\<close>

theorem rpm_variance_in_doubles:
  assumes "dh_rpm (d_history s) = older @ recent" and "length recent = 20"
  shows "\<exists>res eng' v. runInference_d m eng s draw = Inr (res, eng') \<and>
    calculateVariance_d m recent = Inr v \<and>
    v = js_div (foldl (\<lambda>a b. js_add a (m_square m (js_sub b
                   (js_div (foldl js_add (hd recent) (tl recent)) (Fin 20)))))
                 (Fin 0) recent)
          (Fin 20) \<and>
    (r_anomaly res \<longleftrightarrow> js_gt v (Fin 5000)) \<and>
    (\<forall>n e. recent = replicate 20 (Fin (of_int n * 2 powi e)) \<and> \<bar>n\<bar> \<le> 2 ^ 48 \<and>
        - 1074 \<le> e \<and> e \<le> 971 \<and> m_square m (Fin 0) = Fin 0 \<longrightarrow>
      v = Fin 0 \<and> \<not> r_anomaly res)"
proof -
  have ne: "recent \<noteq> []"
    using assms(2) by auto
  have sl: "slice_last 20 (dh_rpm (d_history s)) = recent"
    unfolding assms(1) using assms(2) by (rule slice_last_append)
  define v where "v = js_div (foldl (\<lambda>a b. js_add a (m_square m (js_sub b
                   (js_div (foldl js_add (hd recent) (tl recent)) (Fin 20)))))
                 (Fin 0) recent) (Fin 20)"
  have v: "calculateVariance_d m recent = Inr v"
    using calculateVariance_d_formula [OF ne, of m] assms(2) by (simp add: v_def)
  then have "calculateVariance_d m (slice_last 20 (dh_rpm (d_history s))) = Inr v"
    by (simp add: sl)
  then obtain res where res: "runInference_d m eng s draw =
      Inr (res, eng\<lparr>d_rulKms := js_sub (d_rulKms eng)
                 (js_mul (js_mul (js_div (d_load (d_state s)) (Fin 100)) (Fin 2)) (fl 0.1))\<rparr>)"
    and an: "r_anomaly res = js_gt v (Fin 5000)"
    using runInference_d_result [of m s v eng draw] by blast
  have eq: "v = Fin 0 \<and> \<not> r_anomaly res"
    if "recent = replicate 20 (Fin (of_int n * 2 powi e))" and "\<bar>n\<bar> \<le> 2 ^ 48"
      and "- 1074 \<le> e" and "e \<le> 971" and "m_square m (Fin 0) = Fin 0" for n e
  proof -
    have "calculateVariance_d m recent = Inr (Fin 0)"
      unfolding that(1) using that(2-5) by (rule variance_equal_samples)
    then have "v = Fin 0"
      using v by simp
    then show ?thesis
      using an by (simp add: js_gt_def js_lt_def)
  qed
  show ?thesis
    using res v an eq unfolding v_def [symmetric] by blast
qed
text \<open>
  The claim as stated fails on doubles. Twenty samples 0.1 have a computed variance of
  \<open>2\<^sup>-\<^sup>1\<^sup>1\<^sup>2\<close>, not 0. Ten samples 2357.2, five 2457.2 and five 2257.2 have the exact
  population variance 5000, which does not exceed 5000; the computed variance is above
  5000 and the anomaly flag is set.
\<close>

theorem rpm_variance_is_rounded:
  "fl 0.1 = Fin (7205759403792794 / 2 ^ 56) \<and>
   population_variance (replicate 20 (7205759403792794 / 2 ^ 56)) = 0 \<and>
   calculateVariance_d rounding_math (replicate 20 (fl 0.1)) = Inr (Fin (4503599627370496 / 2 ^ 164)) \<and>
   Fin (4503599627370496 / 2 ^ 164) \<noteq> Fin 0 \<and>
   fl 2357.2 = Fin (5183537617987174 / 2 ^ 41) \<and>
   fl 2457.2 = Fin (5183537617987174 / 2 ^ 41 + 100) \<and>
   fl 2257.2 = Fin (5183537617987174 / 2 ^ 41 - 100) \<and>
   population_variance
     (replicate 10 (5183537617987174 / 2 ^ 41) @ replicate 5 (5183537617987174 / 2 ^ 41 + 100) @
      replicate 5 (5183537617987174 / 2 ^ 41 - 100)) = 5000 \<and>
   calculateVariance_d rounding_math
     (replicate 10 (fl 2357.2) @ replicate 5 (fl 2457.2) @ replicate 5 (fl 2257.2)) =
     Inr (Fin (5497558138880001 / 2 ^ 40)) \<and>
   map_sum id (r_anomaly \<circ> fst)
     (runInference_d rounding_math MLInferenceEngine_d
        (MockOBDSimulator_d\<lparr>d_history := (d_history MockOBDSimulator_d)\<lparr>dh_rpm :=
           replicate 80 (Fin 1000) @ replicate 10 (fl 2357.2) @ replicate 5 (fl 2457.2) @
           replicate 5 (fl 2257.2)\<rparr>\<rparr>)
        (Fin (1/4))) = Inr True"
proof -
  have "fl (0.1) = Fin (of_int 7205759403792794 * 2 powi (- 56))"
    by (rule fl_near) simp_all
  then have t: "fl (0.1) = Fin (7205759403792794 / 2 ^ 56)"
    by simp
  have "fl (2357.2) = Fin (of_int 5183537617987174 * 2 powi (- 41))"
    by (rule fl_near) simp_all
  then have a: "fl (2357.2) = Fin (5183537617987174 / 2 ^ 41)"
    by simp
  have "fl (2457.2) = Fin (of_int 5403439943542374 * 2 powi (- 41))"
    by (rule fl_near) simp_all
  then have b: "fl (2457.2) = Fin (5403439943542374 / 2 ^ 41)"
    by simp
  have "fl (2257.2) = Fin (of_int 4963635292431974 * 2 powi (- 41))"
    by (rule fl_near) simp_all
  then have c: "fl (2257.2) = Fin (4963635292431974 / 2 ^ 41)"
    by simp
  have b': "fl 2457.2 = Fin (5183537617987174 / 2 ^ 41 + 100)" and c': "fl 2257.2 = Fin (5183537617987174 / 2 ^ 41 - 100)"
    unfolding b c by simp_all
  have p0: "population_variance (replicate 20 (7205759403792794 / 2 ^ 56)) = 0"
    by (rule variance_constant)
  have p1: "population_variance
     (replicate 10 (5183537617987174 / 2 ^ 41) @ replicate 5 (5183537617987174 / 2 ^ 41 + 100) @
      replicate 5 (5183537617987174 / 2 ^ 41 - 100)) = 5000"
    by (rule variance_around_mean)
  have v0: "calculateVariance_d rounding_math (replicate 20 (fl 0.1)) = Inr (Fin (4503599627370496 / 2 ^ 164))"
    unfolding t replicate_explicit by (rule variance_of_tenths)
  have nz: "Fin (4503599627370496 / 2 ^ 164) \<noteq> Fin 0"
    by simp
  let ?recent = "replicate 10 (fl 2357.2) @ replicate 5 (fl 2457.2) @ replicate 5 (fl 2257.2)"
  let ?s = "MockOBDSimulator_d\<lparr>d_history := (d_history MockOBDSimulator_d)\<lparr>dh_rpm :=
           replicate 80 (Fin 1000) @ replicate 10 (fl 2357.2) @ replicate 5 (fl 2457.2) @
           replicate 5 (fl 2257.2)\<rparr>\<rparr>"
  have "calculateVariance_d rounding_math
      (replicate 10 (Fin (5183537617987174 / 2 ^ 41)) @ replicate 5 (Fin (5403439943542374 / 2 ^ 41)) @
       replicate 5 (Fin (4963635292431974 / 2 ^ 41))) = Inr (Fin (5497558138880001 / 2 ^ 40))"
    unfolding replicate_explicit append.simps by (rule variance_at_threshold)
  then have v1: "calculateVariance_d rounding_math ?recent = Inr (Fin (5497558138880001 / 2 ^ 40))"
    unfolding a b c .
  have "length ?recent = 20"
    by simp
  then have "slice_last 20 (replicate 80 (Fin 1000) @ ?recent) = ?recent"
    by (rule slice_last_append)
  then have "calculateVariance_d rounding_math (slice_last 20 (dh_rpm (d_history ?s))) =
      Inr (Fin (5497558138880001 / 2 ^ 40))"
    using v1 by simp
  then obtain res eng' where res:
      "runInference_d rounding_math MLInferenceEngine_d ?s (Fin (1/4)) = Inr (res, eng')"
    and an: "r_anomaly res = js_gt (Fin (5497558138880001 / 2 ^ 40)) (Fin 5000)"
    using runInference_d_result [of rounding_math ?s "Fin (5497558138880001 / 2 ^ 40)"
        MLInferenceEngine_d "Fin (1/4)"] by blast
  have "js_gt (Fin (5497558138880001 / 2 ^ 40)) (Fin 5000)"
    by (simp add: js_gt_def js_lt_def)
  then have r: "map_sum id (r_anomaly \<circ> fst)
      (runInference_d rounding_math MLInferenceEngine_d ?s (Fin (1/4))) = Inr True"
    unfolding res using an by simp
  show ?thesis
    using t p0 v0 nz a b' c' p1 v1 r by blast
qed

theorem rpm_variance_in_doubles_witness:
  "dh_rpm (d_history
       (MockOBDSimulator_d\<lparr>d_history := (d_history MockOBDSimulator_d)\<lparr>dh_rpm :=
           replicate 80 (Fin 1000) @ replicate 20 (Fin 2000)\<rparr>\<rparr>)) =
     replicate 80 (Fin 1000) @ replicate 20 (Fin 2000) \<and>
   length (replicate 20 (Fin 2000 :: double)) = 20 \<and>
   replicate 20 (Fin 2000) = replicate 20 (Fin (of_int 2000 * 2 powi 0)) \<and>
   \<bar>2000 :: int\<bar> \<le> 2 ^ 48 \<and> m_square rounding_math (Fin 0) = Fin 0 \<and>
   calculateVariance_d rounding_math (replicate 20 (Fin 2000)) = Inr (Fin 0) \<and>
   map_sum id (r_anomaly \<circ> fst)
     (runInference_d rounding_math MLInferenceEngine_d
        (MockOBDSimulator_d\<lparr>d_history := (d_history MockOBDSimulator_d)\<lparr>dh_rpm :=
           replicate 80 (Fin 1000) @ replicate 20 (Fin 2000)\<rparr>\<rparr>)
        (Fin (1/4))) = Inr False"
proof -
  let ?s = "MockOBDSimulator_d\<lparr>d_history := (d_history MockOBDSimulator_d)\<lparr>dh_rpm :=
           replicate 80 (Fin 1000) @ replicate 20 (Fin 2000)\<rparr>\<rparr>"
  have h: "dh_rpm (d_history ?s) = replicate 80 (Fin 1000) @ replicate 20 (Fin 2000)"
    by simp
  have len: "length (replicate 20 (Fin 2000 :: double)) = 20"
    by simp
  have sq: "m_square rounding_math (Fin 0) = Fin 0"
    by (simp add: rounding_math_def)
  have eq: "replicate 20 (Fin 2000) = replicate 20 (Fin (of_int 2000 * 2 powi 0))"
    by simp
  have n: "\<bar>2000 :: int\<bar> \<le> 2 ^ 48"
    by simp
  obtain res eng' v where res:
      "runInference_d rounding_math MLInferenceEngine_d ?s (Fin (1/4)) = Inr (res, eng')"
    and v: "calculateVariance_d rounding_math (replicate 20 (Fin 2000)) = Inr v"
    and z: "\<forall>n e. replicate 20 (Fin 2000) = replicate 20 (Fin (of_int n * 2 powi e)) \<and>
        \<bar>n\<bar> \<le> 2 ^ 48 \<and> - 1074 \<le> e \<and> e \<le> 971 \<and> m_square rounding_math (Fin 0) = Fin 0 \<longrightarrow>
      v = Fin 0 \<and> \<not> r_anomaly res"
    using rpm_variance_in_doubles [OF h len, of rounding_math MLInferenceEngine_d "Fin (1/4)"]
    by blast
  have "replicate 20 (Fin 2000) = replicate 20 (Fin (of_int 2000 * 2 powi 0)) \<and>
      \<bar>2000 :: int\<bar> \<le> 2 ^ 48 \<and> - 1074 \<le> (0 :: int) \<and> (0 :: int) \<le> 971 \<and>
      m_square rounding_math (Fin 0) = Fin 0"
    using eq n sq by simp
  then have "v = Fin 0 \<and> \<not> r_anomaly res"
    using z by blast
  then have "calculateVariance_d rounding_math (replicate 20 (Fin 2000)) = Inr (Fin 0)"
    and "map_sum id (r_anomaly \<circ> fst)
      (runInference_d rounding_math MLInferenceEngine_d ?s (Fin (1/4))) = Inr False"
    unfolding res using v by simp_all
  then show ?thesis
    using h len eq n sq by blast
qed
section \<open>The coolant, in doubles\<close>

lemma tick_mode_d_keeps:
  "d_state (fst (tick_mode_d s e)) = d_state s"
  "d_target (fst (tick_mode_d s e)) = d_target s"
  by (simp_all add: tick_mode_d_def Let_def split_def)

lemma push_targets_d_coolant: "d_coolant (push_targets_d acc t) = d_coolant t"
  by (simp add: push_targets_d_def)

lemma tick_targets_d_coolant:
  "d_state (fst (tick_targets_d s e)) = d_state s"
  "d_coolant (d_target (fst (tick_targets_d s e))) =
     (if js_gt (d_load (d_state s)) (Fin 70) then js_add (d_coolant (d_target s)) (fl 0.02)
      else Math_max (js_sub (d_coolant (d_target s)) (fl 0.01)) (Fin 88))"
  by (simp_all add: tick_targets_d_def Let_def split_def push_targets_d_coolant)

lemma tick_state_d_coolant:
  "d_target (fst (tick_state_d m s e)) = d_target s"
  "d_coolant (d_state (fst (tick_state_d m s e))) =
     lerp_d (d_coolant (d_state s)) (d_coolant (d_target s)) (fl 0.05)"
  by (simp_all add: tick_state_d_def Let_def split_def)

lemma updateHistory_d_keeps:
  "d_state (updateHistory_d s) = d_state s"
  "d_target (updateHistory_d s) = d_target s"
  by (simp_all add: updateHistory_d_def Let_def)

lemma tick_d_coolant_target:
  "d_coolant (d_target (fst (tick_d m s e))) =
     (if js_gt (d_load (d_state s)) (Fin 70) then js_add (d_coolant (d_target s)) (fl 0.02)
      else Math_max (js_sub (d_coolant (d_target s)) (fl 0.01)) (Fin 88))"
  by (simp add: tick_d_def split_def Let_def updateHistory_d_keeps tick_state_d_coolant
      tick_targets_d_coolant tick_mode_d_keeps)

lemma tick_d_coolant_state:
  "d_coolant (d_state (fst (tick_d m s e))) =
     lerp_d (d_coolant (d_state s)) (d_coolant (d_target (fst (tick_d m s e)))) (fl 0.05)"
  by (simp add: tick_d_def split_def Let_def updateHistory_d_keeps tick_state_d_coolant
      tick_targets_d_coolant tick_mode_d_keeps)

text \<open>The literals of the coolant lines.\<close>

lemma fl_coolant_literals:
  "fl 0.02 = Fin (5764607523034235 / 2 ^ 58)" "fl 0.01 = Fin (5764607523034235 / 2 ^ 59)" "fl 0.05 = Fin (7205759403792794 / 2 ^ 57)"
proof -
  have "fl 0.02 = Fin (of_int 5764607523034235 * 2 powi (- 58))"
    by (rule fl_near) simp_all
  then show "fl 0.02 = Fin (5764607523034235 / 2 ^ 58)"
    by simp
  have "fl 0.01 = Fin (of_int 5764607523034235 * 2 powi (- 59))"
    by (rule fl_near) simp_all
  then show "fl 0.01 = Fin (5764607523034235 / 2 ^ 59)"
    by simp
  have "fl 0.05 = Fin (of_int 7205759403792794 * 2 powi (- 57))"
    by (rule fl_near) simp_all
  then show "fl 0.05 = Fin (7205759403792794 / 2 ^ 57)"
    by simp
qed

text \<open>The rounding error is at most half a quantum; the quantum of a real below \<open>2\<^sup>e\<^sup>+\<^sup>5\<^sup>3\<close>.\<close>

lemma quantum_exp_below:
  assumes "x \<noteq> 0" and "\<bar>x\<bar> < 2 powi (e + 53)" and "- 1074 \<le> e"
  shows "quantum_exp x \<le> e"
proof -
  have "2 powi \<lfloor>log 2 \<bar>x\<bar>\<rfloor> \<le> \<bar>x\<bar>"
    using log2_bounds [of "\<bar>x\<bar>"] assms(1) by simp
  then have lt: "(2::real) powi \<lfloor>log 2 \<bar>x\<bar>\<rfloor> < 2 powi (e + 53)"
    using assms(2) by simp
  have "\<lfloor>log 2 \<bar>x\<bar>\<rfloor> < e + 53"
  proof (rule ccontr)
    assume "\<not> \<lfloor>log 2 \<bar>x\<bar>\<rfloor> < e + 53"
    then have "(2::real) powi (e + 53) \<le> 2 powi \<lfloor>log 2 \<bar>x\<bar>\<rfloor>"
      by (intro power_int_increasing) simp_all
    then show False
      using lt by simp
  qed
  then show ?thesis
    using assms(3) by (simp add: quantum_exp_def)
qed

lemma quantise_error: "\<bar>quantise x - x\<bar> \<le> 2 powi quantum_exp x / 2"
proof -
  define q :: real where "q = 2 powi quantum_exp x"
  define r where "r = round_even (x / q)"
  have q: "0 < q"
    by (simp add: q_def)
  have "of_int r - 1/2 \<le> x / q" and "x / q \<le> of_int r + 1/2"
    using round_even_bounds [of "x / q"] by (simp_all add: r_def)
  then have "(of_int r - 1/2) * q \<le> x" and "x \<le> (of_int r + 1/2) * q"
    using q by (simp_all add: field_simps)
  then have "of_int r * q - x \<le> q / 2" and "x - of_int r * q \<le> q / 2"
    by (simp_all add: algebra_simps)
  then have "\<bar>of_int r * q - x\<bar> \<le> q / 2"
    by linarith
  then show ?thesis
    by (simp add: quantise_def q_def r_def)
qed

lemma fl_not_NaN: "\<not> is_NaN (fl x)"
  by (simp add: fl_clip clip_def)

lemma js_le_total: "\<not> is_NaN a \<Longrightarrow> \<not> is_NaN b \<Longrightarrow> js_le a b \<or> js_le b a"
  by (cases a; cases b) auto

text \<open>
  Below \<open>2\<^sup>4\<^sup>8 - 1\<close> the addition of 0.02 gives a larger double: the quantum there is at
  most \<open>2\<^sup>-\<^sup>5\<close>, and 0.02 is more than half of it.
\<close>

lemma add_002_increases:
  assumes "0 \<le> t" and "t \<le> 2 ^ 48 - 1"
  shows "\<exists>t'. js_add (Fin t) (fl 0.02) = Fin t' \<and> t < t'"
proof -
  define x :: real where "x = t + 5764607523034235 / 2 ^ 58"
  have x0: "0 < x"
    using assms(1) by (simp add: x_def)
  have "x < 2 ^ 48"
    using assms(2) by (simp add: x_def)
  then have xu: "\<bar>x\<bar> < 2 powi (- 5 + 53)"
    using x0 by simp
  have qe: "quantum_exp x \<le> - 5"
    using x0 xu by (intro quantum_exp_below) simp_all
  then have "(2::real) powi quantum_exp x \<le> 2 powi (- 5)"
    by (intro power_int_increasing) simp_all
  then have "\<bar>quantise x - x\<bar> \<le> 2 powi (- 5) / 2"
    using quantise_error [of x] by linarith
  then have "\<bar>quantise x - x\<bar> \<le> 1 / 64"
    by (simp add: power_int_minus)
  then have "x - 1 / 64 \<le> quantise x"
    by linarith
  then have lt: "t < quantise x"
    by (simp add: x_def)
  have "quantise x \<le> 2 powi (quantum_exp x + 53)"
    using x0 by (rule quantise_upper)
  also have "\<dots> \<le> 2 powi (- 5 + 53)"
    using qe by (intro power_int_increasing) simp_all
  also have "\<dots> < 2 powi 1024"
    by (intro power_int_strict_increasing) simp_all
  finally have "\<bar>quantise x\<bar> < 2 powi 1024"
    using lt assms(1) by simp
  then have "fl x = Fin (quantise x)"
    unfolding fl_clip by (rule clip_Fin)
  then have "js_add (Fin t) (Fin (5764607523034235 / 2 ^ 58)) = Fin (quantise x)"
    by (simp add: x_def)
  then show ?thesis
    unfolding fl_coolant_literals using lt by blast
qed

text \<open>From \<open>2\<^sup>4\<^sup>8\<close> on the addition of 0.02 is absorbed, so that this bound is kept.\<close>

lemma add_002_absorbed: "js_add (Fin (2 ^ 48)) (fl 0.02) = Fin (2 ^ 48)"
proof -
  have "fl (2 ^ 48 + 5764607523034235 / 2 ^ 58) = Fin (of_int 4503599627370496 * 2 powi (- 4))"
    by (rule fl_near) simp_all
  then show ?thesis
    unfolding fl_coolant_literals by simp
qed

lemma fl_2_48: "fl (2 ^ 48) = Fin (2 ^ 48)"
  using fl_int [of "2 ^ 48"] by simp

lemma add_002_bounded:
  assumes "js_le a (Fin (2 ^ 48))"
  shows "js_le (js_add a (fl 0.02)) (Fin (2 ^ 48))"
proof (cases a)
  case (Fin t)
  have "t + 5764607523034235 / 2 ^ 58 \<le> 2 ^ 48 + 5764607523034235 / 2 ^ 58"
    using assms Fin by simp
  then have "js_le (fl (t + 5764607523034235 / 2 ^ 58)) (fl (2 ^ 48 + 5764607523034235 / 2 ^ 58))"
    by (rule fl_mono)
  then show ?thesis
    using add_002_absorbed Fin unfolding fl_coolant_literals by simp
qed (use assms in \<open>simp_all add: fl_coolant_literals [simplified]\<close>)

lemma floor_88_bounded:
  assumes "js_le a (Fin (2 ^ 48))"
  shows "js_le (Math_max (js_sub a (fl 0.01)) (Fin 88)) (Fin (2 ^ 48))"
proof -
  have "js_le (js_sub a (fl 0.01)) (Fin (2 ^ 48))"
  proof (cases a)
    case (Fin t)
    have "t - 5764607523034235 / 2 ^ 59 \<le> 2 ^ 48"
      using assms Fin by simp
    then have "js_le (fl (t - 5764607523034235 / 2 ^ 59)) (fl (2 ^ 48))"
      by (rule fl_mono)
    then show ?thesis
      using Fin unfolding fl_coolant_literals by (simp add: fl_2_48 [simplified] js_sub_def)
  qed (use assms in \<open>simp_all add: fl_coolant_literals [simplified] js_sub_def\<close>)
  then show ?thesis
    by (cases "js_sub a (fl 0.01)") (simp_all add: Math_max_def)
qed

lemma floor_88:
  assumes "\<not> is_NaN a"
  shows "js_le (Fin 88) (Math_max (js_sub a (fl 0.01)) (Fin 88))"
proof -
  have "\<not> is_NaN (js_sub a (fl 0.01))"
    unfolding fl_coolant_literals js_sub_def using assms by (cases a) (simp_all add: fl_not_NaN)
  then show ?thesis
    using js_le_total [of "js_sub a (fl 0.01)" "Fin 88"] by (auto simp: Math_max_def)
qed

text \<open>The interpolation with the factor 0.05 keeps the bound too.\<close>

lemma lerp_d_bounded:
  assumes "js_le s (Fin (2 ^ 48))" and "js_le t (Fin (2 ^ 48))"
  shows "js_le (lerp_d s t (fl 0.05)) (Fin (2 ^ 48))"
proof -
  have "fl (1 - (7205759403792794 / 2 ^ 57)) = Fin (of_int 8556839292003942 * 2 powi (- 53))"
    by (rule fl_near) simp_all
  then have c1: "js_sub (Fin (1)) (Fin (7205759403792794 / 2 ^ 57)) = Fin (8556839292003942 / 2 ^ 53)"
    by (simp add: js_sub_def)
  have "fl (8556839292003942 / 2 ^ 53 * 2 ^ 48) = Fin (of_int 8556839292003942 * 2 powi (- 5))"
    by (rule fl_near) simp_all
  then have u1: "fl (8556839292003942 / 2 ^ 53 * 2 ^ 48) = Fin (8556839292003942 / 2 ^ 5)"
    by simp
  have "fl (7205759403792794 / 2 ^ 57 * 2 ^ 48) = Fin (of_int 7205759403792794 * 2 powi (- 9))"
    by (rule fl_near) simp_all
  then have u2: "fl (7205759403792794 / 2 ^ 57 * 2 ^ 48) = Fin (7205759403792794 / 2 ^ 9)"
    by simp
  have "fl (8556839292003942 / 2 ^ 5 + 7205759403792794 / 2 ^ 9) = Fin (of_int 9007199254740992 * 2 powi (- 5))"
    by (rule fl_near) simp_all
  then have u: "fl (8556839292003942 / 2 ^ 5 + 7205759403792794 / 2 ^ 9) = Fin (2 ^ 48)"
    by simp
  have p: "js_le (js_mul (Fin (8556839292003942 / 2 ^ 53)) s) (Fin (8556839292003942 / 2 ^ 5))"
  proof (cases s)
    case (Fin x)
    have "8556839292003942 / 2 ^ 53 * x \<le> 8556839292003942 / 2 ^ 53 * 2 ^ 48"
      using assms(1) Fin by simp
    then have "js_le (fl (8556839292003942 / 2 ^ 53 * x)) (fl (8556839292003942 / 2 ^ 53 * 2 ^ 48))"
      by (rule fl_mono)
    then show ?thesis
      unfolding u1 using Fin by simp
  qed (use assms(1) in simp_all)
  have q: "js_le (js_mul (Fin (7205759403792794 / 2 ^ 57)) t) (Fin (7205759403792794 / 2 ^ 9))"
  proof (cases t)
    case (Fin x)
    have "7205759403792794 / 2 ^ 57 * x \<le> 7205759403792794 / 2 ^ 57 * 2 ^ 48"
      using assms(2) Fin by simp
    then have "js_le (fl (7205759403792794 / 2 ^ 57 * x)) (fl (7205759403792794 / 2 ^ 57 * 2 ^ 48))"
      by (rule fl_mono)
    then show ?thesis
      unfolding u2 using Fin by simp
  qed (use assms(2) in simp_all)
  have "js_le (js_add (js_mul (Fin (8556839292003942 / 2 ^ 53)) s) (js_mul (Fin (7205759403792794 / 2 ^ 57)) t))
      (Fin (2 ^ 48))"
  proof (cases "js_mul (Fin (8556839292003942 / 2 ^ 53)) s")
    case a: (Fin x)
    show ?thesis
    proof (cases "js_mul (Fin (7205759403792794 / 2 ^ 57)) t")
      case b: (Fin y)
      have "x + y \<le> 8556839292003942 / 2 ^ 5 + 7205759403792794 / 2 ^ 9"
        using p q unfolding a b by simp
      then have "js_le (fl (x + y)) (fl (8556839292003942 / 2 ^ 5 + 7205759403792794 / 2 ^ 9))"
        by (rule fl_mono)
      then show ?thesis
        unfolding u a b by simp
    next
      case b: NInf
      show ?thesis
        unfolding a b by simp
    next
      case b: PInf
      show ?thesis
        using q unfolding b by simp
    next
      case b: NaN
      show ?thesis
        using q unfolding b by simp
    qed
  next
    case a: NInf
    show ?thesis
    proof (cases "js_mul (Fin (7205759403792794 / 2 ^ 57)) t")
      case b: (Fin y)
      show ?thesis
        unfolding a b by simp
    next
      case b: NInf
      show ?thesis
        unfolding a b by simp
    next
      case b: PInf
      show ?thesis
        using q unfolding b by simp
    next
      case b: NaN
      show ?thesis
        using q unfolding b by simp
    qed
  next
    case a: PInf
    show ?thesis
      using p unfolding a by simp
  next
    case a: NaN
    show ?thesis
      using p unfolding a by simp
  qed
  then show ?thesis
    unfolding lerp_d_def fl_coolant_literals c1 .
qed
text \<open>The other targets: \<^verbatim>\<open>Math.min\<close> cuts each at its ceiling, and the way down stays below.\<close>

lemma min_ceiling: "\<not> is_NaN a \<Longrightarrow> js_le (Math_min a (Fin c)) (Fin c)"
  by (cases a) (simp_all add: Math_min_def)

lemma max_ceiling: "js_le a (Fin c) \<Longrightarrow> f \<le> c \<Longrightarrow> js_le (Math_max a (Fin f)) (Fin c)"
  by (cases a) (simp_all add: Math_max_def)

lemma add_not_NaN: "js_le a (Fin c) \<Longrightarrow> \<not> is_NaN (js_add a (Fin d))"
  by (cases a) (simp_all add: fl_not_NaN)

lemma sub_ceiling:
  assumes "js_le a (Fin c)" and "0 \<le> d" and "fl c = Fin c"
  shows "js_le (js_sub a (Fin d)) (Fin c)"
proof (cases a)
  case (Fin t)
  have "t - d \<le> c"
    using assms(1,2) Fin by simp
  then have "js_le (fl (t - d)) (fl c)"
    by (rule fl_mono)
  then show ?thesis
    using Fin assms(3) by (simp add: js_sub_def)
qed (use assms(1) in \<open>simp_all add: js_sub_def\<close>)

lemma fl_ceilings:
  "fl 85 = Fin 85" "fl 140 = Fin 140" "fl 95 = Fin 95" "fl 25 = Fin 25" "fl 5515 = Fin 5515"
  using fl_int [of 85] fl_int [of 140] fl_int [of 95] fl_int [of 25] fl_int [of 5515]
  by simp_all

lemma fl_step_literals:
  "fl 0.8 = Fin (7205759403792794 / 2 ^ 53)" "fl 0.4 = Fin (7205759403792794 / 2 ^ 54)" "fl 0.2 = Fin (7205759403792794 / 2 ^ 55)"
proof -
  have "fl 0.8 = Fin (of_int 7205759403792794 * 2 powi (- 53))"
    by (rule fl_near) simp_all
  then show "fl 0.8 = Fin (7205759403792794 / 2 ^ 53)"
    by simp
  have "fl 0.4 = Fin (of_int 7205759403792794 * 2 powi (- 54))"
    by (rule fl_near) simp_all
  then show "fl 0.4 = Fin (7205759403792794 / 2 ^ 54)"
    by simp
  have "fl 0.2 = Fin (of_int 7205759403792794 * 2 powi (- 55))"
    by (rule fl_near) simp_all
  then show "fl 0.2 = Fin (7205759403792794 / 2 ^ 55)"
    by simp
qed

lemma push_targets_d_throttle:
  assumes "js_le (d_throttle t) (Fin 85)"
  shows "js_le (d_throttle (push_targets_d acc t)) (Fin 85)"
proof (cases acc)
  case True
  have "\<not> is_NaN (js_add (d_throttle t) (Fin 2))"
    using assms by (rule add_not_NaN)
  then show ?thesis
    using True by (simp add: push_targets_d_def min_ceiling)
next
  case False
  have "js_le (js_sub (d_throttle t) (Fin 3)) (Fin 85)"
    using assms by (rule sub_ceiling) (simp_all add: fl_ceilings)
  then have "js_le (Math_max (js_sub (d_throttle t) (Fin 3)) (Fin 0)) (Fin 85)"
    by (rule max_ceiling) simp
  then show ?thesis
    using False by (simp add: push_targets_d_def)
qed

lemma push_targets_d_speed:
  assumes "js_le (d_speed t) (Fin 140)"
  shows "js_le (d_speed (push_targets_d acc t)) (Fin 140)"
proof (cases acc)
  case True
  have "\<not> is_NaN (js_add (d_speed t) (fl 0.8))"
    unfolding fl_step_literals using assms by (rule add_not_NaN)
  then show ?thesis
    using True by (simp add: push_targets_d_def min_ceiling)
next
  case False
  have "js_le (js_sub (d_speed t) (fl 0.4)) (Fin 140)"
    unfolding fl_step_literals using assms by (rule sub_ceiling) (simp_all add: fl_ceilings)
  then have "js_le (Math_max (js_sub (d_speed t) (fl 0.4)) (Fin 0)) (Fin 140)"
    by (rule max_ceiling) simp
  then show ?thesis
    using False by (simp add: push_targets_d_def)
qed

lemma push_targets_d_load:
  assumes "js_le (d_load t) (Fin 95)"
  shows "js_le (d_load (push_targets_d acc t)) (Fin 95)"
proof (cases acc)
  case True
  have "\<not> is_NaN (js_add (d_load t) (Fin 1.5))"
    using assms by (rule add_not_NaN)
  then show ?thesis
    using True by (simp add: push_targets_d_def min_ceiling)
next
  case False
  have "js_le (js_sub (d_load t) (Fin 2)) (Fin 95)"
    using assms by (rule sub_ceiling) (simp_all add: fl_ceilings)
  then have "js_le (Math_max (js_sub (d_load t) (Fin 2)) (Fin 15)) (Fin 95)"
    by (rule max_ceiling) simp
  then show ?thesis
    using False by (simp add: push_targets_d_def)
qed

lemma push_targets_d_fuelEff:
  assumes "js_le (d_fuelEff t) (Fin 25)"
  shows "js_le (d_fuelEff (push_targets_d acc t)) (Fin 25)"
proof (cases acc)
  case True
  have "\<not> is_NaN (js_add (d_fuelEff t) (Fin 0.5))"
    using assms by (rule add_not_NaN)
  then show ?thesis
    using True by (simp add: push_targets_d_def min_ceiling)
next
  case False
  have "js_le (js_sub (d_fuelEff t) (fl 0.2)) (Fin 25)"
    unfolding fl_step_literals using assms by (rule sub_ceiling) (simp_all add: fl_ceilings)
  then have "js_le (Math_max (js_sub (d_fuelEff t) (fl 0.2)) (Fin 4.5)) (Fin 25)"
    by (rule max_ceiling) simp
  then show ?thesis
    using False by (simp add: push_targets_d_def)
qed

lemma push_targets_d_rpm:
  assumes "js_le (d_rpm t) (Fin 5515)"
  shows "js_le (d_rpm (push_targets_d acc t)) (Fin 5500)"
proof (cases acc)
  case True
  have "\<not> is_NaN (js_add (d_rpm t) (Fin 60))"
    using assms by (rule add_not_NaN)
  then show ?thesis
    using True by (simp add: push_targets_d_def min_ceiling)
next
  case False
  have "js_le (js_sub (d_rpm t) (Fin 80)) (Fin 5515)"
    using assms by (rule sub_ceiling) (simp_all add: fl_ceilings)
  moreover have "fl (x - 80) = Fin y \<Longrightarrow> x \<le> 5515 \<Longrightarrow> y \<le> 5500" for x y
  proof -
    assume "fl (x - 80) = Fin y" and "x \<le> 5515"
    then have "js_le (Fin y) (fl 5435)"
      using fl_mono [of "x - 80" 5435] by simp
    then show "y \<le> 5500"
      using fl_int [of 5435] by simp
  qed
  ultimately have "js_le (Math_max (js_sub (d_rpm t) (Fin 80)) (Fin 800)) (Fin 5500)"
    using assms by (cases "d_rpm t"; cases "js_sub (d_rpm t) (Fin 80)")
      (auto simp: Math_max_def js_sub_def)
  then show ?thesis
    using False by (simp add: push_targets_d_def)
qed

lemma tick_targets_d_pushed:
  "d_throttle (d_target (fst (tick_targets_d s e))) =
     d_throttle (push_targets_d (d_isAccelerating s) (d_target s))"
  "d_speed (d_target (fst (tick_targets_d s e))) =
     d_speed (push_targets_d (d_isAccelerating s) (d_target s))"
  "d_load (d_target (fst (tick_targets_d s e))) =
     d_load (push_targets_d (d_isAccelerating s) (d_target s))"
  "d_fuelEff (d_target (fst (tick_targets_d s e))) =
     d_fuelEff (push_targets_d (d_isAccelerating s) (d_target s))"
  by (simp_all add: tick_targets_d_def Let_def split_def)

lemma tick_d_pushed:
  "d_throttle (d_target (fst (tick_d m s e))) =
     d_throttle (push_targets_d (d_isAccelerating (fst (tick_mode_d s e))) (d_target s))"
  "d_speed (d_target (fst (tick_d m s e))) =
     d_speed (push_targets_d (d_isAccelerating (fst (tick_mode_d s e))) (d_target s))"
  "d_load (d_target (fst (tick_d m s e))) =
     d_load (push_targets_d (d_isAccelerating (fst (tick_mode_d s e))) (d_target s))"
  "d_fuelEff (d_target (fst (tick_d m s e))) =
     d_fuelEff (push_targets_d (d_isAccelerating (fst (tick_mode_d s e))) (d_target s))"
  by (simp_all add: tick_d_def split_def Let_def updateHistory_d_keeps tick_state_d_coolant
      tick_targets_d_pushed tick_mode_d_keeps)

text \<open>
  Claim C10, in double precision. When the load of the state exceeds 70 a step replaces
  the coolant target by the double nearest to the target plus 0.02, and otherwise lowers
  it by 0.01 with the floor 88; the coolant state follows by \<open>lerp\<close> with the factor
  0.05; no line cuts either from above. A target in \<open>[0, 2\<^sup>4\<^sup>8 - 1]\<close> becomes strictly
  larger, so no bound below \<open>2\<^sup>4\<^sup>8\<close> is kept; from \<open>2\<^sup>4\<^sup>8\<close> on the increment is lost in the
  rounding, and a step keeps the coolant target and the coolant state at or below
  \<open>2\<^sup>4\<^sup>8\<close>. The targets of throttle, speed, load and consumption keep their ceilings 85,
  140, 95 and 25, and the rpm target is cut at 5500 before its jitter.
\<close>

theorem coolant_step_in_doubles:
  "d_coolant (d_target (fst (tick_d m s e))) =
     (if js_gt (d_load (d_state s)) (Fin 70) then js_add (d_coolant (d_target s)) (fl 0.02)
      else Math_max (js_sub (d_coolant (d_target s)) (fl 0.01)) (Fin 88)) \<and>
   d_coolant (d_state (fst (tick_d m s e))) =
     lerp_d (d_coolant (d_state s)) (d_coolant (d_target (fst (tick_d m s e)))) (fl 0.05) \<and>
   (\<forall>t. js_gt (d_load (d_state s)) (Fin 70) \<and> d_coolant (d_target s) = Fin t \<and>
        0 \<le> t \<and> t \<le> 2 ^ 48 - 1 \<longrightarrow>
      (\<exists>t'. d_coolant (d_target (fst (tick_d m s e))) = Fin t' \<and> t < t')) \<and>
   (js_le (d_coolant (d_target s)) (Fin (2 ^ 48)) \<longrightarrow>
      js_le (d_coolant (d_target (fst (tick_d m s e)))) (Fin (2 ^ 48))) \<and>
   (js_le (d_coolant (d_target s)) (Fin (2 ^ 48)) \<and> js_le (d_coolant (d_state s)) (Fin (2 ^ 48)) \<longrightarrow>
      js_le (d_coolant (d_state (fst (tick_d m s e)))) (Fin (2 ^ 48))) \<and>
   (\<not> js_gt (d_load (d_state s)) (Fin 70) \<and> \<not> is_NaN (d_coolant (d_target s)) \<longrightarrow>
      js_le (Fin 88) (d_coolant (d_target (fst (tick_d m s e))))) \<and>
   (js_le (d_throttle (d_target s)) (Fin 85) \<longrightarrow>
      js_le (d_throttle (d_target (fst (tick_d m s e)))) (Fin 85)) \<and>
   (js_le (d_speed (d_target s)) (Fin 140) \<longrightarrow>
      js_le (d_speed (d_target (fst (tick_d m s e)))) (Fin 140)) \<and>
   (js_le (d_load (d_target s)) (Fin 95) \<longrightarrow>
      js_le (d_load (d_target (fst (tick_d m s e)))) (Fin 95)) \<and>
   (js_le (d_fuelEff (d_target s)) (Fin 25) \<longrightarrow>
      js_le (d_fuelEff (d_target (fst (tick_d m s e)))) (Fin 25)) \<and>
   (js_le (d_rpm (d_target s)) (Fin 5515) \<longrightarrow>
      js_le (d_rpm (push_targets_d (d_isAccelerating (fst (tick_mode_d s e))) (d_target s)))
        (Fin 5500))"
proof -
  let ?t = "d_coolant (d_target (fst (tick_d m s e)))"
  have a: "?t =
     (if js_gt (d_load (d_state s)) (Fin 70) then js_add (d_coolant (d_target s)) (fl 0.02)
      else Math_max (js_sub (d_coolant (d_target s)) (fl 0.01)) (Fin 88))"
    by (rule tick_d_coolant_target)
  have b: "d_coolant (d_state (fst (tick_d m s e))) = lerp_d (d_coolant (d_state s)) ?t (fl 0.05)"
    by (rule tick_d_coolant_state)
  have c: "\<forall>t. js_gt (d_load (d_state s)) (Fin 70) \<and> d_coolant (d_target s) = Fin t \<and>
        0 \<le> t \<and> t \<le> 2 ^ 48 - 1 \<longrightarrow> (\<exists>t'. ?t = Fin t' \<and> t < t')"
    unfolding a using add_002_increases by auto
  have d: "js_le ?t (Fin (2 ^ 48))" if "js_le (d_coolant (d_target s)) (Fin (2 ^ 48))"
  proof (cases "js_gt (d_load (d_state s)) (Fin 70)")
    case True
    show ?thesis
      unfolding a if_P [OF True] using that by (rule add_002_bounded)
  next
    case False
    show ?thesis
      unfolding a if_not_P [OF False] using that by (rule floor_88_bounded)
  qed
  have d': "js_le (d_coolant (d_state (fst (tick_d m s e)))) (Fin (2 ^ 48))"
    if "js_le (d_coolant (d_target s)) (Fin (2 ^ 48))" and "js_le (d_coolant (d_state s)) (Fin (2 ^ 48))"
    unfolding b using that(2) d [OF that(1)] by (rule lerp_d_bounded)
  have f: "js_le (Fin 88) ?t"
    if "\<not> js_gt (d_load (d_state s)) (Fin 70)" and "\<not> is_NaN (d_coolant (d_target s))"
    unfolding a if_not_P [OF that(1)] using that(2) by (rule floor_88)
  show ?thesis
    using a b c d d' f unfolding tick_d_pushed
    by (intro conjI impI push_targets_d_throttle push_targets_d_speed push_targets_d_load
        push_targets_d_fuelEff push_targets_d_rpm) blast+
qed
text \<open>
  The claim as stated fails on doubles: with the load 71 and the coolant target \<open>2\<^sup>4\<^sup>8\<close>
  a step leaves the target as it is, where the claim has it increase by 0.02.
\<close>

theorem coolant_increment_absorbed:
  "js_gt (d_load (d_state
      (MockOBDSimulator_d\<lparr>d_state := initial_dstate\<lparr>d_load := Fin 71\<rparr>,
        d_target := initial_dstate\<lparr>d_coolant := Fin (2 ^ 48)\<rparr>\<rparr>))) (Fin 70) \<and>
   d_coolant (d_target
      (MockOBDSimulator_d\<lparr>d_state := initial_dstate\<lparr>d_load := Fin 71\<rparr>,
        d_target := initial_dstate\<lparr>d_coolant := Fin (2 ^ 48)\<rparr>\<rparr>)) = Fin (2 ^ 48) \<and>
   fl 0.02 = Fin (5764607523034235 / 2 ^ 58) \<and>
   d_coolant (d_target (fst (tick_d rounding_math
      (MockOBDSimulator_d\<lparr>d_state := initial_dstate\<lparr>d_load := Fin 71\<rparr>,
        d_target := initial_dstate\<lparr>d_coolant := Fin (2 ^ 48)\<rparr>\<rparr>)
      \<lparr>d_randoms = sconst (Fin (1/4)), d_clock = sconst (Fin 0)\<rparr>))) = Fin (2 ^ 48)"
proof -
  let ?s = "MockOBDSimulator_d\<lparr>d_state := initial_dstate\<lparr>d_load := Fin 71\<rparr>,
        d_target := initial_dstate\<lparr>d_coolant := Fin (2 ^ 48)\<rparr>\<rparr>"
  let ?e = "\<lparr>d_randoms = sconst (Fin (1/4)), d_clock = sconst (Fin 0)\<rparr>"
  have ld: "js_gt (d_load (d_state ?s)) (Fin 70)"
    by (simp add: js_gt_def js_lt_def)
  have tg: "d_coolant (d_target ?s) = Fin (2 ^ 48)"
    by simp
  have "d_coolant (d_target (fst (tick_d rounding_math ?s ?e))) =
      js_add (d_coolant (d_target ?s)) (fl 0.02)"
    unfolding tick_d_coolant_target if_P [OF ld] ..
  then have "d_coolant (d_target (fst (tick_d rounding_math ?s ?e))) = Fin (2 ^ 48)"
    unfolding tg add_002_absorbed .
  then show ?thesis
    using ld tg fl_coolant_literals(1) by blast
qed

theorem coolant_step_in_doubles_witness:
  "js_gt (d_load (d_state (MockOBDSimulator_d\<lparr>d_state := initial_dstate\<lparr>d_load := Fin 71\<rparr>\<rparr>))) (Fin 70) \<and>
   d_coolant (d_target (MockOBDSimulator_d\<lparr>d_state := initial_dstate\<lparr>d_load := Fin 71\<rparr>\<rparr>)) = Fin 90 \<and>
   (0 :: real) \<le> 90 \<and> (90 :: real) \<le> 2 ^ 48 - 1 \<and>
   d_coolant (d_target (fst (tick_d rounding_math
        (MockOBDSimulator_d\<lparr>d_state := initial_dstate\<lparr>d_load := Fin 71\<rparr>\<rparr>)
        \<lparr>d_randoms = sconst (Fin (1/4)), d_clock = sconst (Fin 0)\<rparr>))) = Fin (6334594350873313 / 2 ^ 46) \<and>
   (90 :: real) < 6334594350873313 / 2 ^ 46 \<and>
   js_le (d_coolant (d_target (MockOBDSimulator_d\<lparr>d_state := initial_dstate\<lparr>d_load := Fin 71\<rparr>\<rparr>))) (Fin (2 ^ 48)) \<and>
   js_le (d_coolant (d_state (MockOBDSimulator_d\<lparr>d_state := initial_dstate\<lparr>d_load := Fin 71\<rparr>\<rparr>))) (Fin (2 ^ 48)) \<and>
   js_le (d_coolant (d_target (fst (tick_d rounding_math
        (MockOBDSimulator_d\<lparr>d_state := initial_dstate\<lparr>d_load := Fin 71\<rparr>\<rparr>)
        \<lparr>d_randoms = sconst (Fin (1/4)), d_clock = sconst (Fin 0)\<rparr>)))) (Fin (2 ^ 48)) \<and>
   js_le (d_coolant (d_state (fst (tick_d rounding_math
        (MockOBDSimulator_d\<lparr>d_state := initial_dstate\<lparr>d_load := Fin 71\<rparr>\<rparr>)
        \<lparr>d_randoms = sconst (Fin (1/4)), d_clock = sconst (Fin 0)\<rparr>)))) (Fin (2 ^ 48)) \<and>
   \<not> js_gt (d_load (d_state MockOBDSimulator_d)) (Fin 70) \<and>
   \<not> is_NaN (d_coolant (d_target MockOBDSimulator_d)) \<and>
   js_le (Fin 88) (d_coolant (d_target (fst (tick_d rounding_math MockOBDSimulator_d
        \<lparr>d_randoms = sconst (Fin (1/4)), d_clock = sconst (Fin 0)\<rparr>)))) \<and>
   js_le (d_throttle (d_target (MockOBDSimulator_d\<lparr>d_state := initial_dstate\<lparr>d_load := Fin 71\<rparr>\<rparr>))) (Fin 85) \<and>
   js_le (d_throttle (d_target (fst (tick_d rounding_math
        (MockOBDSimulator_d\<lparr>d_state := initial_dstate\<lparr>d_load := Fin 71\<rparr>\<rparr>)
        \<lparr>d_randoms = sconst (Fin (1/4)), d_clock = sconst (Fin 0)\<rparr>)))) (Fin 85) \<and>
   js_le (d_speed (d_target (MockOBDSimulator_d\<lparr>d_state := initial_dstate\<lparr>d_load := Fin 71\<rparr>\<rparr>))) (Fin 140) \<and>
   js_le (d_speed (d_target (fst (tick_d rounding_math
        (MockOBDSimulator_d\<lparr>d_state := initial_dstate\<lparr>d_load := Fin 71\<rparr>\<rparr>)
        \<lparr>d_randoms = sconst (Fin (1/4)), d_clock = sconst (Fin 0)\<rparr>)))) (Fin 140) \<and>
   js_le (d_load (d_target (MockOBDSimulator_d\<lparr>d_state := initial_dstate\<lparr>d_load := Fin 71\<rparr>\<rparr>))) (Fin 95) \<and>
   js_le (d_load (d_target (fst (tick_d rounding_math
        (MockOBDSimulator_d\<lparr>d_state := initial_dstate\<lparr>d_load := Fin 71\<rparr>\<rparr>)
        \<lparr>d_randoms = sconst (Fin (1/4)), d_clock = sconst (Fin 0)\<rparr>)))) (Fin 95) \<and>
   js_le (d_fuelEff (d_target (MockOBDSimulator_d\<lparr>d_state := initial_dstate\<lparr>d_load := Fin 71\<rparr>\<rparr>))) (Fin 25) \<and>
   js_le (d_fuelEff (d_target (fst (tick_d rounding_math
        (MockOBDSimulator_d\<lparr>d_state := initial_dstate\<lparr>d_load := Fin 71\<rparr>\<rparr>)
        \<lparr>d_randoms = sconst (Fin (1/4)), d_clock = sconst (Fin 0)\<rparr>)))) (Fin 25) \<and>
   js_le (d_rpm (d_target (MockOBDSimulator_d\<lparr>d_state := initial_dstate\<lparr>d_load := Fin 71\<rparr>\<rparr>))) (Fin 5515) \<and>
   js_le (d_rpm (push_targets_d (d_isAccelerating (fst (tick_mode_d (MockOBDSimulator_d\<lparr>d_state := initial_dstate\<lparr>d_load := Fin 71\<rparr>\<rparr>)
        \<lparr>d_randoms = sconst (Fin (1/4)), d_clock = sconst (Fin 0)\<rparr>)))
      (d_target (MockOBDSimulator_d\<lparr>d_state := initial_dstate\<lparr>d_load := Fin 71\<rparr>\<rparr>)))) (Fin 5500)"
proof -
  let ?s = "MockOBDSimulator_d\<lparr>d_state := initial_dstate\<lparr>d_load := Fin 71\<rparr>\<rparr>"
  let ?e = "\<lparr>d_randoms = sconst (Fin (1/4)), d_clock = sconst (Fin 0)\<rparr>"
  note hot = coolant_step_in_doubles [of rounding_math ?s ?e]
  note cool = coolant_step_in_doubles [of rounding_math MockOBDSimulator_d ?e]
  have ld: "js_gt (d_load (d_state ?s)) (Fin 70)"
    by (simp add: js_gt_def js_lt_def)
  have tg: "d_coolant (d_target ?s) = Fin 90"
    by (simp add: MockOBDSimulator_d_def initial_dstate_def)
  have ar: "(0 :: real) \<le> 90" "(90 :: real) \<le> 2 ^ 48 - 1" "(90 :: real) < 6334594350873313 / 2 ^ 46"
    by simp_all
  have "fl (90 + (5764607523034235 / 2 ^ 58)) = Fin (of_int 6334594350873313 * 2 powi (- 46))"
    by (rule fl_near) simp_all
  then have add90: "js_add (Fin (90)) (Fin (5764607523034235 / 2 ^ 58)) = Fin (6334594350873313 / 2 ^ 46)"
    by (simp add: js_sub_def)
  have "d_coolant (d_target (fst (tick_d rounding_math ?s ?e))) =
      (if js_gt (d_load (d_state ?s)) (Fin 70) then js_add (d_coolant (d_target ?s)) (fl 0.02)
       else Math_max (js_sub (d_coolant (d_target ?s)) (fl 0.01)) (Fin 88))"
    using hot by blast
  then have v: "d_coolant (d_target (fst (tick_d rounding_math ?s ?e))) = Fin (6334594350873313 / 2 ^ 46)"
    unfolding if_P [OF ld] tg fl_coolant_literals add90 .
  have le: "js_le (d_coolant (d_target ?s)) (Fin (2 ^ 48))"
    unfolding tg by simp
  have st: "js_le (d_coolant (d_state ?s)) (Fin (2 ^ 48))"
    by (simp add: MockOBDSimulator_d_def initial_dstate_def)
  have le': "js_le (d_coolant (d_target (fst (tick_d rounding_math ?s ?e)))) (Fin (2 ^ 48))"
    using hot le by blast
  have st': "js_le (d_coolant (d_state (fst (tick_d rounding_math ?s ?e)))) (Fin (2 ^ 48))"
    using hot le st by blast
  have c0: "\<not> js_gt (d_load (d_state MockOBDSimulator_d)) (Fin 70)"
      "\<not> is_NaN (d_coolant (d_target MockOBDSimulator_d))"
    by (simp_all add: MockOBDSimulator_d_def initial_dstate_def js_gt_def js_lt_def)
  have fl88: "js_le (Fin 88) (d_coolant (d_target (fst (tick_d rounding_math MockOBDSimulator_d ?e))))"
    using cool c0 by blast
  have th: "js_le (d_throttle (d_target ?s)) (Fin 85)" and sp: "js_le (d_speed (d_target ?s)) (Fin 140)"
    and lo: "js_le (d_load (d_target ?s)) (Fin 95)" and fu: "js_le (d_fuelEff (d_target ?s)) (Fin 25)"
    and rp: "js_le (d_rpm (d_target ?s)) (Fin 5515)"
    by (simp_all add: MockOBDSimulator_d_def initial_dstate_def)
  have th': "js_le (d_throttle (d_target (fst (tick_d rounding_math ?s ?e)))) (Fin 85)"
    using hot th by blast
  have sp': "js_le (d_speed (d_target (fst (tick_d rounding_math ?s ?e)))) (Fin 140)"
    using hot sp by blast
  have lo': "js_le (d_load (d_target (fst (tick_d rounding_math ?s ?e)))) (Fin 95)"
    using hot lo by blast
  have fu': "js_le (d_fuelEff (d_target (fst (tick_d rounding_math ?s ?e)))) (Fin 25)"
    using hot fu by blast
  have rp': "js_le (d_rpm (push_targets_d (d_isAccelerating (fst (tick_mode_d ?s ?e)))
      (d_target ?s))) (Fin 5500)"
    using hot rp by blast
  show ?thesis
    using ld tg ar v le st le' st' c0 fl88 th th' sp sp' lo lo' fu fu' rp rp' by blast
qed

end
